(* ===== verification/Prelude.thy ===== *)
theory Prelude
  imports Main "HOL-Library.Sublist"
begin

text \<open>
  The base of the development: the control flow of a Go function as a state-passing
  computation, the frame calculus over it, and the list and option lemmas the components
  share.

  A Go function that mutates its receiver, calls the cluster and may return early or panic
  is a \<open>prog\<close>: from a state it produces an \<open>outcome\<close> and the new state. \<open>Next x\<close>
  means the statement finished and the following one runs with \<open>x\<close>; \<open>Return r\<close> is an
  executed \<^verbatim>\<open>return\<close> statement; \<open>Panic m\<close> is a Go run-time panic (a nil map written, a nil
  pointer dereferenced, a nil function called).
\<close>

named_theorems frames
  "facts always R m: the computation m only makes state changes allowed by R"
named_theorems prog_defs
  "the equations of the computation combinators"

section \<open>Computations with early return\<close>

datatype ('r, 'a) outcome = Next 'a | Return 'r | Panic string

type_synonym ('s, 'r, 'a) prog = "'s \<Rightarrow> ('r, 'a) outcome \<times> 's"

definition ok :: "'a \<Rightarrow> ('s, 'r, 'a) prog" where
  "ok x = (\<lambda>s. (Next x, s))"

definition ret :: "'r \<Rightarrow> ('s, 'r, 'a) prog" where
  "ret r = (\<lambda>s. (Return r, s))"

definition panic :: "string \<Rightarrow> ('s, 'r, 'a) prog" where
  "panic m = (\<lambda>s. (Panic m, s))"

text \<open>Statement sequencing: the rest of the body runs only after \<open>Next\<close>.\<close>

definition andthen ::
  "('s, 'r, 'a) prog \<Rightarrow> ('a \<Rightarrow> ('s, 'r, 'b) prog) \<Rightarrow> ('s, 'r, 'b) prog" where
  "andthen m f = (\<lambda>s. case m s of
      (Next x, t) \<Rightarrow> f x t
    | (Return r, t) \<Rightarrow> (Return r, t)
    | (Panic p, t) \<Rightarrow> (Panic p, t))"

text \<open>
  A call of another Go function: its \<^verbatim>\<open>return\<close> ends the callee, not the caller; a panic
  goes through.
\<close>

definition fcall :: "('s, 'q, 'q) prog \<Rightarrow> ('s, 'r, 'q) prog" where
  "fcall m = (\<lambda>s. case m s of
      (Next x, t) \<Rightarrow> (Next x, t)
    | (Return x, t) \<Rightarrow> (Next x, t)
    | (Panic p, t) \<Rightarrow> (Panic p, t))"

definition reads :: "('s \<Rightarrow> 'a) \<Rightarrow> ('s, 'r, 'a) prog" where
  "reads f = (\<lambda>s. (Next (f s), s))"

definition update :: "('s \<Rightarrow> 's) \<Rightarrow> ('s, 'r, unit) prog" where
  "update f = (\<lambda>s. (Next (), f s))"

text \<open>\<^verbatim>\<open>for _, x := range xs { body }\<close>\<close>

fun foreach :: "('x \<Rightarrow> ('s, 'r, unit) prog) \<Rightarrow> 'x list \<Rightarrow> ('s, 'r, unit) prog" where
  "foreach f [] = ok ()"
| "foreach f (x # xs) = andthen (f x) (\<lambda>_. foreach f xs)"

lemmas [prog_defs] = ok_def ret_def panic_def andthen_def fcall_def reads_def update_def

lemma andthen_ok [simp]: "andthen (ok x) f = f x"
  by (simp add: andthen_def ok_def)

lemma andthen_ret [simp]: "andthen (ret r) f = ret r"
  by (simp add: andthen_def ret_def)

lemma andthen_panic [simp]: "andthen (panic p) f = panic p"
  by (simp add: andthen_def panic_def)

lemma andthen_assoc: "andthen (andthen m f) g = andthen m (\<lambda>x. andthen (f x) g)"
  by (rule ext) (simp add: andthen_def split: prod.splits outcome.splits)

lemma outcome_prod_cases:
  obtains (Next) x t where "p = (Next x, t)"
    | (Return) r t where "p = (Return r, t)"
    | (Panic) m t where "p = (Panic m, t)"
  by (cases p, cases "fst p") auto

text \<open>Running a sequence from a state whose first part is known.\<close>

lemma andthen_Next: "m s = (Next x, t) \<Longrightarrow> andthen m f s = f x t"
  by (simp add: andthen_def)

lemma andthen_NextE:
  assumes "andthen m f s = (Next y, u)"
  obtains x t where "m s = (Next x, t)" and "f x t = (Next y, u)"
  using assms by (cases "m s" rule: outcome_prod_cases) (auto simp: andthen_def)

lemma andthen_ReturnE:
  assumes "andthen m f s = (Return r, u)"
  obtains (first) "m s = (Return r, u)"
    | (second) x t where "m s = (Next x, t)" and "f x t = (Return r, u)"
  using assms by (cases "m s" rule: outcome_prod_cases) (auto simp: andthen_def)

section \<open>Frames: what a computation may do to the state\<close>

definition always :: "('s \<Rightarrow> 's \<Rightarrow> bool) \<Rightarrow> ('s, 'r, 'a) prog \<Rightarrow> bool" where
  "always R m \<longleftrightarrow> (\<forall>s. R s (snd (m s)))"

lemma alwaysD: "always R m \<Longrightarrow> R s (snd (m s))"
  by (simp add: always_def)

lemma always_weaken: "always R m \<Longrightarrow> (\<And>s t. R s t \<Longrightarrow> Q s t) \<Longrightarrow> always Q m"
  by (simp add: always_def)

text \<open>
  The interface of a frame: a reflexive and transitive relation between states. What the
  combinators keep is proved once here; each frame of the controller is an interpretation.
\<close>

locale step_frame =
  fixes R :: "'s \<Rightarrow> 's \<Rightarrow> bool"
  assumes stays: "R s s"
    and chains: "R s t \<Longrightarrow> R t u \<Longrightarrow> R s u"
begin

lemma frame_ok: "always R (ok x)"
  by (simp add: always_def ok_def stays)

lemma frame_ret: "always R (ret r)"
  by (simp add: always_def ret_def stays)

lemma frame_panic: "always R (panic p)"
  by (simp add: always_def panic_def stays)

lemma frame_reads: "always R (reads f)"
  by (simp add: always_def reads_def stays)

lemma frame_update: "(\<And>s. R s (f s)) \<Longrightarrow> always R (update f)"
  by (simp add: always_def update_def)

lemma frame_andthen:
  assumes "always R m" and "\<And>x. always R (f x)"
  shows "always R (andthen m f)"
  unfolding always_def
proof
  fix s
  have m: "R s (snd (m s))" using assms(1) by (rule alwaysD)
  show "R s (snd (andthen m f s))"
  proof (cases "m s" rule: outcome_prod_cases)
    case (Next x t)
    then have "R t (snd (f x t))" using assms(2) by (simp add: alwaysD)
    with m Next show ?thesis by (auto simp: andthen_def intro: chains)
  qed (use m in \<open>auto simp: andthen_def\<close>)
qed

lemma frame_fcall: "always R m \<Longrightarrow> always R (fcall m)"
  unfolding always_def fcall_def
  by (auto split: prod.splits outcome.splits) (metis snd_conv)+

lemma frame_foreach: "(\<And>x. always R (f x)) \<Longrightarrow> always R (foreach f xs)"
  by (induction xs) (auto intro: frame_ok frame_andthen)

lemma frame_if: "always R m \<Longrightarrow> always R n \<Longrightarrow> always R (if b then m else n)"
  by simp

lemma frame_option:
  "always R m \<Longrightarrow> (\<And>x. always R (f x)) \<Longrightarrow> always R (case z of None \<Rightarrow> m | Some x \<Rightarrow> f x)"
  by (cases z) auto

lemma frame_sum:
  "(\<And>e. always R (f e)) \<Longrightarrow> (\<And>x. always R (g x)) \<Longrightarrow>
   always R (case z of Inl e \<Rightarrow> f e | Inr x \<Rightarrow> g x)"
  by (cases z) auto

lemma frame_prod: "(\<And>x y. always R (f x y)) \<Longrightarrow> always R (case z of (x, y) \<Rightarrow> f x y)"
  by (cases z) auto

lemma frame_prod_arg: "(\<And>x y. always R (f x y a)) \<Longrightarrow> always R ((case z of (x, y) \<Rightarrow> f x y) a)"
  by (cases z) auto

lemma frame_let: "always R (f x) \<Longrightarrow> always R (let y = x in f y)"
  by (simp add: Let_def)

lemmas frame_rules = frame_ok frame_ret frame_panic frame_reads frame_andthen frame_fcall
  frame_foreach frame_if frame_option frame_sum frame_prod frame_prod_arg frame_let

end

section \<open>Triples: what holds after a computation\<close>

text \<open>
  \<open>triple P m Q E\<close>: from a state with \<open>P\<close>, \<open>m\<close> does not panic; if it goes on, \<open>Q\<close>
  holds of the value and the new state; if it returns, \<open>E\<close> holds of what it returns.
\<close>

definition triple ::
  "('s \<Rightarrow> bool) \<Rightarrow> ('s, 'r, 'a) prog \<Rightarrow> ('a \<Rightarrow> 's \<Rightarrow> bool) \<Rightarrow> ('r \<Rightarrow> 's \<Rightarrow> bool) \<Rightarrow> bool" where
  "triple P m Q E \<longleftrightarrow> (\<forall>s. P s \<longrightarrow> (case m s of
      (Next x, t) \<Rightarrow> Q x t
    | (Return r, t) \<Rightarrow> E r t
    | (Panic _, _) \<Rightarrow> False))"

lemma tripleD_Next: "triple P m Q E \<Longrightarrow> P s \<Longrightarrow> m s = (Next x, t) \<Longrightarrow> Q x t"
  by (fastforce simp: triple_def)

lemma tripleD_Return: "triple P m Q E \<Longrightarrow> P s \<Longrightarrow> m s = (Return r, t) \<Longrightarrow> E r t"
  by (fastforce simp: triple_def)

lemma tripleD_Panic: "triple P m Q E \<Longrightarrow> P s \<Longrightarrow> m s \<noteq> (Panic p, t)"
  by (fastforce simp: triple_def)

lemmas tripleD = tripleD_Next tripleD_Return tripleD_Panic

lemma tripleI:
  assumes "\<And>s x t. P s \<Longrightarrow> m s = (Next x, t) \<Longrightarrow> Q x t"
    and "\<And>s r t. P s \<Longrightarrow> m s = (Return r, t) \<Longrightarrow> E r t"
    and "\<And>s p t. P s \<Longrightarrow> m s = (Panic p, t) \<Longrightarrow> False"
  shows "triple P m Q E"
  unfolding triple_def
proof (intro allI impI)
  fix s assume "P s"
  then show "case m s of (Next x, t) \<Rightarrow> Q x t | (Return r, t) \<Rightarrow> E r t | (Panic _, _) \<Rightarrow> False"
    by (cases "m s" rule: outcome_prod_cases) (simp_all add: assms, blast dest: assms(3))
qed

lemma triple_ok: "(\<And>s. P s \<Longrightarrow> Q x s) \<Longrightarrow> triple P (ok x) Q E"
  by (simp add: triple_def ok_def)

lemma triple_ret: "(\<And>s. P s \<Longrightarrow> E r s) \<Longrightarrow> triple P (ret r) Q E"
  by (simp add: triple_def ret_def)

lemma triple_reads: "(\<And>s. P s \<Longrightarrow> Q (f s) s) \<Longrightarrow> triple P (reads f) Q E"
  by (simp add: triple_def reads_def)

lemma triple_update: "(\<And>s. P s \<Longrightarrow> Q () (f s)) \<Longrightarrow> triple P (update f) Q E"
  by (simp add: triple_def update_def)

lemma triple_andthen:
  assumes m: "triple P m Q E" and f: "\<And>x. triple (Q x) (f x) Q' E"
  shows "triple P (andthen m f) Q' E"
proof (rule tripleI)
  fix s x t assume "P s" and "andthen m f s = (Next x, t)"
  then show "Q' x t"
    by (auto elim!: andthen_NextE dest: tripleD_Next [OF m] tripleD_Next [OF f])
next
  fix s r t assume "P s" and "andthen m f s = (Return r, t)"
  then show "E r t"
    by (auto elim!: andthen_ReturnE dest: tripleD_Return [OF m] tripleD_Next [OF m]
        tripleD_Return [OF f])
next
  fix s p t assume s: "P s" and p: "andthen m f s = (Panic p, t)"
  show False
  proof (cases "m s" rule: outcome_prod_cases)
    case (Next x u)
    with s have "Q x u" by (rule tripleD_Next [OF m])
    then show False using p Next tripleD_Panic [OF f] by (simp add: andthen_def)
  qed (use s p tripleD_Panic [OF m s] in \<open>simp_all add: andthen_def\<close>)
qed

lemma triple_fcall:
  fixes P :: "'b \<Rightarrow> bool" and Q :: "'c \<Rightarrow> 'b \<Rightarrow> bool" and E :: "'d \<Rightarrow> 'b \<Rightarrow> bool"
  assumes m: "triple P m Q Q"
  shows "triple P (fcall m) Q E"
proof (rule tripleI)
  fix s x t assume "P s" and "(fcall m :: ('b, 'd, 'c) prog) s = (Next x, t)"
  then show "Q x t"
    by (cases "m s" rule: outcome_prod_cases) (auto simp: fcall_def dest: tripleD_Next [OF m]
        tripleD_Return [OF m])
next
  fix s t and r :: 'd assume "P s" and "fcall m s = (Return r, t)"
  then show "E r t"
    by (cases "m s" rule: outcome_prod_cases) (simp_all add: fcall_def)
next
  fix s t and p :: string assume s: "P s" and "(fcall m :: ('b, 'd, 'c) prog) s = (Panic p, t)"
  then show False
    by (cases "m s" rule: outcome_prod_cases) (simp_all add: fcall_def tripleD_Panic [OF m s])
qed

lemma triple_pre: "triple P m Q E \<Longrightarrow> (\<And>s. P' s \<Longrightarrow> P s) \<Longrightarrow> triple P' m Q E"
  by (simp add: triple_def)

lemma triple_post:
  assumes "triple P m Q E" and "\<And>x s. Q x s \<Longrightarrow> Q' x s" and "\<And>r s. E r s \<Longrightarrow> E' r s"
  shows "triple P m Q' E'"
  using assms(2,3) tripleD [OF assms(1)] by (intro tripleI) auto

lemma triple_if:
  "(b \<Longrightarrow> triple P m Q E) \<Longrightarrow> (\<not> b \<Longrightarrow> triple P n Q E) \<Longrightarrow> triple P (if b then m else n) Q E"
  by simp

lemma triple_option:
  "(z = None \<Longrightarrow> triple P m Q E) \<Longrightarrow> (\<And>x. z = Some x \<Longrightarrow> triple P (f x) Q E) \<Longrightarrow>
   triple P (case z of None \<Rightarrow> m | Some x \<Rightarrow> f x) Q E"
  by (cases z) auto

lemma triple_sum:
  "(\<And>e. z = Inl e \<Longrightarrow> triple P (f e) Q E) \<Longrightarrow> (\<And>x. z = Inr x \<Longrightarrow> triple P (g x) Q E) \<Longrightarrow>
   triple P (case z of Inl e \<Rightarrow> f e | Inr x \<Rightarrow> g x) Q E"
  by (cases z) auto

lemma triple_prod:
  "(\<And>x y. z = (x, y) \<Longrightarrow> triple P (f x y) Q E) \<Longrightarrow> triple P (case z of (x, y) \<Rightarrow> f x y) Q E"
  by (cases z) auto

lemmas triple_cases = triple_if triple_option triple_sum triple_prod

text \<open>From one start state.\<close>

lemma triple_at: "triple P m Q E \<Longrightarrow> P s \<Longrightarrow> triple (\<lambda>t. t = s) m Q E"
  by (simp add: triple_def)

lemma triple_foreach:
  assumes "\<And>x. x \<in> set xs \<Longrightarrow> triple I (f x) (\<lambda>_. I) E"
  shows "triple I (foreach f xs) (\<lambda>_. I) E"
  using assms
proof (induction xs)
  case Nil
  then show ?case by (auto intro: triple_ok)
next
  case (Cons x xs)
  then show ?case by (auto intro!: triple_andthen [where Q = "\<lambda>_. I"])
qed

section \<open>Guarded computations: what holds on every exit\<close>

text \<open>
  \<open>guarded P m Q R\<close>: from a state with \<open>P\<close>, \<open>Q\<close> holds if \<open>m\<close> goes on, and \<open>R\<close> holds of
  the state it leaves behind when it returns or panics.
\<close>

definition guarded ::
  "('s \<Rightarrow> bool) \<Rightarrow> ('s, 'r, 'a) prog \<Rightarrow> ('a \<Rightarrow> 's \<Rightarrow> bool) \<Rightarrow> ('s \<Rightarrow> bool) \<Rightarrow> bool" where
  "guarded P m Q R \<longleftrightarrow> (\<forall>s. P s \<longrightarrow> (case m s of
      (Next x, t) \<Rightarrow> Q x t
    | (Return r, t) \<Rightarrow> R t
    | (Panic _, t) \<Rightarrow> R t))"

lemma guarded_final:
  assumes "guarded P m (\<lambda>_. R) R" and "P s"
  shows "R (snd (m s))"
  using assms by (cases "m s" rule: outcome_prod_cases) (auto simp: guarded_def)

lemma guarded_ok: "(\<And>s. P s \<Longrightarrow> Q x s) \<Longrightarrow> guarded P (ok x) Q R"
  by (simp add: guarded_def ok_def)

lemma guarded_ret: "(\<And>s. P s \<Longrightarrow> R s) \<Longrightarrow> guarded P (ret r) Q R"
  by (simp add: guarded_def ret_def)

lemma guarded_panic: "(\<And>s. P s \<Longrightarrow> R s) \<Longrightarrow> guarded P (panic p) Q R"
  by (simp add: guarded_def panic_def)

lemma guarded_reads: "(\<And>s. P s \<Longrightarrow> Q (f s) s) \<Longrightarrow> guarded P (reads f) Q R"
  by (simp add: guarded_def reads_def)

lemma guarded_update: "(\<And>s. P s \<Longrightarrow> Q () (f s)) \<Longrightarrow> guarded P (update f) Q R"
  by (simp add: guarded_def update_def)

lemma guarded_andthen:
  assumes m: "guarded P m Q R" and f: "\<And>x. guarded (Q x) (f x) Q' R"
  shows "guarded P (andthen m f) Q' R"
  unfolding guarded_def
proof (intro allI impI)
  fix s assume "P s"
  with m have s: "case m s of (Next x, t) \<Rightarrow> Q x t | (Return r, t) \<Rightarrow> R t | (Panic _, t) \<Rightarrow> R t"
    by (simp add: guarded_def)
  show "case andthen m f s of (Next x, t) \<Rightarrow> Q' x t | (Return r, t) \<Rightarrow> R t | (Panic _, t) \<Rightarrow> R t"
  proof (cases "m s" rule: outcome_prod_cases)
    case (Next x t)
    with s f [of x] show ?thesis by (simp add: andthen_def guarded_def)
  qed (use s in \<open>simp_all add: andthen_def\<close>)
qed

lemma guarded_fcall: "guarded P m (\<lambda>_. R) R \<Longrightarrow> guarded P (fcall m) (\<lambda>_. R) R"
  unfolding guarded_def fcall_def by (auto split: prod.splits outcome.splits) (metis prod.inject outcome.distinct outcome.inject)+

lemma guarded_frame:
  assumes "always F m" and "\<And>s t. P s \<Longrightarrow> F s t \<Longrightarrow> Q t" and "\<And>t. Q t \<Longrightarrow> R t"
  shows "guarded P m (\<lambda>_. Q) R"
  unfolding guarded_def
proof (intro allI impI)
  fix s assume "P s"
  with assms have "Q (snd (m s))" by (blast dest: alwaysD)
  then show "case m s of (Next x, t) \<Rightarrow> Q t | (Return r, t) \<Rightarrow> R t | (Panic _, t) \<Rightarrow> R t"
    by (cases "m s" rule: outcome_prod_cases) (auto simp: assms(3))
qed

lemma guarded_pre: "guarded P m Q R \<Longrightarrow> (\<And>s. P' s \<Longrightarrow> P s) \<Longrightarrow> guarded P' m Q R"
  by (simp add: guarded_def)

lemma guarded_assume: "(b \<Longrightarrow> guarded P m Q R) \<Longrightarrow> guarded (\<lambda>s. P s \<and> b) m Q R"
  by (cases b) (auto simp: guarded_def)

lemma guarded_post:
  "guarded P m Q R \<Longrightarrow> (\<And>x s. Q x s \<Longrightarrow> Q' x s) \<Longrightarrow> (\<And>s. R s \<Longrightarrow> R' s) \<Longrightarrow> guarded P m Q' R'"
  unfolding guarded_def by (fastforce split: prod.splits outcome.splits)

lemma guarded_conj:
  assumes "guarded P m Q R" and "guarded P' m Q' R'"
  shows "guarded (\<lambda>s. P s \<and> P' s) m (\<lambda>x s. Q x s \<and> Q' x s) (\<lambda>s. R s \<and> R' s)"
  using assms unfolding guarded_def by (fastforce split: prod.splits outcome.splits)

lemma guarded_if:
  "(b \<Longrightarrow> guarded P m Q R) \<Longrightarrow> (\<not> b \<Longrightarrow> guarded P n Q R) \<Longrightarrow> guarded P (if b then m else n) Q R"
  by simp

lemma guarded_option:
  "(z = None \<Longrightarrow> guarded P m Q R) \<Longrightarrow> (\<And>x. z = Some x \<Longrightarrow> guarded P (f x) Q R) \<Longrightarrow>
   guarded P (case z of None \<Rightarrow> m | Some x \<Rightarrow> f x) Q R"
  by (cases z) auto

lemma guarded_sum:
  "(\<And>e. z = Inl e \<Longrightarrow> guarded P (f e) Q R) \<Longrightarrow> (\<And>x. z = Inr x \<Longrightarrow> guarded P (g x) Q R) \<Longrightarrow>
   guarded P (case z of Inl e \<Rightarrow> f e | Inr x \<Rightarrow> g x) Q R"
  by (cases z) auto

lemma guarded_prod:
  "(\<And>x y. z = (x, y) \<Longrightarrow> guarded P (f x y) Q R) \<Longrightarrow> guarded P (case z of (x, y) \<Rightarrow> f x y) Q R"
  by (cases z) auto

lemma guarded_foreach:
  "(\<And>x. guarded I (f x) (\<lambda>_. I) R) \<Longrightarrow> guarded I (foreach f xs) (\<lambda>_. I) R"
  by (induction xs) (auto intro: guarded_ok guarded_andthen)

lemma triple_guarded:
  assumes "triple P m Q R" and "guarded P' m Q' R'"
  shows "triple (\<lambda>s. P s \<and> P' s) m (\<lambda>x s. Q x s \<and> Q' x s) (\<lambda>r s. R r s \<and> R' s)"
  using assms unfolding triple_def guarded_def by (fastforce split: prod.splits outcome.splits)

lemmas guarded_cases = guarded_if guarded_option guarded_sum guarded_prod

section \<open>Lists\<close>

text \<open>\<open>set\<close> and order facts about prefixes of call sequences.\<close>

lemma append_prefix_trans:
  "\<exists>cs. t = s @ cs \<and> list_all P cs \<Longrightarrow> \<exists>ds. u = t @ ds \<and> list_all P ds \<Longrightarrow>
   \<exists>es. u = s @ es \<and> list_all P es"
  by auto

lemma subseq_filter_mono: "subseq xs ys \<Longrightarrow> subseq (filter P xs) (filter P ys)"
  by (rule subseq_filter)

end
