(* ===== verification/GoRuntime.thy ===== *)
theory GoRuntime
  imports Prelude
begin

text \<open>
  The language's own library: Go errors with wrapping and \<^verbatim>\<open>errors.Is\<close>, and the functions of
  the \<^verbatim>\<open>strings\<close>, \<^verbatim>\<open>strconv\<close> and \<^verbatim>\<open>fmt\<close> packages that the operator uses. A Go string is a
  byte sequence, here \<open>string\<close> (a list of 8-bit characters).
\<close>

section \<open>Errors\<close>

text \<open>
  An error value is one a library returned (with what \<^verbatim>\<open>k8s_errors.IsNotFound\<close> says of it and
  its text), a sentinel declared by this repository or imported from a library, or one that
  \<^verbatim>\<open>fmt.Errorf\<close> made: text around a wrapped error (\<^verbatim>\<open>%w\<close>). \<^verbatim>\<open>IsNotFound\<close> and
  \<^verbatim>\<open>errors.Is\<close> look through the wrapping.
\<close>

datatype goerror =
    LibErr bool string
  | LibSentinel string
  | ErrTransportURLSecretNameNilOrEmpty
  | ErrACSecretNotFound
  | ErrACSecretMissingKeys
  | ErrInvalidObject
  | Errorf string goerror string

fun IsNotFound :: "goerror \<Rightarrow> bool" where
  "IsNotFound (LibErr nf _) = nf"
| "IsNotFound (Errorf _ e _) = IsNotFound e"
| "IsNotFound _ = False"

fun errors_Is :: "goerror \<Rightarrow> goerror \<Rightarrow> bool" where
  "errors_Is (Errorf p e q) t = (Errorf p e q = t \<or> errors_Is e t)"
| "errors_Is e t = (e = t)"

text \<open>\<^verbatim>\<open>IsNotFound(err)\<close> of a possibly nil error: false on nil.\<close>

definition notFound :: "goerror option \<Rightarrow> bool" where
  "notFound err = (case err of None \<Rightarrow> False | Some e \<Rightarrow> IsNotFound e)"

text \<open>An argument of a message format: a string or an error (\<^verbatim>\<open>err.Error()\<close>).\<close>

datatype arg = Str string | ErrText goerror

section \<open>Go's string functions\<close>

text \<open>
  The white space of \<^verbatim>\<open>unicode.IsSpace\<close>, each rune as its UTF-8 bytes: the six ASCII ones,
  U+0085, U+00A0, U+1680, U+2000 to U+200A, U+2028, U+2029, U+202F, U+205F and U+3000.
\<close>

definition spaceRunes :: "string list" where
  "spaceRunes =
     [[CHR 0x20], [CHR 0x09], [CHR 0x0A], [CHR 0x0B], [CHR 0x0C], [CHR 0x0D],
      [CHR 0xC2, CHR 0x85], [CHR 0xC2, CHR 0xA0], [CHR 0xE1, CHR 0x9A, CHR 0x80],
      [CHR 0xE2, CHR 0x80, CHR 0x80], [CHR 0xE2, CHR 0x80, CHR 0x81],
      [CHR 0xE2, CHR 0x80, CHR 0x82], [CHR 0xE2, CHR 0x80, CHR 0x83],
      [CHR 0xE2, CHR 0x80, CHR 0x84], [CHR 0xE2, CHR 0x80, CHR 0x85],
      [CHR 0xE2, CHR 0x80, CHR 0x86], [CHR 0xE2, CHR 0x80, CHR 0x87],
      [CHR 0xE2, CHR 0x80, CHR 0x88], [CHR 0xE2, CHR 0x80, CHR 0x89],
      [CHR 0xE2, CHR 0x80, CHR 0x8A], [CHR 0xE2, CHR 0x80, CHR 0xA8],
      [CHR 0xE2, CHR 0x80, CHR 0xA9], [CHR 0xE2, CHR 0x80, CHR 0xAF],
      [CHR 0xE2, CHR 0x81, CHR 0x9F], [CHR 0xE3, CHR 0x80, CHR 0x80]]"

definition front_len :: "string list \<Rightarrow> string \<Rightarrow> nat" where
  "front_len es s = (case List.find (\<lambda>e. prefix e s) es of None \<Rightarrow> 0 | Some e \<Rightarrow> length e)"

function drop_front :: "string list \<Rightarrow> string \<Rightarrow> string" where
  "drop_front es s =
     (if front_len es s = 0 then s else drop_front es (drop (front_len es s) s))"
  by pat_completeness auto
termination
proof (relation "measure (\<lambda>(es, s). length s)", simp, clarsimp)
  fix es :: "string list" and s :: string
  assume "0 < front_len es s"
  then have "s \<noteq> []"
    by (auto simp: front_len_def find_Some_iff split: option.splits)
  with \<open>0 < front_len es s\<close> show "length s - front_len es s < length s" by simp
qed

declare drop_front.simps [simp del]

text \<open>\<^verbatim>\<open>strings.TrimSpace\<close>\<close>

definition TrimSpace :: "string \<Rightarrow> string" where
  "TrimSpace s =
     rev (drop_front (map rev spaceRunes) (rev (drop_front spaceRunes s)))"

text \<open>\<^verbatim>\<open>strings.Split(s, sep)\<close> for a separator of one byte.\<close>

fun Split :: "char \<Rightarrow> string \<Rightarrow> string list" where
  "Split sep [] = [[]]"
| "Split sep (c # cs) =
     (if c = sep then [] # Split sep cs
      else (case Split sep cs of [] \<Rightarrow> [[c]] | w # ws \<Rightarrow> (c # w) # ws))"

text \<open>\<^verbatim>\<open>strings.SplitN(s, sep, 2)\<close> for a separator of one byte.\<close>

fun SplitN2 :: "char \<Rightarrow> string \<Rightarrow> string list" where
  "SplitN2 sep [] = [[]]"
| "SplitN2 sep (c # cs) =
     (if c = sep then [[], cs]
      else (case SplitN2 sep cs of [] \<Rightarrow> [[c]] | w # ws \<Rightarrow> (c # w) # ws))"

text \<open>\<^verbatim>\<open>strings.ReplaceAll(s, c, "")\<close> for one byte \<^verbatim>\<open>c\<close>.\<close>

definition RemoveAll :: "char \<Rightarrow> string \<Rightarrow> string" where
  "RemoveAll c s = filter (\<lambda>x. x \<noteq> c) s"

text \<open>\<^verbatim>\<open>strings.Join\<close>\<close>

fun Join :: "string list \<Rightarrow> string \<Rightarrow> string" where
  "Join [] sep = []"
| "Join [x] sep = x"
| "Join (x # y # ys) sep = x @ sep @ Join (y # ys) sep"

text \<open>\<^verbatim>\<open>strings.HasPrefix\<close> and \<^verbatim>\<open>strings.HasSuffix\<close>.\<close>

definition HasPrefix :: "string \<Rightarrow> string \<Rightarrow> bool" where
  "HasPrefix s p = prefix p s"

definition HasSuffix :: "string \<Rightarrow> string \<Rightarrow> bool" where
  "HasSuffix s p = prefix (rev p) (rev s)"

section \<open>Decimal integers\<close>

definition is_digit :: "char \<Rightarrow> bool" where
  "is_digit c = (48 \<le> (of_char c :: nat) \<and> (of_char c :: nat) \<le> 57)"

definition digits_value :: "string \<Rightarrow> nat" where
  "digits_value ds = foldl (\<lambda>a c. 10 * a + (of_char c - 48)) 0 ds"

definition digits_val :: "string \<Rightarrow> nat option" where
  "digits_val ds = (if ds \<noteq> [] \<and> list_all is_digit ds then Some (digits_value ds) else None)"

text \<open>
  \<^verbatim>\<open>strconv.Atoi\<close> on a 64-bit platform: an optional sign, then decimal digits, nothing
  else; \<open>None\<close> stands for the non-nil error (syntax or range).
\<close>

definition Atoi :: "string \<Rightarrow> int option" where
  "Atoi s = (case s of
      [] \<Rightarrow> None
    | c # cs \<Rightarrow>
       (if c = CHR ''-'' then
          (case digits_val cs of None \<Rightarrow> None
           | Some n \<Rightarrow> if n \<le> 2 ^ 63 then Some (- int n) else None)
        else
          (case digits_val (if c = CHR ''+'' then cs else s) of None \<Rightarrow> None
           | Some n \<Rightarrow> if n < 2 ^ 63 then Some (int n) else None)))"

text \<open>\<^verbatim>\<open>%d\<close> of \<^verbatim>\<open>fmt.Sprintf\<close>\<close>

definition digit :: "nat \<Rightarrow> char" where
  "digit n = char_of (48 + n)"

fun nat_str :: "nat \<Rightarrow> string" where
  "nat_str n = (if n < 10 then [digit n] else nat_str (n div 10) @ [digit (n mod 10)])"

declare nat_str.simps [simp del]

definition fmt_d :: "int \<Rightarrow> string" where
  "fmt_d i = (if i < 0 then CHR ''-'' # nat_str (nat (- i)) else nat_str (nat i))"

section \<open>Lemmas\<close>

lemma Split_nonempty [simp]: "Split sep s \<noteq> []"
  by (induction s) (auto split: list.splits)

lemma SplitN2_nonempty [simp]: "SplitN2 sep s \<noteq> []"
  by (induction s) (auto split: list.splits)

lemma Split_no_sep: "sep \<notin> set s \<Longrightarrow> Split sep s = [s]"
  by (induction s) auto

lemma Split_append_sep:
  "sep \<notin> set s \<Longrightarrow> Split sep (s @ sep # t) = s # Split sep t"
  by (induction s) auto

text \<open>\<open>Join\<close> undoes \<open>Split\<close>.\<close>

lemma Join_Cons_head: "Join ((c # w) # ws) sep = c # Join (w # ws) sep"
  by (cases ws) auto

lemma Join_Split: "Join (Split sep s) [sep] = s"
proof (induction s)
  case (Cons c cs)
  then show ?case
    by (cases "Split sep cs") (auto simp: Join_Cons_head)
qed simp

lemma SplitN2_sep: "sep \<notin> set s \<Longrightarrow> SplitN2 sep (s @ sep # t) = [s, t]"
  by (induction s) auto

lemma SplitN2_no_sep: "sep \<notin> set s \<Longrightarrow> SplitN2 sep s = [s]"
  by (induction s) auto

lemma of_char_digit: "n < 10 \<Longrightarrow> of_char (digit n) = 48 + n"
  by (simp add: digit_def)

lemma is_digit_digit: "n < 10 \<Longrightarrow> is_digit (digit n)"
  by (simp add: is_digit_def of_char_digit)

lemma digits_value_append:
  "digits_value (ds @ [c]) = 10 * digits_value ds + (of_char c - 48)"
  by (simp add: digits_value_def)

lemma nat_str_value: "digits_value (nat_str n) = n"
proof (induction n rule: nat_str.induct)
  case (1 n)
  show ?case
  proof (cases "n < 10")
    case True
    then show ?thesis
      by (simp add: nat_str.simps [of n] digits_value_def of_char_digit)
  next
    case False
    with "1" show ?thesis
      by (simp add: nat_str.simps [of n] digits_value_append of_char_digit)
  qed
qed

lemma nat_str_digits: "list_all is_digit (nat_str n)"
proof (induction n rule: nat_str.induct)
  case (1 n)
  then show ?case
    by (cases "n < 10") (auto simp: nat_str.simps [of n] is_digit_digit)
qed

lemma nat_str_nonempty: "nat_str n \<noteq> []"
  by (simp add: nat_str.simps [of n])

lemma digits_val_nat_str: "digits_val (nat_str n) = Some n"
  by (simp add: digits_val_def nat_str_digits nat_str_nonempty nat_str_value)

lemma is_digit_not_sign: "is_digit c \<Longrightarrow> c \<noteq> CHR ''-'' \<and> c \<noteq> CHR ''+''"
  by (auto simp: is_digit_def)

text \<open>\<open>Atoi\<close> reads back what \<open>%d\<close> prints, for every value of Go's \<open>int\<close>.\<close>

lemma Atoi_fmt_d:
  assumes "- (2 ^ 63) \<le> i" and "i < 2 ^ 63"
  shows "Atoi (fmt_d i) = Some i"
proof (cases "i < 0")
  case True
  with assms(1) have "nat (- i) \<le> 2 ^ 63" by simp
  with True show ?thesis
    by (simp add: fmt_d_def Atoi_def digits_val_nat_str)
next
  case False
  then obtain c cs where cs: "nat_str (nat i) = c # cs"
    using nat_str_nonempty [of "nat i"] by (cases "nat_str (nat i)") auto
  with nat_str_digits [of "nat i"] have sign: "c \<noteq> CHR ''-'' \<and> c \<noteq> CHR ''+''"
    by (intro is_digit_not_sign) simp
  have val: "digits_val (c # cs) = Some (nat i)"
    using digits_val_nat_str [of "nat i"] cs by simp
  from False assms(2) have "nat i < 2 ^ 63" by simp
  with False sign val show ?thesis
    by (simp add: fmt_d_def cs Atoi_def)
qed

lemma Atoi_range: "Atoi s = Some i \<Longrightarrow> - (2 ^ 63) \<le> i \<and> i < 2 ^ 63"
  by (auto simp: Atoi_def split: list.splits if_splits option.splits)

text \<open>Trimming stops at text that starts and ends with no white space.\<close>

lemma front_len_0: "(\<And>e. e \<in> set es \<Longrightarrow> \<not> prefix e s) \<Longrightarrow> front_len es s = 0"
  by (auto simp: front_len_def find_Some_iff split: option.splits)

lemma drop_front_id: "front_len es s = 0 \<Longrightarrow> drop_front es s = s"
  by (subst drop_front.simps) simp

definition plain_char :: "char \<Rightarrow> bool" where
  "plain_char c = (32 < (of_char c :: nat) \<and> (of_char c :: nat) < 128)"

lemma plain_front:
  assumes "plain_char c"
  shows "drop_front spaceRunes (c # cs) = c # cs"
    and "drop_front (map rev spaceRunes) (c # cs) = c # cs"
proof -
  have "\<not> prefix e (c # cs)" if "e \<in> set spaceRunes" for e
    using that assms by (auto simp: spaceRunes_def plain_char_def)
  then show "drop_front spaceRunes (c # cs) = c # cs"
    by (intro drop_front_id front_len_0)
  have "\<not> prefix e (c # cs)" if "e \<in> set (map rev spaceRunes)" for e
    using that assms by (auto simp: spaceRunes_def plain_char_def)
  then show "drop_front (map rev spaceRunes) (c # cs) = c # cs"
    by (intro drop_front_id front_len_0)
qed

lemma TrimSpace_plain:
  assumes "s \<noteq> []" and "plain_char (hd s)" and "plain_char (last s)"
  shows "TrimSpace s = s"
proof -
  from assms(1) obtain c cs where s: "s = c # cs" by (cases s) auto
  from assms(1) obtain d ds where r: "rev s = d # ds" by (cases "rev s") auto
  from r have "d = last s" using assms(1) by (metis hd_rev list.sel(1))
  with assms(3) have "plain_char d" by simp
  then have "drop_front (map rev spaceRunes) (rev s) = rev s"
    unfolding r by (rule plain_front(2))
  moreover from assms(2) s have "drop_front spaceRunes s = s"
    using plain_front(1) by simp
  ultimately show ?thesis by (simp add: TrimSpace_def)
qed

lemma is_digit_plain: "is_digit c \<Longrightarrow> plain_char c"
  by (simp add: is_digit_def plain_char_def)

lemma fmt_d_plain:
  "fmt_d i \<noteq> [] \<and> plain_char (hd (fmt_d i)) \<and> plain_char (last (fmt_d i))"
proof -
  have "plain_char (hd (nat_str n)) \<and> plain_char (last (nat_str n))" for n
    using nat_str_digits [of n] nat_str_nonempty [of n]
    by (auto simp: list_all_iff intro!: is_digit_plain)
  then show ?thesis
    by (auto simp: fmt_d_def nat_str_nonempty plain_char_def)
qed

lemma TrimSpace_fmt_d: "TrimSpace (fmt_d i) = fmt_d i"
  using fmt_d_plain [of i] by (intro TrimSpace_plain) auto

lemma fmt_d_no_newline: "CHR ''\<newline>'' \<notin> set (fmt_d i)"
proof -
  have "CHR ''\<newline>'' \<notin> set (nat_str n)" for n
    using nat_str_digits [of n] by (auto simp: list_all_iff is_digit_def)
  then show ?thesis by (auto simp: fmt_d_def)
qed

lemma drop_front_space:
  "drop_front spaceRunes (CHR '' '' # s) = drop_front spaceRunes s"
proof -
  have "front_len spaceRunes (CHR '' '' # s) = 1"
    by (simp add: front_len_def spaceRunes_def)
  then show ?thesis by (subst drop_front.simps) simp
qed

lemma TrimSpace_space: "TrimSpace (CHR '' '' # s) = TrimSpace s"
  by (simp add: TrimSpace_def drop_front_space)

end
