(* ===== verification/Conditions.thy ===== *)
theory Conditions
  imports GoRuntime
begin

text \<open>
  Status conditions. The condition types and messages the operator defines itself are those
  of \<^verbatim>\<open>api/v1beta1/conditions.go\<close>; everything else about conditions (\<^verbatim>\<open>Set\<close>, \<^verbatim>\<open>MarkTrue\<close>,
  \<^verbatim>\<open>Remove\<close>, \<^verbatim>\<open>Mirror\<close>, \<^verbatim>\<open>AllSubConditionIsTrue\<close>, \<dots>) is the third-party package
  \<^verbatim>\<open>lib-common/modules/common/condition\<close>. It is the parameter \<open>condlib\<close> of the model, and
  what the controller relies on is the hypothesis \<open>condition_laws\<close>. Times
  (\<^verbatim>\<open>LastTransitionTime\<close>) are left out of the model.
\<close>

section \<open>Condition types and messages\<close>

datatype ctype =
    ReadyCondition | DBReadyCondition | DBSyncReadyCondition | CreateServiceReadyCondition
  | RabbitMqTransportURLReadyCondition | MemcachedReadyCondition | InputReadyCondition
  | ServiceConfigReadyCondition | DeploymentReadyCondition | KeystoneServiceReadyCondition
  | KeystoneEndpointReadyCondition | NetworkAttachmentsReadyCondition
  | ServiceAccountReadyCondition | RoleReadyCondition | RoleBindingReadyCondition
  | NotificationBusInstanceReadyCondition | TopologyReadyCondition | TLSInputReadyCondition
  | MariaDBAccountReadyCondition
  | NeutronExternalConfigsReady | NeutronRPCReadyCondition | NeutronWorkerReadyCondition
  | OtherCondition string

datatype cstatus = CondTrue | CondFalse | CondUnknown

datatype reason = InitReason | RequestedReason | ErrorReason | OtherReason string

datatype severity = SeverityNone | SeverityInfo | SeverityWarning | SeverityError

text \<open>
  A message is text of this repository, or a constant of a library whose text is not part of
  it, referred to by the constant's name.
\<close>

datatype message = Text string | LibMsg string

record Condition =
  CondType :: ctype
  CondStatus :: cstatus
  CondReason :: reason
  CondSeverity :: severity
  CondMessage :: string

definition NeutronExternalConfigsInitMessage :: message where
  "NeutronExternalConfigsInitMessage = Text ''Neutron external configs generation is not started''"

definition NeutronExternalConfigsErrorMessage :: "string \<Rightarrow> message" where
  "NeutronExternalConfigsErrorMessage s =
     Text (''Neutron external configs generation error occurred '' @ s)"

definition NeutronRPCReadyMessage :: message where
  "NeutronRPCReadyMessage = Text ''NeutronRPC ready''"

definition NeutronRPCDisabledMessage :: message where
  "NeutronRPCDisabledMessage =
     Text ''NeutronRPC disabled by rpc_workers=0 in customServiceConfig''"

definition NeutronRPCReadyRunningMessage :: message where
  "NeutronRPCReadyRunningMessage = Text ''NeutronRPC deployment in progress''"

definition NeutronRPCReadyErrorMessage :: message where
  "NeutronRPCReadyErrorMessage = Text ''NeutronRPC error occurred %s''"

definition NeutronWorkerReadyMessage :: message where
  "NeutronWorkerReadyMessage = Text ''NeutronWorker ready''"

definition NeutronWorkerReadyRunningMessage :: message where
  "NeutronWorkerReadyRunningMessage = Text ''NeutronWorker deployment in progress''"

definition NeutronWorkerReadyErrorMessage :: message where
  "NeutronWorkerReadyErrorMessage = Text ''NeutronWorker error occurred %s''"

section \<open>The condition package as a parameter\<close>

record condlib =
  CSet :: "Condition list \<Rightarrow> Condition \<Rightarrow> Condition list"
  CSetOnCopy :: "Condition list \<Rightarrow> Condition \<Rightarrow> Condition list"
    \<comment> \<open>what the caller's slice shows after \<^verbatim>\<open>Set\<close> ran on a copy of its header (a value
        receiver): elements are shared, the length is the caller's\<close>
  CMarkTrue :: "Condition list \<Rightarrow> ctype \<Rightarrow> message \<Rightarrow> Condition list"
  CRemove :: "Condition list \<Rightarrow> ctype \<Rightarrow> Condition list"
  CInit :: "Condition list \<Rightarrow> Condition list \<Rightarrow> Condition list"
  CreateList :: "Condition list \<Rightarrow> Condition list"
  FalseCondition :: "ctype \<Rightarrow> reason \<Rightarrow> severity \<Rightarrow> message \<Rightarrow> arg list \<Rightarrow> Condition"
  UnknownCondition :: "ctype \<Rightarrow> reason \<Rightarrow> message \<Rightarrow> Condition"
  CIsTrue :: "Condition list \<Rightarrow> ctype \<Rightarrow> bool"
  CIsUnknown :: "Condition list \<Rightarrow> ctype \<Rightarrow> bool"
  CMirror :: "Condition list \<Rightarrow> ctype \<Rightarrow> Condition option"
  AllSubConditionIsTrue :: "Condition list \<Rightarrow> bool"
  CredentialRotationGuardReady :: "bool \<Rightarrow> Condition list \<Rightarrow> bool"
  RestoreLastTransitionTimes :: "Condition list \<Rightarrow> Condition list \<Rightarrow> Condition list"

text \<open>The condition of a type in a list, as a reader of the status sees it.\<close>

definition get_cond :: "Condition list \<Rightarrow> ctype \<Rightarrow> Condition option" where
  "get_cond cs t = List.find (\<lambda>c. CondType c = t) cs"

definition status_of :: "Condition list \<Rightarrow> ctype \<Rightarrow> cstatus option" where
  "status_of cs t = map_option CondStatus (get_cond cs t)"

text \<open>
  What the controller relies on. \<open>Set\<close> stores the condition under its type and leaves the
  others; \<open>MarkTrue\<close> sets status True; \<open>Remove\<close> drops the type; \<open>Init\<close> resets every
  condition of the given list; a condition that \<open>Set\<close> replaces in place is replaced for
  every holder of the slice; \<open>Mirror\<close> reflects a False or Unknown condition before a True one;
  the rotation guard implies that every sub-condition present is
  True (a condition that is absent is ignored, and the Ready condition is not a
  sub-condition).
\<close>

definition condition_laws :: "condlib \<Rightarrow> bool" where
  "condition_laws C \<longleftrightarrow>
     (\<forall>cs c t. get_cond (CSet C cs c) t = (if t = CondType c then Some c else get_cond cs t)) \<and>
     (\<forall>cs c t. get_cond cs (CondType c) \<noteq> None \<longrightarrow>
        get_cond (CSetOnCopy C cs c) t = (if t = CondType c then Some c else get_cond cs t)) \<and>
     (\<forall>cs t m t'. status_of (CMarkTrue C cs t m) t' =
        (if t' = t then Some CondTrue else status_of cs t')) \<and>
     (\<forall>cs t t'. get_cond (CRemove C cs t) t' = (if t' = t then None else get_cond cs t')) \<and>
     (\<forall>cs cl t c. distinct (map CondType cl) \<longrightarrow> get_cond cl t = Some c \<longrightarrow>
        get_cond (CInit C cs cl) t = Some c) \<and>
     (\<forall>cs t. get_cond (CreateList C cs) t = get_cond cs t) \<and>
     (\<forall>cs. distinct (map CondType cs) \<longrightarrow> distinct (map CondType (CreateList C cs))) \<and>
     (\<forall>t r v m a. CondType (FalseCondition C t r v m a) = t \<and>
        CondStatus (FalseCondition C t r v m a) = CondFalse) \<and>
     (\<forall>t r m. CondType (UnknownCondition C t r m) = t \<and>
        CondStatus (UnknownCondition C t r m) = CondUnknown) \<and>
     (\<forall>cs t. CIsTrue C cs t = (status_of cs t = Some CondTrue)) \<and>
     (\<forall>cs t. CIsUnknown C cs t = (status_of cs t \<noteq> Some CondTrue \<and> status_of cs t \<noteq> Some CondFalse)) \<and>
     (\<forall>cs t c. CMirror C cs t = Some c \<longrightarrow> CondType c = t) \<and>
     (\<forall>cs t c t'. CMirror C cs t = Some c \<longrightarrow> CondStatus c = CondTrue \<longrightarrow> t' \<noteq> ReadyCondition \<longrightarrow>
        status_of cs t' \<noteq> None \<longrightarrow> status_of cs t' = Some CondTrue) \<and>
     (\<forall>cs. AllSubConditionIsTrue C cs \<longrightarrow>
        (\<forall>t. t \<noteq> ReadyCondition \<longrightarrow> status_of cs t \<noteq> None \<longrightarrow> status_of cs t = Some CondTrue)) \<and>
     (\<forall>b cs. CredentialRotationGuardReady C b cs \<longrightarrow> AllSubConditionIsTrue C cs) \<and>
     (\<forall>cs old t. status_of (RestoreLastTransitionTimes C cs old) t = status_of cs t)"

section \<open>The laws in the form the component proofs use\<close>

lemma status_of_Set:
  "condition_laws C \<Longrightarrow>
   status_of (CSet C cs c) t = (if t = CondType c then Some (CondStatus c) else status_of cs t)"
  by (simp add: condition_laws_def status_of_def)

lemma status_of_SetOnCopy:
  "condition_laws C \<Longrightarrow> status_of cs (CondType c) \<noteq> None \<Longrightarrow>
   status_of (CSetOnCopy C cs c) t =
     (if t = CondType c then Some (CondStatus c) else status_of cs t)"
  by (simp add: condition_laws_def status_of_def)

lemma status_of_MarkTrue:
  "condition_laws C \<Longrightarrow>
   status_of (CMarkTrue C cs t m) t' = (if t' = t then Some CondTrue else status_of cs t')"
  by (simp add: condition_laws_def)

lemma status_of_Remove:
  "condition_laws C \<Longrightarrow>
   status_of (CRemove C cs t) t' = (if t' = t then None else status_of cs t')"
  by (simp add: condition_laws_def status_of_def)

lemma status_of_Init:
  assumes "condition_laws C" and "distinct (map CondType cl)" and "status_of cl t = Some v"
  shows "status_of (CInit C cs cl) t = Some v"
proof -
  from assms(3) obtain c where "get_cond cl t = Some c" and v: "v = CondStatus c"
    by (auto simp: status_of_def)
  with assms(1,2) have "get_cond (CInit C cs cl) t = Some c"
    by (simp add: condition_laws_def)
  with v show ?thesis by (simp add: status_of_def)
qed

lemma status_of_CreateList:
  "condition_laws C \<Longrightarrow> status_of (CreateList C cs) t = status_of cs t"
  by (simp add: condition_laws_def status_of_def)

lemma distinct_CreateList:
  "condition_laws C \<Longrightarrow> distinct (map CondType cs) \<Longrightarrow> distinct (map CondType (CreateList C cs))"
  by (simp add: condition_laws_def)

lemma FalseCondition_type: "condition_laws C \<Longrightarrow> CondType (FalseCondition C t r v m a) = t"
  by (simp add: condition_laws_def)

lemma FalseCondition_status:
  "condition_laws C \<Longrightarrow> CondStatus (FalseCondition C t r v m a) = CondFalse"
  by (simp add: condition_laws_def)

lemma UnknownCondition_type: "condition_laws C \<Longrightarrow> CondType (UnknownCondition C t r m) = t"
  by (simp add: condition_laws_def)

lemma UnknownCondition_status:
  "condition_laws C \<Longrightarrow> CondStatus (UnknownCondition C t r m) = CondUnknown"
  by (simp add: condition_laws_def)

lemma IsTrue_status: "condition_laws C \<Longrightarrow> CIsTrue C cs t = (status_of cs t = Some CondTrue)"
  by (simp add: condition_laws_def)

lemma IsUnknown_status:
  "condition_laws C \<Longrightarrow>
   CIsUnknown C cs t = (status_of cs t \<noteq> Some CondTrue \<and> status_of cs t \<noteq> Some CondFalse)"
  by (simp add: condition_laws_def)

lemma Mirror_type: "condition_laws C \<Longrightarrow> CMirror C cs t = Some c \<Longrightarrow> CondType c = t"
  by (simp add: condition_laws_def)

lemma Mirror_true:
  "condition_laws C \<Longrightarrow> CMirror C cs t = Some c \<Longrightarrow> CondStatus c = CondTrue \<Longrightarrow>
   t' \<noteq> ReadyCondition \<Longrightarrow> status_of cs t' \<noteq> None \<Longrightarrow> status_of cs t' = Some CondTrue"
  unfolding condition_laws_def by metis

lemma AllSub_status:
  "condition_laws C \<Longrightarrow> AllSubConditionIsTrue C cs \<Longrightarrow> t \<noteq> ReadyCondition \<Longrightarrow>
   status_of cs t \<noteq> None \<Longrightarrow> status_of cs t = Some CondTrue"
  unfolding condition_laws_def by metis

lemma Guard_AllSub:
  "condition_laws C \<Longrightarrow> CredentialRotationGuardReady C b cs \<Longrightarrow> AllSubConditionIsTrue C cs"
  unfolding condition_laws_def by metis

lemma Restore_status:
  "condition_laws C \<Longrightarrow> status_of (RestoreLastTransitionTimes C cs old) t = status_of cs t"
  by (simp add: condition_laws_def)

lemmas condition_simps = status_of_Set status_of_MarkTrue status_of_Remove
  status_of_CreateList FalseCondition_type FalseCondition_status UnknownCondition_type
  UnknownCondition_status IsTrue_status IsUnknown_status Restore_status

section \<open>A concrete condition package\<close>

text \<open>
  The parameter instantiated: conditions kept in a list, one per type. It is used where a
  concrete run of the controller is evaluated, and shows that the laws can hold.
\<close>

fun list_set :: "Condition list \<Rightarrow> Condition \<Rightarrow> Condition list" where
  "list_set [] c = [c]"
| "list_set (d # ds) c = (if CondType d = CondType c then c # ds else d # list_set ds c)"

definition list_true :: "ctype \<Rightarrow> message \<Rightarrow> Condition" where
  "list_true t m = \<lparr>CondType = t, CondStatus = CondTrue, CondReason = OtherReason ''Ready'',
     CondSeverity = SeverityNone, CondMessage = (case m of Text s \<Rightarrow> s | LibMsg s \<Rightarrow> s)\<rparr>"

definition list_all_sub :: "Condition list \<Rightarrow> bool" where
  "list_all_sub cs \<longleftrightarrow>
     list_all (\<lambda>c. CondType c = ReadyCondition \<or> status_of cs (CondType c) = Some CondTrue) cs"

definition list_conditions :: condlib where
  "list_conditions = \<lparr>
     CSet = list_set,
     CSetOnCopy = (\<lambda>cs c. take (length cs) (list_set cs c)),
     CMarkTrue = (\<lambda>cs t m. list_set cs (list_true t m)),
     CRemove = (\<lambda>cs t. filter (\<lambda>c. CondType c \<noteq> t) cs),
     CInit = (\<lambda>cs cl. foldl list_set cs cl),
     CreateList = (\<lambda>cs. cs),
     FalseCondition = (\<lambda>t r v m a. \<lparr>CondType = t, CondStatus = CondFalse, CondReason = r,
        CondSeverity = v, CondMessage = (case m of Text s \<Rightarrow> s | LibMsg s \<Rightarrow> s)\<rparr>),
     UnknownCondition = (\<lambda>t r m. \<lparr>CondType = t, CondStatus = CondUnknown, CondReason = r,
        CondSeverity = SeverityNone, CondMessage = (case m of Text s \<Rightarrow> s | LibMsg s \<Rightarrow> s)\<rparr>),
     CIsTrue = (\<lambda>cs t. status_of cs t = Some CondTrue),
     CIsUnknown = (\<lambda>cs t. status_of cs t \<noteq> Some CondTrue \<and> status_of cs t \<noteq> Some CondFalse),
     CMirror = (\<lambda>cs t. case List.find (\<lambda>c. CondStatus c \<noteq> CondTrue) cs of
        Some c \<Rightarrow> Some (c\<lparr>CondType := t\<rparr>)
      | None \<Rightarrow> map_option (\<lambda>c. c\<lparr>CondType := t\<rparr>) (List.find (\<lambda>_. True) cs)),
     AllSubConditionIsTrue = list_all_sub,
     CredentialRotationGuardReady = (\<lambda>b cs. b \<and> list_all_sub cs),
     RestoreLastTransitionTimes = (\<lambda>cs old. cs)\<rparr>"

lemma get_cond_list_set:
  "get_cond (list_set cs c) t = (if t = CondType c then Some c else get_cond cs t)"
  by (induction cs) (auto simp: get_cond_def)

lemma list_set_present: "get_cond cs (CondType c) \<noteq> None \<Longrightarrow> length (list_set cs c) = length cs"
  by (induction cs) (auto simp: get_cond_def split: if_splits)

lemma get_cond_remove:
  "get_cond (filter (\<lambda>c. CondType c \<noteq> t) cs) t' = (if t' = t then None else get_cond cs t')"
  by (induction cs) (auto simp: get_cond_def)

lemma get_cond_foldl:
  "distinct (map CondType cl) \<Longrightarrow>
   get_cond (foldl list_set cs cl) t =
     (case get_cond cl t of Some c \<Rightarrow> Some c | None \<Rightarrow> get_cond cs t)"
proof (induction cl arbitrary: cs)
  case (Cons x xs)
  have "get_cond xs (CondType x) = None"
    using Cons.prems by (auto simp: get_cond_def find_None_iff) (metis image_eqI)
  moreover have "get_cond (x # xs) t = (if CondType x = t then Some x else get_cond xs t)"
    by (simp add: get_cond_def)
  ultimately show ?case
    using Cons by (auto simp: get_cond_list_set split: option.splits)
qed (simp add: get_cond_def)

lemma list_all_sub_status:
  assumes "list_all_sub cs" and "t \<noteq> ReadyCondition" and "status_of cs t \<noteq> None"
  shows "status_of cs t = Some CondTrue"
proof -
  from assms(3) obtain c where "get_cond cs t = Some c"
    by (auto simp: status_of_def)
  then have "c \<in> set cs" and "CondType c = t"
    by (auto simp: get_cond_def find_Some_iff)
  with assms(1,2) show ?thesis
    by (auto simp: list_all_sub_def list_all_iff)
qed

lemma list_conditions_laws: "condition_laws list_conditions"
  unfolding condition_laws_def
proof (intro conjI allI impI)
  fix cs t and c :: Condition assume "get_cond cs (CondType c) \<noteq> None"
  then show "get_cond (CSetOnCopy list_conditions cs c) t =
      (if t = CondType c then Some c else get_cond cs t)"
    by (simp add: list_conditions_def list_set_present [symmetric] get_cond_list_set)
next
  fix cs t c t' assume m: "CMirror list_conditions cs t = Some c" and c: "CondStatus c = CondTrue"
    and p: "status_of cs t' \<noteq> None"
  have "List.find (\<lambda>c. CondStatus c \<noteq> CondTrue) cs = None"
  proof (rule ccontr)
    assume "List.find (\<lambda>c. CondStatus c \<noteq> CondTrue) cs \<noteq> None"
    then obtain d where d: "List.find (\<lambda>c. CondStatus c \<noteq> CondTrue) cs = Some d" by auto
    with m have "c = d\<lparr>CondType := t\<rparr>" by (simp add: list_conditions_def)
    with c d show False by (auto simp: find_Some_iff)
  qed
  then have "\<forall>d \<in> set cs. CondStatus d = CondTrue" by (auto simp: find_None_iff)
  moreover from p obtain d where "get_cond cs t' = Some d" by (auto simp: status_of_def)
  moreover from this have "d \<in> set cs" by (auto simp: get_cond_def find_Some_iff)
  ultimately show "status_of cs t' = Some CondTrue" by (simp add: status_of_def)
qed (auto simp: list_conditions_def get_cond_list_set status_of_def list_true_def
    get_cond_remove get_cond_foldl list_all_sub_status [unfolded status_of_def]
    split: option.splits)

end
