(* ===== verification/ApiTypes.thy ===== *)
theory ApiTypes
  imports Conditions
begin

text \<open>
  The custom resource NeutronAPI (\<^verbatim>\<open>api/v1beta1/neutronapi_types.go\<close>): its spec, its
  status and its methods. Library structs that the spec embeds are records with the fields
  this repository reads or sets; a value the code only passes on is an \<open>opaque\<close> token. A Go
  pointer that may be nil is an \<open>option\<close>, a map with lookups is a partial function, and a map
  the code ranges over is an association list in the iteration order of that run.
\<close>

type_synonym opaque = nat

section \<open>Library structs used by the spec\<close>

record RabbitMqConfig =
  Cluster :: string
  User :: string
  Vhost :: string

record TopoRef =
  TopoName :: string
  TopoNamespace :: string

record GenericService =
  SecretName :: "string option"

record APIService =
  Internal :: GenericService
  Public :: GenericService

record OverrideSpec =
  EmbeddedLabelsAnnotations :: "opaque option"
  OverrideRest :: opaque

record RoutedOverrideSpec =
  Override_Spec :: OverrideSpec
  EndpointURL :: "string option"

record VolumeMount =
  MountName :: string
  MountPath :: string
  SubPath :: string
  ReadOnly :: bool

record StorageVolume =
  StorageName :: string
  StorageSource :: opaque

record VolMounts =
  PropagationTypes :: "string list"
  Volumes :: "StorageVolume list"
  Mounts :: "VolumeMount list"

type_synonym endpoint = string

definition EndpointPublic :: endpoint where "EndpointPublic = ''public''"
definition EndpointInternal :: endpoint where "EndpointInternal = ''internal''"

section \<open>The custom resource\<close>

record NeutronApiTLS =
  TLS_API :: APIService
  CaBundleSecretName :: string
  Ovn :: GenericService

record NeutronExtraVolMounts =
  ExtraName :: string
  ExtraRegion :: string
  ExtraVolMounts :: "VolMounts list"

record NeutronAPISpecCore =
  APITimeout :: int
  ServiceUser :: string
  DatabaseInstance :: string
  DatabaseAccount :: string
  RabbitMqClusterName :: string
  MessagingBus :: RabbitMqConfig
  NotificationsBus :: "RabbitMqConfig option"
  MemcachedInstance :: string
  Replicas :: "int option"
  Secret :: string
  PasswordSelectorsService :: string
  NodeSelector :: "(string \<rightharpoonup> string) option"
  PreserveJobs :: bool
  CorePlugin :: string
  Ml2MechanismDrivers :: "string list"
  CustomServiceConfig :: string
  DefaultConfigOverwrite :: "(string \<times> string) list"
  Resources :: opaque
  NetworkAttachments :: "string list"
  ExtraMounts :: "NeutronExtraVolMounts list"
  OverrideService :: "endpoint \<rightharpoonup> RoutedOverrideSpec"
  TLS :: NeutronApiTLS
  AuthApplicationCredentialSecret :: string
  TopologyRef :: "TopoRef option"
  NotificationsBusInstance :: "string option"

record NeutronAPISpec = NeutronAPISpecCore +
  ContainerImage :: string

record NeutronAPIStatus =
  ReadyCount :: int
  Hash :: "(string \<rightharpoonup> string) option"
  StatusConditions :: "Condition list option"
  DatabaseHostname :: string
  TransportURLSecret :: string
  StatusNetworkAttachments :: "(string \<rightharpoonup> string list) option"
  ApplicationCredentialSecret :: string
  ObservedGeneration :: int
  LastAppliedTopology :: "TopoRef option"
  NotificationsTransportURLSecret :: "string option"
  RPCReadyCount :: int
  WorkerReadyCount :: int

record NeutronAPI =
  Name :: string
  Namespace :: string
  Kind :: string
  Annotations :: "string \<rightharpoonup> string"
  Finalizers :: "string list"
  Generation :: int
  DeletionTimestamp :: "opaque option"
  Spec :: NeutronAPISpec
  Status :: NeutronAPIStatus

section \<open>Methods of the resource\<close>

definition DbSyncHash :: string where "DbSyncHash = ''dbsync''"

definition NeutronWSGILabel :: string where
  "NeutronWSGILabel = ''neutron.openstack.org/wsgi''"

definition NeutronAPIContainerImage :: string where
  "NeutronAPIContainerImage =
     ''quay.io/openstack-s2i-containers/openstack-neutron-server:master-latest''"

text \<open>The conditions of the status; a nil slice reads as empty.\<close>

definition conds :: "NeutronAPIStatus \<Rightarrow> Condition list" where
  "conds st = (case StatusConditions st of None \<Rightarrow> [] | Some cs \<Rightarrow> cs)"

definition IsReady :: "condlib \<Rightarrow> NeutronAPI \<Rightarrow> bool" where
  "IsReady C i = CIsTrue C (conds (Status i)) ReadyCondition"

text \<open>
  \<^verbatim>\<open>Propagate\<close>; \<open>vmPropagate\<close> stands for the method of the storage library's \<^verbatim>\<open>VolMounts\<close>.
\<close>

definition Propagate ::
  "(VolMounts \<Rightarrow> string list \<Rightarrow> VolMounts list) \<Rightarrow> NeutronExtraVolMounts \<Rightarrow> string list
     \<Rightarrow> VolMounts list" where
  "Propagate vmPropagate c svc = concat (map (\<lambda>gv. vmPropagate gv svc) (ExtraVolMounts c))"

text \<open>
  \<^verbatim>\<open>RbacConditionsSet\<close> has a value receiver, so \<^verbatim>\<open>Set\<close> works on a copy of the slice header.
\<close>

definition RbacConditionsSet :: "condlib \<Rightarrow> NeutronAPI \<Rightarrow> Condition \<Rightarrow> NeutronAPI" where
  "RbacConditionsSet C i c =
     i\<lparr>Status := (Status i)\<lparr>StatusConditions :=
        map_option (\<lambda>cs. CSetOnCopy C cs c) (StatusConditions (Status i))\<rparr>\<rparr>"

definition RbacNamespace :: "NeutronAPI \<Rightarrow> string" where
  "RbacNamespace i = Namespace i"

definition RbacResourceName :: "NeutronAPI \<Rightarrow> string" where
  "RbacResourceName i = ''neutron-'' @ Name i"

definition IsWSGI :: "NeutronAPI \<Rightarrow> bool" where
  "IsWSGI i = (case Annotations i NeutronWSGILabel of Some v \<Rightarrow> v = ''true'' | None \<Rightarrow> True)"

fun has_ovn :: "string list \<Rightarrow> bool" where
  "has_ovn [] = False"
| "has_ovn (driver # ds) = (if driver = ''ovn'' then True else has_ovn ds)"

definition IsOVNEnabled :: "NeutronAPI \<Rightarrow> bool" where
  "IsOVNEnabled i = has_ovn (Ml2MechanismDrivers (Spec i))"

lemma IsOVNEnabled_iff: "IsOVNEnabled i \<longleftrightarrow> ''ovn'' \<in> set (Ml2MechanismDrivers (Spec i))"
proof -
  have "has_ovn ds = (''ovn'' \<in> set ds)" for ds by (induction ds) auto
  then show ?thesis by (simp add: IsOVNEnabled_def)
qed

section \<open>GetRPCWorkers\<close>

fun rpc_scan :: "string \<Rightarrow> string list \<Rightarrow> int" where
  "rpc_scan sec [] = -1"
| "rpc_scan sec (line # lines) =
     (let trimmed = TrimSpace line in
      if trimmed = [] \<or> HasPrefix trimmed ''#'' then rpc_scan sec lines
      else if HasPrefix trimmed ''['' \<and> HasSuffix trimmed '']''
      then rpc_scan (TrimSpace (butlast (tl trimmed))) lines
      else if sec \<noteq> ''DEFAULT'' then rpc_scan sec lines
      else (let tokenLine = SplitN2 (CHR ''='') trimmed;
                token = RemoveAll (CHR '' '') (hd tokenLine)
            in if token = ''rpc_workers'' \<and> length tokenLine = 2
               then (case Atoi (TrimSpace (tokenLine ! 1)) of
                       Some val \<Rightarrow> val
                     | None \<Rightarrow> rpc_scan sec lines)
               else rpc_scan sec lines))"

definition GetRPCWorkers :: "string \<Rightarrow> int" where
  "GetRPCWorkers customServiceConfig =
     rpc_scan ''DEFAULT'' (Split (CHR ''\<newline>'') customServiceConfig)"

text \<open>
  The reference reading of a configuration: every assignment of the file with the section it
  stands in, in file order. \<open>rpc_scan\<close> looks for the first valid \<^verbatim>\<open>rpc_workers\<close> value of the
  sec DEFAULT without building this list.
\<close>

fun settings :: "string \<Rightarrow> string list \<Rightarrow> (string \<times> string \<times> string) list" where
  "settings sec [] = []"
| "settings sec (line # lines) =
     (let t = TrimSpace line in
      if t = [] \<or> HasPrefix t ''#'' then settings sec lines
      else if HasPrefix t ''['' \<and> HasSuffix t '']''
      then settings (TrimSpace (butlast (tl t))) lines
      else (case SplitN2 (CHR ''='') t of
              [k, v] \<Rightarrow> (sec, RemoveAll (CHR '' '') k, TrimSpace v) # settings sec lines
            | _ \<Rightarrow> settings sec lines))"

definition rpc_values :: "string \<Rightarrow> int list" where
  "rpc_values cfg = List.map_filter
     (\<lambda>(s, k, v). if s = ''DEFAULT'' \<and> k = ''rpc_workers'' then Atoi v else None)
     (settings ''DEFAULT'' (Split (CHR ''\<newline>'') cfg))"

definition first_or :: "int \<Rightarrow> int list \<Rightarrow> int" where
  "first_or d vs = (case vs of [] \<Rightarrow> d | v # _ \<Rightarrow> v)"

lemma rpc_scan_settings:
  "rpc_scan sec lines = first_or (-1) (List.map_filter
     (\<lambda>(s, k, v). if s = ''DEFAULT'' \<and> k = ''rpc_workers'' then Atoi v else None)
     (settings sec lines))"
proof (induction lines arbitrary: sec)
  case Nil
  then show ?case by (simp add: first_or_def map_filter_simps)
next
  case (Cons line lines)
  show ?case
  proof (cases "SplitN2 (CHR ''='') (TrimSpace line)" rule: remdups_adj.cases)
    case 1
    then show ?thesis by simp
  next
    case (2 x)
    then show ?thesis using Cons by (simp add: Let_def map_filter_simps)
  next
    case (3 x y xs)
    then show ?thesis
      using Cons
      by (cases xs) (auto simp: Let_def map_filter_simps first_or_def split: option.splits)
  qed
qed

text \<open>
  C21. \<^verbatim>\<open>GetRPCWorkers\<close> returns the first value of the configuration that is assigned to
  \<^verbatim>\<open>rpc_workers\<close> in the section DEFAULT (which is also the section of the lines before any
  header) and parses as an integer, and -1 when there is none.
\<close>

theorem GetRPCWorkers_first_setting: "GetRPCWorkers cfg = first_or (-1) (rpc_values cfg)"
  unfolding GetRPCWorkers_def rpc_values_def by (rule rpc_scan_settings)

text \<open>
  C22. Whatever follows in the file, a first line \<^verbatim>\<open>rpc_workers = n\<close> under the header
  \<^verbatim>\<open>[DEFAULT]\<close> is read back as \<open>n\<close>, for every \<open>n\<close> of Go's 64-bit \<^verbatim>\<open>int\<close>.
\<close>

theorem GetRPCWorkers_roundtrip:
  assumes "- (2 ^ 63) \<le> n" and "n < 2 ^ 63"
  shows "GetRPCWorkers (''[DEFAULT]'' @ CHR ''\<newline>'' # (''rpc_workers = '' @ fmt_d n) @
           CHR ''\<newline>'' # rest) = n"
proof -
  let ?l = "''rpc_workers = '' @ fmt_d n"
  have split: "Split (CHR ''\<newline>'') (''[DEFAULT]'' @ CHR ''\<newline>'' # ?l @ CHR ''\<newline>'' # rest)
      = ''[DEFAULT]'' # ?l # Split (CHR ''\<newline>'') rest"
    using fmt_d_no_newline [of n]
    by (subst Split_append_sep, simp, subst Split_append_sep) simp_all
  have hdr: "TrimSpace ''[DEFAULT]'' = ''[DEFAULT]''" "TrimSpace ''DEFAULT'' = ''DEFAULT''"
    by (rule TrimSpace_plain; simp add: plain_char_def)+
  have line: "TrimSpace ?l = ?l"
    using fmt_d_plain [of n] by (intro TrimSpace_plain) (auto simp: plain_char_def)
  have "SplitN2 (CHR ''='') ?l = [''rpc_workers '', CHR '' '' # fmt_d n]"
    using SplitN2_sep [of "CHR ''=''" "''rpc_workers ''" "CHR '' '' # fmt_d n"] by simp
  moreover have "\<not> HasPrefix ?l ''[''" and "\<not> HasPrefix ?l ''#''"
    by (simp_all add: HasPrefix_def)
  ultimately have "rpc_scan ''DEFAULT'' (?l # ls) = n" for ls
    using assms by (simp add: line RemoveAll_def Let_def TrimSpace_space TrimSpace_fmt_d
        Atoi_fmt_d del: append.simps)
  moreover have "rpc_scan ''DEFAULT'' (''[DEFAULT]'' # ls) = rpc_scan ''DEFAULT'' ls" for ls
    by (simp add: hdr HasPrefix_def HasSuffix_def Let_def)
  ultimately show ?thesis unfolding GetRPCWorkers_def split by simp
qed

theorem GetRPCWorkers_roundtrip_witness:
  "GetRPCWorkers (''[DEFAULT]'' @ CHR ''\<newline>'' # (''rpc_workers = '' @ fmt_d 0) @
     CHR ''\<newline>'' # ''[ovn]'') = 0"
  by (rule GetRPCWorkers_roundtrip) simp_all

text \<open>
  What is left of a file when every line but the headers is dropped from the sections other than
  DEFAULT, wherever they begin and end.
\<close>

definition is_header :: "string \<Rightarrow> bool" where
  "is_header line \<longleftrightarrow> HasPrefix (TrimSpace line) ''['' \<and> HasSuffix (TrimSpace line) '']''"

fun default_part :: "string \<Rightarrow> string list \<Rightarrow> string list" where
  "default_part sec [] = []"
| "default_part sec (line # lines) =
     (if is_header line then line # default_part (TrimSpace (butlast (tl (TrimSpace line)))) lines
      else if sec = ''DEFAULT'' then line # default_part sec lines
      else default_part sec lines)"

lemma header_no_comment: "is_header line \<Longrightarrow> TrimSpace line \<noteq> [] \<and> \<not> HasPrefix (TrimSpace line) ''#''"
  by (cases "TrimSpace line") (auto simp: is_header_def HasPrefix_def)

lemma rpc_scan_default_part: "rpc_scan sec (default_part sec lines) = rpc_scan sec lines"
proof (induction lines arbitrary: sec)
  case (Cons line lines)
  show ?case
  proof (cases "is_header line")
    case True
    with Cons header_no_comment [OF True] show ?thesis by (simp add: Let_def is_header_def)
  next
    case False
    with Cons show ?thesis by (auto simp: Let_def is_header_def split: option.split)
  qed
qed simp

text \<open>
  C23. Settings of other sections are never taken for the worker count: two files that differ only
  in lines of sections other than DEFAULT, however many such sections there are and wherever they
  stand in the file, give the same count.
\<close>

theorem GetRPCWorkers_other_section:
  assumes "default_part ''DEFAULT'' (Split (CHR ''\<newline>'') cfg) =
    default_part ''DEFAULT'' (Split (CHR ''\<newline>'') cfg')"
  shows "GetRPCWorkers cfg = GetRPCWorkers cfg'"
  using assms unfolding GetRPCWorkers_def by (metis rpc_scan_default_part)

theorem GetRPCWorkers_other_section_witness:
  "GetRPCWorkers (''x=1'' @ CHR ''\<newline>'' # ''[ovn]'' @ CHR ''\<newline>'' # ''rpc_workers=0'') =
   GetRPCWorkers (''x=1'' @ CHR ''\<newline>'' # ''[ovn]'' @ CHR ''\<newline>'' # ''rpc_workers=7'')"
proof (rule GetRPCWorkers_other_section)
  have t: "TrimSpace ''[ovn]'' = ''[ovn]''" "TrimSpace ''ovn'' = ''ovn''" "TrimSpace ''x=1'' = ''x=1''"
    "TrimSpace ''rpc_workers=0'' = ''rpc_workers=0''" "TrimSpace ''rpc_workers=7'' = ''rpc_workers=7''"
    by (rule TrimSpace_plain; simp add: plain_char_def)+
  have "Split (CHR ''\<newline>'') (''x=1'' @ CHR ''\<newline>'' # ''[ovn]'' @ CHR ''\<newline>'' # v) =
      ''x=1'' # ''[ovn]'' # Split (CHR ''\<newline>'') v" for v
    by (subst Split_append_sep, simp, subst Split_append_sep) simp_all
  then show "default_part ''DEFAULT''
      (Split (CHR ''\<newline>'') (''x=1'' @ CHR ''\<newline>'' # ''[ovn]'' @ CHR ''\<newline>'' # ''rpc_workers=0'')) =
    default_part ''DEFAULT''
      (Split (CHR ''\<newline>'') (''x=1'' @ CHR ''\<newline>'' # ''[ovn]'' @ CHR ''\<newline>'' # ''rpc_workers=7''))"
    by (simp add: is_header_def t HasPrefix_def HasSuffix_def)
qed

end
