(* ===== verification/Volumes.thy ===== *)
theory Volumes
  imports ApiTypes
begin

text \<open>
  Pod building blocks: the Kubernetes structs the operator fills in, the library functions it
  calls for them (the parameter \<open>podlib\<close>), the constants of \<^verbatim>\<open>internal/neutronapi/const.go\<close>
  and the volumes and mounts of \<^verbatim>\<open>internal/neutronapi/volumes.go\<close>.
\<close>

section \<open>Kubernetes structs\<close>

datatype volume_source = SecretSource int string | CoreSource opaque

record Volume =
  VolName :: string
  VolSource :: volume_source

record EnvVar =
  EnvName :: string
  EnvValue :: string

type_synonym setter = "EnvVar \<Rightarrow> EnvVar"
type_synonym envvars = "(string \<times> setter) list" \<comment> \<open>a map, ranged over by the library\<close>

record Probe =
  TimeoutSeconds :: int
  PeriodSeconds :: int
  InitialDelaySeconds :: int
  ProbePath :: string
  ProbePort :: int
  ProbeScheme :: string

record Container =
  CtrName :: string
  Command :: "string list"
  Args :: "string list"
  Image :: string
  CtrSecurityContext :: opaque
  Env :: "EnvVar list"
  CtrMounts :: "VolumeMount list"
  CtrResources :: "opaque option"
  ReadinessProbe :: "Probe option"
  LivenessProbe :: "Probe option"
  TerminationMessagePolicy :: string

record PodSpec =
  RestartPolicy :: string
  PodSecurityContext :: opaque
  ServiceAccountName :: string
  AutomountServiceAccountToken :: "bool option"
  Containers :: "Container list"
  PodVolumes :: "Volume list"
  PodNodeSelector :: "(string \<rightharpoonup> string) option"
  Affinity :: "opaque option"
  SpreadConstraints :: "opaque option"

record PodTemplate =
  TmplAnnotations :: "string \<rightharpoonup> string"
  TmplLabels :: "string \<rightharpoonup> string"
  PodOf :: PodSpec

record DeploymentObj =
  DeplName :: string
  DeplNamespace :: string
  MatchLabels :: "string \<rightharpoonup> string"
  DeplReplicas :: "int option"
  Template :: PodTemplate

record JobObj =
  JobName :: string
  JobNamespace :: string
  JobAnnotations :: "string \<rightharpoonup> string"
  JobLabels :: "string \<rightharpoonup> string"
  BackoffLimit :: "int option"
  JobPod :: PodSpec

record tlsService =
  SvcSecretName :: string
  CertMount :: "string option"
  KeyMount :: "string option"
  CaMount :: "string option"

record Memcached =
  McName :: string
  McReady :: bool
  MTLSCert :: string
  McServers :: string
  McServersWithInet :: string
  McTLS :: bool
  McMTLSSecret :: string

section \<open>The pod libraries as a parameter\<close>

record podlib =
  VolMountsPropagate :: "VolMounts \<Rightarrow> string list \<Rightarrow> VolMounts list"
  StorageDBSync :: string
  ToCoreVolumeSource :: "opaque \<Rightarrow> opaque option" \<comment> \<open>None: the nil pointer\<close>
  RestrictivePodSecurityContext :: "int \<Rightarrow> int \<Rightarrow> opaque"
  RestrictiveSecurityContext :: "int \<Rightarrow> int \<Rightarrow> opaque"
  NeutronUID :: int
  NeutronGID :: int
  SetValue :: "string \<Rightarrow> setter"
  MergeEnvs :: "EnvVar list \<Rightarrow> envvars \<Rightarrow> EnvVar list"
  WritableDirVolume :: "string \<Rightarrow> Volume"
  WritableDirVolumeMount :: "string \<Rightarrow> string \<Rightarrow> VolumeMount"
  RunHttpdVolumeName :: string
  RunHttpdMountPath :: string
  CaCreateVolume :: "string \<Rightarrow> Volume"
  CaCreateVolumeMounts :: "string \<Rightarrow> VolumeMount list"
  APIEnabled :: "APIService \<Rightarrow> endpoint \<Rightarrow> bool"
  GenericEnabled :: "GenericService \<Rightarrow> bool"
  ToService :: "GenericService \<Rightarrow> goerror + tlsService"
  SvcCreateVolume :: "tlsService \<Rightarrow> string \<Rightarrow> Volume"
  SvcCreateVolumeMounts :: "tlsService \<Rightarrow> string \<Rightarrow> VolumeMount list"
  CreateMTLSVolume :: "Memcached \<Rightarrow> Volume"
  CreateMTLSVolumeMounts :: "Memcached \<Rightarrow> string \<Rightarrow> string \<Rightarrow> VolumeMount list"
  CertPathDst :: string
  KeyPathDst :: string
  DistributePods :: "string \<Rightarrow> string list \<Rightarrow> string \<Rightarrow> opaque"
  TopologyApplyTo :: "opaque \<Rightarrow> PodTemplate \<Rightarrow> PodTemplate"
  AppSelector :: string
  LabelHostname :: string

text \<open>
  What the operator relies on: the mounts a helper makes refer to the volume the same helper
  makes; an enabled TLS service names its secret; a value set in the environment map is in
  the merged list, and a name is there once; a Topology changes the placement of a pod and nothing else.
\<close>

definition pod_laws :: "podlib \<Rightarrow> bool" where
  "pod_laws L \<longleftrightarrow>
     (\<forall>s. \<forall>m \<in> set (CaCreateVolumeMounts L s). MountName m = VolName (CaCreateVolume L s)) \<and>
     (\<forall>v n. \<forall>m \<in> set (SvcCreateVolumeMounts L v n). MountName m = VolName (SvcCreateVolume L v n)) \<and>
     (\<forall>mc c k. \<forall>m \<in> set (CreateMTLSVolumeMounts L mc c k).
        MountName m = VolName (CreateMTLSVolume L mc)) \<and>
     (\<forall>n p. MountName (WritableDirVolumeMount L n p) = VolName (WritableDirVolume L n)) \<and>
     (\<forall>g. GenericEnabled L g \<longrightarrow> SecretName g \<noteq> None) \<and>
     (\<forall>v e. EnvValue (SetValue L v e) = v) \<and>
     (\<forall>m k v. distinct (map fst m) \<longrightarrow> (k, SetValue L v) \<in> set m \<longrightarrow>
        \<lparr>EnvName = k, EnvValue = v\<rparr> \<in> set (MergeEnvs L [] m)) \<and>
     (\<forall>m. distinct (map fst m) \<longrightarrow> distinct (map EnvName (MergeEnvs L [] m))) \<and>
     (\<forall>t p. \<exists>a c. TopologyApplyTo L t p =
        p\<lparr>PodOf := (PodOf p)\<lparr>Affinity := a, SpreadConstraints := c\<rparr>\<rparr>)"

text \<open>The libraries instantiated by plain functions; the laws can hold.\<close>

definition plain_pod :: podlib where
  "plain_pod = \<lparr>
     VolMountsPropagate = (\<lambda>g svc. if list_ex (\<lambda>p. p \<in> set svc) (PropagationTypes g) then [g] else []),
     StorageDBSync = ''DBSync'', ToCoreVolumeSource = Some,
     RestrictivePodSecurityContext = (\<lambda>u g. 0), RestrictiveSecurityContext = (\<lambda>u g. 0),
     NeutronUID = 42435, NeutronGID = 42435,
     SetValue = (\<lambda>v e. e\<lparr>EnvValue := v\<rparr>),
     MergeEnvs = (\<lambda>es m. es @ map (\<lambda>(k, f). (f \<lparr>EnvName = k, EnvValue = []\<rparr>)\<lparr>EnvName := k\<rparr>) m),
     WritableDirVolume = (\<lambda>n. \<lparr>VolName = n, VolSource = CoreSource 0\<rparr>),
     WritableDirVolumeMount =
       (\<lambda>n p. \<lparr>MountName = n, MountPath = p, SubPath = [], ReadOnly = False\<rparr>),
     RunHttpdVolumeName = ''run-httpd'', RunHttpdMountPath = ''/run/httpd'',
     CaCreateVolume = (\<lambda>s. \<lparr>VolName = ''ca'', VolSource = SecretSource 292 s\<rparr>),
     CaCreateVolumeMounts =
       (\<lambda>s. [\<lparr>MountName = ''ca'', MountPath = ''/ca.pem'', SubPath = s, ReadOnly = True\<rparr>]),
     APIEnabled = (\<lambda>a e. SecretName (if e = EndpointPublic then Public a else Internal a) \<noteq> None),
     GenericEnabled = (\<lambda>g. SecretName g \<noteq> None),
     ToService = (\<lambda>g. case SecretName g of
        None \<Rightarrow> Inl (LibErr False ''no secret'')
      | Some s \<Rightarrow> Inr \<lparr>SvcSecretName = s, CertMount = None, KeyMount = None, CaMount = None\<rparr>),
     SvcCreateVolume = (\<lambda>v n. \<lparr>VolName = n, VolSource = SecretSource 256 (SvcSecretName v)\<rparr>),
     SvcCreateVolumeMounts = (\<lambda>v n. map (\<lambda>p. \<lparr>MountName = n, MountPath = the p, SubPath = [],
        ReadOnly = True\<rparr>) (filter (\<lambda>p. p \<noteq> None) [CertMount v, KeyMount v, CaMount v])),
     CreateMTLSVolume = (\<lambda>mc. \<lparr>VolName = ''mtls'', VolSource = SecretSource 256 (MTLSCert mc)\<rparr>),
     CreateMTLSVolumeMounts = (\<lambda>mc c k. map (\<lambda>p. \<lparr>MountName = ''mtls'', MountPath = p,
        SubPath = [], ReadOnly = True\<rparr>) [c, k]),
     CertPathDst = ''/mtls/tls.crt'', KeyPathDst = ''/mtls/tls.key'',
     DistributePods = (\<lambda>a b c. 0),
     TopologyApplyTo = (\<lambda>t p. p\<lparr>PodOf := (PodOf p)\<lparr>Affinity := None, SpreadConstraints := Some t\<rparr>\<rparr>),
     AppSelector = ''service'', LabelHostname = ''kubernetes.io/hostname''\<rparr>"

lemma plain_pod_laws: "pod_laws plain_pod"
proof -
  have value_set: "\<lparr>EnvName = k, EnvValue = v\<rparr> \<in> set (MergeEnvs plain_pod [] m)"
    if "(k, SetValue plain_pod v) \<in> set m" for m k v
    using imageI [OF that, of "\<lambda>(k, f). (f \<lparr>EnvName = k, EnvValue = []\<rparr>)\<lparr>EnvName := k\<rparr>"]
    by (simp add: plain_pod_def)
  have names: "map EnvName (MergeEnvs plain_pod [] m) = map fst m" for m
    by (simp add: plain_pod_def split_def)
  have topo: "\<exists>a c. TopologyApplyTo plain_pod t p =
      p\<lparr>PodOf := (PodOf p)\<lparr>Affinity := a, SpreadConstraints := c\<rparr>\<rparr>" for t p
    by (auto simp: plain_pod_def)
  show ?thesis
    unfolding pod_laws_def using value_set topo
    by (auto simp: names) (auto simp: plain_pod_def)
qed

section \<open>Constants\<close>

definition ServiceName :: string where "ServiceName = ''neutron''"
definition ServiceType :: string where "ServiceType = ''network''"
definition Database :: string where "Database = ''neutron''"
definition DatabaseCRName :: string where "DatabaseCRName = ''neutron''"
definition DatabaseUsernamePrefix :: string where "DatabaseUsernamePrefix = ''neutron''"
definition NeutronPublicPort :: int where "NeutronPublicPort = 9696"
definition NeutronInternalPort :: int where "NeutronInternalPort = 9696"

definition TransportConsumerFinalizer :: string where
  "TransportConsumerFinalizer = ''openstack.org/neutron-transport-consumer''"

definition ACConsumerFinalizer :: string where
  "ACConsumerFinalizer = ''openstack.org/neutronapi-ac-consumer''"

definition RPCDeploymentSuffix :: string where "RPCDeploymentSuffix = ''rpc''"
definition WorkerDeploymentSuffix :: string where "WorkerDeploymentSuffix = ''worker''"

definition DbsyncPropagation :: "podlib \<Rightarrow> string list" where
  "DbsyncPropagation L = [StorageDBSync L]"

definition NeutronAPIPropagation :: "string list" where
  "NeutronAPIPropagation = [''Neutron'', ''NeutronAPI'']"

section \<open>Volumes and mounts\<close>

definition configMode :: int where "configMode = 288" \<comment> \<open>octal 0440\<close>

text \<open>
  \<^verbatim>\<open>volumeSource, _ := v.ToCoreVolumeSource()\<close> drops the error and dereferences the pointer:
  \<open>None\<close> is the panic on nil.
\<close>

fun convert_volumes :: "podlib \<Rightarrow> StorageVolume list \<Rightarrow> Volume list option" where
  "convert_volumes L [] = Some []"
| "convert_volumes L (v # vs) =
     (case ToCoreVolumeSource L (StorageSource v) of
        None \<Rightarrow> None
      | Some src \<Rightarrow>
          (case convert_volumes L vs of
             None \<Rightarrow> None
           | Some rest \<Rightarrow> Some (\<lparr>VolName = StorageName v, VolSource = CoreSource src\<rparr> # rest)))"

definition extra_groups ::
  "podlib \<Rightarrow> NeutronExtraVolMounts list \<Rightarrow> string list \<Rightarrow> VolMounts list" where
  "extra_groups L extraVol svc =
     concat (map (\<lambda>exv. Propagate (VolMountsPropagate L) exv svc) extraVol)"

definition GetVolumes ::
  "podlib \<Rightarrow> string \<Rightarrow> NeutronExtraVolMounts list \<Rightarrow> string list \<Rightarrow> Volume list option" where
  "GetVolumes L name extraVol svc =
     map_option (\<lambda>extra.
       [\<lparr>VolName = ''config'', VolSource = SecretSource configMode (name @ ''-config'')\<rparr>,
        \<lparr>VolName = ''httpd-config'',
         VolSource = SecretSource configMode (name @ ''-httpd-config'')\<rparr>] @ extra)
       (convert_volumes L (concat (map Volumes (extra_groups L extraVol svc))))"

definition GetVolumeMounts ::
  "podlib \<Rightarrow> NeutronExtraVolMounts list \<Rightarrow> string list \<Rightarrow> bool \<Rightarrow> VolumeMount list" where
  "GetVolumeMounts L extraVol svc policyOverwrite =
     [\<lparr>MountName = ''config'', MountPath = ''/etc/neutron/neutron.conf.d/01-neutron.conf'',
       SubPath = ''01-neutron.conf'', ReadOnly = True\<rparr>,
      \<lparr>MountName = ''config'', MountPath = ''/etc/neutron/neutron.conf.d/02-neutron-custom.conf'',
       SubPath = ''02-neutron-custom.conf'', ReadOnly = True\<rparr>,
      \<lparr>MountName = ''config'', MountPath = ''/etc/my.cnf'', SubPath = ''my.cnf'', ReadOnly = True\<rparr>]
     @ (if policyOverwrite
        then [\<lparr>MountName = ''config'', MountPath = ''/etc/neutron/policy.yaml'',
               SubPath = ''policy.yaml'', ReadOnly = True\<rparr>]
        else [])
     @ concat (map Mounts (extra_groups L extraVol svc))"

definition GetHttpdVolumeMount :: "podlib \<Rightarrow> VolumeMount list" where
  "GetHttpdVolumeMount L =
     [\<lparr>MountName = ''httpd-config'', MountPath = ''/etc/httpd/conf/httpd.conf'',
       SubPath = ''httpd.conf'', ReadOnly = True\<rparr>,
      \<lparr>MountName = ''httpd-config'', MountPath = ''/etc/httpd/conf.d/10-neutron.conf'',
       SubPath = ''10-neutron-httpd.conf'', ReadOnly = True\<rparr>,
      \<lparr>MountName = ''httpd-config'', MountPath = ''/etc/httpd/conf.d/ssl.conf'',
       SubPath = ''ssl.conf'', ReadOnly = True\<rparr>,
      WritableDirVolumeMount L (RunHttpdVolumeName L) (RunHttpdMountPath L)]"

section \<open>Every mount has its volume\<close>

definition mounts_ok :: "VolumeMount list \<Rightarrow> Volume list \<Rightarrow> bool" where
  "mounts_ok ms vs \<longleftrightarrow> MountName ` set ms \<subseteq> VolName ` set vs"

text \<open>The user's extra mounts: each propagated group mounts only volumes of its own.\<close>

definition extra_mounts_ok ::
  "podlib \<Rightarrow> NeutronExtraVolMounts list \<Rightarrow> string list \<Rightarrow> bool" where
  "extra_mounts_ok L extraVol svc \<longleftrightarrow>
     list_all (\<lambda>g. MountName ` set (Mounts g) \<subseteq> StorageName ` set (Volumes g))
       (extra_groups L extraVol svc)"

lemma convert_volumes_names:
  "convert_volumes L vs = Some ws \<Longrightarrow> map VolName ws = map StorageName vs"
  by (induction vs arbitrary: ws) (auto split: option.splits)

lemma convert_volumes_None:
  "convert_volumes L vs = None \<longleftrightarrow> (\<exists>v \<in> set vs. ToCoreVolumeSource L (StorageSource v) = None)"
  by (induction vs) (auto split: option.splits)

lemma mounts_ok_append [simp]:
  "mounts_ok (ms @ ns) vs \<longleftrightarrow> mounts_ok ms vs \<and> mounts_ok ns vs"
  by (auto simp: mounts_ok_def)

lemma mounts_ok_Nil [simp]: "mounts_ok [] vs"
  by (simp add: mounts_ok_def)

lemma mounts_ok_mono: "mounts_ok ms vs \<Longrightarrow> set vs \<subseteq> set ws \<Longrightarrow> mounts_ok ms ws"
  by (auto simp: mounts_ok_def)

lemma mounts_ok_weaken [simp]:
  "mounts_ok ms vs \<Longrightarrow> mounts_ok ms (vs @ ws)" "mounts_ok ms ws \<Longrightarrow> mounts_ok ms (vs @ ws)"
  by (auto simp: mounts_ok_def)

lemma GetVolumeMounts_ok:
  assumes "GetVolumes L name ex svc = Some vs" and "extra_mounts_ok L ex svc"
  shows "mounts_ok (GetVolumeMounts L ex svc p) vs"
proof -
  from assms(1) obtain ws where
    ws: "convert_volumes L (concat (map Volumes (extra_groups L ex svc))) = Some ws"
    and vs_eq: "vs = [\<lparr>VolName = ''config'', VolSource = SecretSource configMode (name @ ''-config'')\<rparr>,
        \<lparr>VolName = ''httpd-config'',
         VolSource = SecretSource configMode (name @ ''-httpd-config'')\<rparr>] @ ws"
    by (auto simp: GetVolumes_def)
  from vs_eq have vs: "set ws \<subseteq> set vs" "''config'' \<in> VolName ` set vs" by auto
  have "VolName ` set ws = StorageName ` set (concat (map Volumes (extra_groups L ex svc)))"
    using arg_cong [OF convert_volumes_names [OF ws], of set] by simp
  moreover have "MountName ` set (concat (map Mounts (extra_groups L ex svc))) \<subseteq>
      StorageName ` set (concat (map Volumes (extra_groups L ex svc)))"
  proof (rule image_subsetI)
    fix m assume "m \<in> set (concat (map Mounts (extra_groups L ex svc)))"
    then obtain g where g: "g \<in> set (extra_groups L ex svc)" and "m \<in> set (Mounts g)"
      by auto
    with assms(2) have "MountName m \<in> StorageName ` set (Volumes g)"
      by (auto simp: extra_mounts_ok_def list_all_iff)
    with g show "MountName m \<in> StorageName ` set (concat (map Volumes (extra_groups L ex svc)))"
      by auto
  qed
  ultimately have "mounts_ok (concat (map Mounts (extra_groups L ex svc))) vs"
    unfolding mounts_ok_def using image_mono [OF vs(1), of VolName] by simp
  with vs(2) show ?thesis by (auto simp: GetVolumeMounts_def mounts_ok_def)
qed

lemma GetHttpdVolumeMount_ok:
  assumes "pod_laws L" and "GetVolumes L name ex svc = Some vs"
  shows "mounts_ok (GetHttpdVolumeMount L) (vs @ [WritableDirVolume L (RunHttpdVolumeName L)])"
  using assms by (auto simp: GetHttpdVolumeMount_def GetVolumes_def mounts_ok_def pod_laws_def)

end
