(* ===== verification/Workloads.thy ===== *)
theory Workloads
  imports Volumes
begin

text \<open>
  The pods the operator runs: the API Deployment (\<^verbatim>\<open>deployment.go\<close>), the neutron-rpc and
  neutron-worker Deployments (\<^verbatim>\<open>workers.go\<close>), the database job (\<^verbatim>\<open>dbsync.go\<close>) and the image
  probe job (\<^verbatim>\<open>imageprobe.go\<close>), all of \<^verbatim>\<open>internal/neutronapi\<close>. A builder ends normally, with
  an error, or in a panic.
\<close>

datatype 'a res = Ok 'a | Fail goerror | Crash string

definition NeutronAPICommand :: string where
  "NeutronAPICommand =
     ''neutron-server --config-file /usr/share/neutron/neutron-dist.conf --config-file /etc/neutron/neutron.conf --config-dir /etc/neutron/neutron.conf.d''"

definition NeutronHttpdCommand :: string where
  "NeutronHttpdCommand = ''httpd -DFOREGROUND''"

definition NeutronRPCCommand :: string where
  "NeutronRPCCommand = ''neutron-rpc-server --config-dir /etc/neutron/neutron.conf.d''"

definition NeutronPeriodicWorkersCommand :: string where
  "NeutronPeriodicWorkersCommand =
     ''neutron-periodic-workers --config-dir /etc/neutron/neutron.conf.d''"

definition NeutronOVNMaintenanceCommand :: string where
  "NeutronOVNMaintenanceCommand =
     ''neutron-ovn-maintenance-worker --config-dir /etc/neutron/neutron.conf.d''"

definition DbSyncCommand :: string where
  "DbSyncCommand = ''neutron-db-manage --config-dir /etc/neutron/neutron.conf.d upgrade heads''"

definition NeutronServerBinaryPath :: string where
  "NeutronServerBinaryPath = ''/usr/bin/neutron-server''"

definition ImageProbeCommand :: string where
  "ImageProbeCommand = ''test ! -f '' @ NeutronServerBinaryPath"

section \<open>The API Deployment\<close>

fun dedupe_from :: "(string \<Rightarrow> bool) \<Rightarrow> VolumeMount list \<Rightarrow> VolumeMount list" where
  "dedupe_from seen [] = []"
| "dedupe_from seen (m # ms) =
     (if seen (MountPath m) then dedupe_from seen ms
      else m # dedupe_from (seen(MountPath m := True)) ms)"

definition dedupeVolumeMountsByPath :: "VolumeMount list \<Rightarrow> VolumeMount list" where
  "dedupeVolumeMountsByPath mounts = dedupe_from (\<lambda>_. False) mounts"

definition applyPlacement ::
  "podlib \<Rightarrow> NeutronAPI \<Rightarrow> DeploymentObj \<Rightarrow> opaque option \<Rightarrow> DeploymentObj" where
  "applyPlacement L i d topology =
     (let d1 = (case NodeSelector (Spec i) of
                  None \<Rightarrow> d
                | Some ns \<Rightarrow> d\<lparr>Template := (Template d)\<lparr>PodOf :=
                     (PodOf (Template d))\<lparr>PodNodeSelector := Some ns\<rparr>\<rparr>\<rparr>)
      in (case topology of
            Some t \<Rightarrow> d1\<lparr>Template := TopologyApplyTo L t (Template d1)\<rparr>
          | None \<Rightarrow> d1\<lparr>Template := (Template d1)\<lparr>PodOf := (PodOf (Template d1))\<lparr>Affinity :=
               Some (DistributePods L (AppSelector L) [DeplName d1] (LabelHostname L))\<rparr>\<rparr>\<rparr>))"

definition policyOverwrite :: "NeutronAPI \<Rightarrow> bool" where
  "policyOverwrite i =
     (case map_of (DefaultConfigOverwrite (Spec i)) ''policy.yaml'' of
        None \<Rightarrow> False | Some v \<Rightarrow> length v > 0)"

definition api_probe :: "podlib \<Rightarrow> NeutronAPI \<Rightarrow> Probe" where
  "api_probe L i =
     \<lparr>TimeoutSeconds = 30, PeriodSeconds = 30, InitialDelaySeconds = 5,
      ProbePath = ''/'', ProbePort = NeutronPublicPort,
      ProbeScheme = (if APIEnabled L (TLS_API (TLS (Spec i))) EndpointPublic
                     then ''HTTPS'' else [])\<rparr>"

text \<open>The loop over the internal and the public endpoint that mounts their certificates.\<close>

fun endpoint_certs ::
  "podlib \<Rightarrow> APIService \<Rightarrow> endpoint list \<Rightarrow> Volume list \<Rightarrow> VolumeMount list
     \<Rightarrow> goerror + Volume list \<times> VolumeMount list" where
  "endpoint_certs L api [] vols mounts = Inr (vols, mounts)"
| "endpoint_certs L api (endpt # rest) vols mounts =
     (if APIEnabled L api endpt then
        (case ToService L (if endpt = EndpointPublic then Public api
                           else if endpt = EndpointInternal then Internal api
                           else \<lparr>SecretName = None\<rparr>) of
           Inl e \<Rightarrow> Inl e
         | Inr svc0 \<Rightarrow>
             (let svc = svc0\<lparr>CertMount := Some (''/etc/pki/tls/certs/'' @ endpt @ ''.crt''),
                             KeyMount := Some (''/etc/pki/tls/private/'' @ endpt @ ''.key'')\<rparr>
              in endpoint_certs L api rest (vols @ [SvcCreateVolume L svc endpt])
                   (mounts @ SvcCreateVolumeMounts L svc endpt)))
      else endpoint_certs L api rest vols mounts)"

declare endpoint_certs.simps [simp del]

text \<open>
  The OVN client certificate: \<open>None\<close> is the dereference of a nil secret name.
\<close>

definition ovn_cert ::
  "podlib \<Rightarrow> NeutronAPI \<Rightarrow> Volume list \<Rightarrow> VolumeMount list
     \<Rightarrow> (Volume list \<times> VolumeMount list) option" where
  "ovn_cert L i vols mounts =
     (if IsOVNEnabled i \<and> GenericEnabled L (Ovn (TLS (Spec i))) then
        (case SecretName (Ovn (TLS (Spec i))) of
           None \<Rightarrow> None
         | Some sn \<Rightarrow>
             (let svc = \<lparr>SvcSecretName = sn,
                         CertMount = Some ''/etc/pki/tls/certs/ovndb.crt'',
                         KeyMount = Some ''/etc/pki/tls/private/ovndb.key'',
                         CaMount = Some ''/etc/pki/tls/certs/ovndbca.crt''\<rparr>
              in Some (vols @ [SvcCreateVolume L svc ''ovndb''],
                       mounts @ SvcCreateVolumeMounts L svc ''ovndb'')))
      else Some (vols, mounts))"

text \<open>The volumes, the mounts of the API process and the mounts of httpd.\<close>

definition deployment_volumes ::
  "podlib \<Rightarrow> NeutronAPI \<Rightarrow> Memcached \<Rightarrow> (Volume list \<times> VolumeMount list \<times> VolumeMount list) res" where
  "deployment_volumes L i mc =
     (case GetVolumes L (Name i) (ExtraMounts (Spec i)) NeutronAPIPropagation of
        None \<Rightarrow> Crash ''nil volume source''
      | Some vols \<Rightarrow>
        (let volumes0 = vols @ [WritableDirVolume L (RunHttpdVolumeName L)];
             api0 = GetVolumeMounts L (ExtraMounts (Spec i)) NeutronAPIPropagation
                      (policyOverwrite i);
             httpd0 = GetHttpdVolumeMount L;
             ca = CaBundleSecretName (TLS (Spec i));
             volumes1 = (if ca \<noteq> [] then volumes0 @ [CaCreateVolume L ca] else volumes0);
             api1 = (if ca \<noteq> [] then api0 @ CaCreateVolumeMounts L ca else api0);
             httpd1 = (if ca \<noteq> [] then httpd0 @ CaCreateVolumeMounts L ca else httpd0);
             volumes2 = (if MTLSCert mc \<noteq> [] then volumes1 @ [CreateMTLSVolume L mc]
                         else volumes1);
             api2 = (if MTLSCert mc \<noteq> []
                     then api1 @ CreateMTLSVolumeMounts L mc (CertPathDst L) (KeyPathDst L)
                     else api1)
         in (case endpoint_certs L (TLS_API (TLS (Spec i))) [EndpointInternal, EndpointPublic]
                    volumes2 httpd1 of
               Inl e \<Rightarrow> Fail e
             | Inr (volumes3, httpd2) \<Rightarrow>
                 (case ovn_cert L i volumes3 api2 of
                    None \<Rightarrow> Crash ''nil OVN secret name''
                  | Some (volumes4, api3) \<Rightarrow> Ok (volumes4, api3, httpd2)))))"

definition config_env :: "podlib \<Rightarrow> string \<Rightarrow> envvars" where
  "config_env L configHash = [(''CONFIG_HASH'', SetValue L configHash)]"

definition wsgi_env :: "podlib \<Rightarrow> string \<Rightarrow> envvars" where
  "wsgi_env L configHash =
     config_env L configHash @
       [(''OS_NEUTRON_CONFIG_DIR'', SetValue L ''/etc/neutron/neutron.conf.d''),
        (''OS_NEUTRON_CONFIG_FILES'', SetValue L ''01-neutron.conf'')]"

definition deployment_containers ::
  "podlib \<Rightarrow> NeutronAPI \<Rightarrow> string \<Rightarrow> VolumeMount list \<Rightarrow> VolumeMount list \<Rightarrow> bool
     \<Rightarrow> Container list" where
  "deployment_containers L i configHash apiMounts httpdMounts wsgi =
     (let env = MergeEnvs L [] (if wsgi then wsgi_env L configHash else config_env L configHash);
          sc = RestrictiveSecurityContext L (NeutronUID L) (NeutronGID L);
          httpdContainerMounts =
            (if wsgi then dedupeVolumeMountsByPath (httpdMounts @ apiMounts) else httpdMounts)
      in (if \<not> wsgi then
            [\<lparr>CtrName = ServiceName @ ''-api'', Command = [''/bin/bash''],
              Args = [''-c'', NeutronAPICommand], Image = ContainerImage (Spec i),
              CtrSecurityContext = sc, Env = env, CtrMounts = apiMounts,
              CtrResources = Some (Resources (Spec i)), ReadinessProbe = None,
              LivenessProbe = Some (api_probe L i),
              TerminationMessagePolicy = ''FallbackToLogsOnError''\<rparr>]
          else [])
         @ [\<lparr>CtrName = ServiceName @ ''-httpd'', Command = [''/bin/bash''],
              Args = [''-c'', NeutronHttpdCommand], Image = ContainerImage (Spec i),
              CtrSecurityContext = sc, Env = env, CtrMounts = httpdContainerMounts,
              CtrResources = Some (Resources (Spec i)), ReadinessProbe = Some (api_probe L i),
              LivenessProbe = Some (api_probe L i),
              TerminationMessagePolicy = ''FallbackToLogsOnError''\<rparr>])"

definition pod_spec ::
  "podlib \<Rightarrow> NeutronAPI \<Rightarrow> string \<Rightarrow> Container list \<Rightarrow> Volume list \<Rightarrow> PodSpec" where
  "pod_spec L i restart ctrs vols =
     \<lparr>RestartPolicy = restart,
      PodSecurityContext = RestrictivePodSecurityContext L (NeutronUID L) (NeutronGID L),
      ServiceAccountName = RbacResourceName i, AutomountServiceAccountToken = Some False,
      Containers = ctrs, PodVolumes = vols, PodNodeSelector = None, Affinity = None,
      SpreadConstraints = None\<rparr>"

definition Deployment ::
  "podlib \<Rightarrow> NeutronAPI \<Rightarrow> string \<Rightarrow> (string \<rightharpoonup> string) \<Rightarrow> (string \<rightharpoonup> string) \<Rightarrow> opaque option
     \<Rightarrow> Memcached \<Rightarrow> bool \<Rightarrow> DeploymentObj res" where
  "Deployment L i configHash labels annotations topology mc wsgi =
     (case deployment_volumes L i mc of
        Crash m \<Rightarrow> Crash m
      | Fail e \<Rightarrow> Fail e
      | Ok (volumes, apiMounts, httpdMounts) \<Rightarrow>
          Ok (applyPlacement L i
            \<lparr>DeplName = ServiceName, DeplNamespace = Namespace i, MatchLabels = labels,
             DeplReplicas = Replicas (Spec i),
             Template = \<lparr>TmplAnnotations = annotations, TmplLabels = labels,
               PodOf = pod_spec L i []
                 (deployment_containers L i configHash apiMounts httpdMounts wsgi) volumes\<rparr>\<rparr>
            topology))"

section \<open>The neutron-rpc and neutron-worker Deployments\<close>

definition workerVolumesAndMounts ::
  "podlib \<Rightarrow> NeutronAPI \<Rightarrow> Memcached \<Rightarrow> (Volume list \<times> VolumeMount list) option" where
  "workerVolumesAndMounts L i mc =
     (case GetVolumes L (Name i) (ExtraMounts (Spec i)) NeutronAPIPropagation of
        None \<Rightarrow> None
      | Some volumes0 \<Rightarrow>
        (let mounts0 = GetVolumeMounts L (ExtraMounts (Spec i)) NeutronAPIPropagation
                         (policyOverwrite i);
             ca = CaBundleSecretName (TLS (Spec i));
             volumes1 = (if ca \<noteq> [] then volumes0 @ [CaCreateVolume L ca] else volumes0);
             mounts1 = (if ca \<noteq> [] then mounts0 @ CaCreateVolumeMounts L ca else mounts0);
             volumes2 = (if MTLSCert mc \<noteq> [] then volumes1 @ [CreateMTLSVolume L mc]
                         else volumes1);
             mounts2 = (if MTLSCert mc \<noteq> []
                        then mounts1 @ CreateMTLSVolumeMounts L mc (CertPathDst L) (KeyPathDst L)
                        else mounts1)
         in ovn_cert L i volumes2 mounts2))"

definition worker_container ::
  "podlib \<Rightarrow> NeutronAPI \<Rightarrow> string \<Rightarrow> string \<Rightarrow> string \<Rightarrow> VolumeMount list \<Rightarrow> Container" where
  "worker_container L i configHash name command mounts =
     \<lparr>CtrName = name, Command = [''/bin/bash''], Args = [''-c'', command],
      Image = ContainerImage (Spec i),
      CtrSecurityContext = RestrictiveSecurityContext L (NeutronUID L) (NeutronGID L),
      Env = MergeEnvs L [] (wsgi_env L configHash), CtrMounts = mounts,
      CtrResources = Some (Resources (Spec i)), ReadinessProbe = None, LivenessProbe = None,
      TerminationMessagePolicy = ''FallbackToLogsOnError''\<rparr>"

definition RPCDeployment ::
  "podlib \<Rightarrow> NeutronAPI \<Rightarrow> string \<Rightarrow> (string \<rightharpoonup> string) \<Rightarrow> (string \<rightharpoonup> string) \<Rightarrow> opaque option
     \<Rightarrow> Memcached \<Rightarrow> DeploymentObj res" where
  "RPCDeployment L i configHash labels annotations topology mc =
     (case workerVolumesAndMounts L i mc of
        None \<Rightarrow> Crash ''nil pointer in the volumes''
      | Some (volumes, mounts) \<Rightarrow>
          Ok (applyPlacement L i
            \<lparr>DeplName = ServiceName @ ''-'' @ RPCDeploymentSuffix, DeplNamespace = Namespace i,
             MatchLabels = labels, DeplReplicas = Some 1,
             Template = \<lparr>TmplAnnotations = annotations, TmplLabels = labels,
               PodOf = pod_spec L i []
                 [worker_container L i configHash (ServiceName @ ''-'' @ RPCDeploymentSuffix)
                    NeutronRPCCommand mounts] volumes\<rparr>\<rparr>
            topology))"

definition WorkerDeployment ::
  "podlib \<Rightarrow> NeutronAPI \<Rightarrow> string \<Rightarrow> (string \<rightharpoonup> string) \<Rightarrow> (string \<rightharpoonup> string) \<Rightarrow> opaque option
     \<Rightarrow> Memcached \<Rightarrow> DeploymentObj res" where
  "WorkerDeployment L i configHash labels annotations topology mc =
     (case workerVolumesAndMounts L i mc of
        None \<Rightarrow> Crash ''nil pointer in the volumes''
      | Some (volumes, mounts) \<Rightarrow>
          Ok (applyPlacement L i
            \<lparr>DeplName = ServiceName @ ''-'' @ WorkerDeploymentSuffix, DeplNamespace = Namespace i,
             MatchLabels = labels, DeplReplicas = Some 1,
             Template = \<lparr>TmplAnnotations = annotations, TmplLabels = labels,
               PodOf = pod_spec L i []
                 ([worker_container L i configHash (ServiceName @ ''-periodic-workers'')
                     NeutronPeriodicWorkersCommand mounts]
                  @ (if IsOVNEnabled i
                     then [worker_container L i configHash
                             (ServiceName @ ''-ovn-maintenance-worker'')
                             NeutronOVNMaintenanceCommand mounts]
                     else [])) volumes\<rparr>\<rparr>
            topology))"

section \<open>The jobs\<close>

definition job_container ::
  "podlib \<Rightarrow> NeutronAPI \<Rightarrow> string \<Rightarrow> string \<Rightarrow> EnvVar list \<Rightarrow> VolumeMount list \<Rightarrow> Container" where
  "job_container L i name command env mounts =
     \<lparr>CtrName = name, Command = [''/bin/bash''], Args = [''-c'', command],
      Image = ContainerImage (Spec i),
      CtrSecurityContext = RestrictiveSecurityContext L (NeutronUID L) (NeutronGID L),
      Env = env, CtrMounts = mounts, CtrResources = None, ReadinessProbe = None,
      LivenessProbe = None, TerminationMessagePolicy = []\<rparr>"

definition DbSyncJob ::
  "podlib \<Rightarrow> NeutronAPI \<Rightarrow> (string \<rightharpoonup> string) \<Rightarrow> (string \<rightharpoonup> string) \<Rightarrow> JobObj res" where
  "DbSyncJob L i labels annotations =
     (case GetVolumes L (Name i) (ExtraMounts (Spec i)) (DbsyncPropagation L) of
        None \<Rightarrow> Crash ''nil volume source''
      | Some volumes0 \<Rightarrow>
        (let mounts0 = GetVolumeMounts L (ExtraMounts (Spec i)) (DbsyncPropagation L) False;
             ca = CaBundleSecretName (TLS (Spec i));
             volumes = (if ca \<noteq> [] then volumes0 @ [CaCreateVolume L ca] else volumes0);
             mounts = (if ca \<noteq> [] then mounts0 @ CaCreateVolumeMounts L ca else mounts0);
             name = Name i @ ''-db-sync'';
             pod = pod_spec L i ''OnFailure''
                     [job_container L i name DbSyncCommand (MergeEnvs L [] []) mounts]
                     volumes
         in Ok \<lparr>JobName = name, JobNamespace = Namespace i, JobAnnotations = annotations,
                JobLabels = labels, BackoffLimit = None,
                JobPod = (case NodeSelector (Spec i) of
                            None \<Rightarrow> pod | Some ns \<Rightarrow> pod\<lparr>PodNodeSelector := Some ns\<rparr>)\<rparr>))"

definition ImageProbeJobName :: "NeutronAPI \<Rightarrow> string" where
  "ImageProbeJobName i = Name i @ ''-image-probe''"

definition ImageProbeJob ::
  "podlib \<Rightarrow> NeutronAPI \<Rightarrow> (string \<rightharpoonup> string) \<Rightarrow> (string \<rightharpoonup> string) \<Rightarrow> JobObj" where
  "ImageProbeJob L i labels annotations =
     (let name = ImageProbeJobName i;
          pod = pod_spec L i ''Never'' [job_container L i name ImageProbeCommand [] []] []
      in \<lparr>JobName = name, JobNamespace = Namespace i, JobAnnotations = annotations,
          JobLabels = labels, BackoffLimit = Some 0,
          JobPod = (case NodeSelector (Spec i) of
                      None \<Rightarrow> pod | Some ns \<Rightarrow> pod\<lparr>PodNodeSelector := Some ns\<rparr>)\<rparr>)"

section \<open>Removing duplicate mount paths\<close>

lemma dedupe_from_paths:
  "MountPath ` set (dedupe_from seen ms) = MountPath ` set ms - {p. seen p}"
proof (induction ms arbitrary: seen)
  case (Cons m ms)
  then show ?case by (cases "seen (MountPath m)") (simp_all, blast+)
qed simp

lemma dedupe_from_distinct: "distinct (map MountPath (dedupe_from seen ms))"
proof (induction ms arbitrary: seen)
  case (Cons m ms)
  moreover have "MountPath m \<notin> MountPath ` set (dedupe_from (seen(MountPath m := True)) ms)"
    by (simp add: dedupe_from_paths)
  ultimately show ?case by simp
qed simp

lemma dedupe_from_subseq: "subseq (dedupe_from seen ms) ms"
  by (induction ms arbitrary: seen) (auto intro: list_emb_Cons)

lemma dedupe_from_id:
  "distinct (map MountPath ms) \<Longrightarrow> \<forall>m \<in> set ms. \<not> seen (MountPath m) \<Longrightarrow> dedupe_from seen ms = ms"
proof (induction ms arbitrary: seen)
  case (Cons m ms)
  have "MountPath n \<noteq> MountPath m" if "n \<in> set ms" for n
    using Cons.prems(1) that by (metis distinct.simps(2) image_eqI list.simps(9) set_map)
  with Cons.prems have "dedupe_from (seen(MountPath m := True)) ms = ms"
    by (intro Cons.IH) simp_all
  with Cons.prems show ?case by simp
qed simp

lemma dedupe_from_first:
  "\<not> seen p \<Longrightarrow> List.find (\<lambda>m. MountPath m = p) (dedupe_from seen ms) =
   List.find (\<lambda>m. MountPath m = p) ms"
  by (induction ms arbitrary: seen) auto

lemma dedupe_distinct: "distinct (map MountPath (dedupeVolumeMountsByPath ms))"
  by (simp add: dedupeVolumeMountsByPath_def dedupe_from_distinct)

lemma dedupe_paths: "MountPath ` set (dedupeVolumeMountsByPath ms) = MountPath ` set ms"
  by (simp add: dedupeVolumeMountsByPath_def dedupe_from_paths)

lemma dedupe_subset: "set (dedupeVolumeMountsByPath ms) \<subseteq> set ms"
  unfolding dedupeVolumeMountsByPath_def
  using dedupe_from_subseq [of "\<lambda>_. False" ms] by (auto elim: list_emb_set)

text \<open>
  C29. Merging mounts: no mount path is left twice, no path is lost, the mount kept for a path
  is the first one that claimed it, the order is that of the input, and merging again changes
  nothing.
\<close>

theorem dedupeVolumeMountsByPath_correct:
  "distinct (map MountPath (dedupeVolumeMountsByPath ms)) \<and>
   MountPath ` set (dedupeVolumeMountsByPath ms) = MountPath ` set ms \<and>
   List.find (\<lambda>m. MountPath m = p) (dedupeVolumeMountsByPath ms) =
     List.find (\<lambda>m. MountPath m = p) ms \<and>
   subseq (dedupeVolumeMountsByPath ms) ms \<and>
   dedupeVolumeMountsByPath (dedupeVolumeMountsByPath ms) = dedupeVolumeMountsByPath ms"
  by (simp add: dedupe_distinct dedupe_paths)
     (simp add: dedupeVolumeMountsByPath_def dedupe_from_first dedupe_from_subseq
        dedupe_from_distinct dedupe_from_id)

section \<open>What placement keeps\<close>

lemma applyPlacement_fields [simp]:
  "DeplName (applyPlacement L i d t) = DeplName d"
  "DeplNamespace (applyPlacement L i d t) = DeplNamespace d"
  "MatchLabels (applyPlacement L i d t) = MatchLabels d"
  "DeplReplicas (applyPlacement L i d t) = DeplReplicas d"
  by (simp_all add: applyPlacement_def Let_def split: option.splits)

lemma TopologyApplyTo_pod:
  assumes "pod_laws L"
  shows "Containers (PodOf (TopologyApplyTo L t p)) = Containers (PodOf p)"
    and "PodVolumes (PodOf (TopologyApplyTo L t p)) = PodVolumes (PodOf p)"
    and "ServiceAccountName (PodOf (TopologyApplyTo L t p)) = ServiceAccountName (PodOf p)"
    and "AutomountServiceAccountToken (PodOf (TopologyApplyTo L t p)) =
      AutomountServiceAccountToken (PodOf p)"
    and "TmplLabels (TopologyApplyTo L t p) = TmplLabels p"
proof -
  obtain a c where eq: "TopologyApplyTo L t p =
      p\<lparr>PodOf := (PodOf p)\<lparr>Affinity := a, SpreadConstraints := c\<rparr>\<rparr>"
    using assms unfolding pod_laws_def by metis
  show "Containers (PodOf (TopologyApplyTo L t p)) = Containers (PodOf p)"
    and "PodVolumes (PodOf (TopologyApplyTo L t p)) = PodVolumes (PodOf p)"
    and "ServiceAccountName (PodOf (TopologyApplyTo L t p)) = ServiceAccountName (PodOf p)"
    and "AutomountServiceAccountToken (PodOf (TopologyApplyTo L t p)) =
      AutomountServiceAccountToken (PodOf p)"
    and "TmplLabels (TopologyApplyTo L t p) = TmplLabels p"
    by (simp_all add: eq)
qed

lemma applyPlacement_pod:
  assumes "pod_laws L"
  shows "Containers (PodOf (Template (applyPlacement L i d t))) = Containers (PodOf (Template d))"
    and "PodVolumes (PodOf (Template (applyPlacement L i d t))) = PodVolumes (PodOf (Template d))"
    and "ServiceAccountName (PodOf (Template (applyPlacement L i d t))) =
      ServiceAccountName (PodOf (Template d))"
    and "AutomountServiceAccountToken (PodOf (Template (applyPlacement L i d t))) =
      AutomountServiceAccountToken (PodOf (Template d))"
    and "TmplLabels (Template (applyPlacement L i d t)) = TmplLabels (Template d)"
  by (simp_all add: applyPlacement_def Let_def TopologyApplyTo_pod [OF assms] split: option.splits)

section \<open>Mounts and volumes of the pods\<close>

lemma pod_laws_mounts:
  assumes "pod_laws L"
  shows "mounts_ok (CaCreateVolumeMounts L s) [CaCreateVolume L s]"
    and "mounts_ok (SvcCreateVolumeMounts L v n) [SvcCreateVolume L v n]"
    and "mounts_ok (CreateMTLSVolumeMounts L mc c k) [CreateMTLSVolume L mc]"
  using assms by (auto simp: pod_laws_def mounts_ok_def)

lemma endpoint_certs_ok:
  assumes "pod_laws L"
  shows "endpoint_certs L api es vs ms = Inr (vs', ms') \<Longrightarrow>
    set vs \<subseteq> set vs' \<and> (mounts_ok ms vs \<longrightarrow> mounts_ok ms' vs')"
proof (induction es arbitrary: vs ms)
  case (Cons e es)
  show ?case
  proof (cases "APIEnabled L api e")
    case False
    with Cons show ?thesis by (simp add: endpoint_certs.simps)
  next
    case True
    with Cons.prems obtain svc where
      "endpoint_certs L api es (vs @ [SvcCreateVolume L svc e])
         (ms @ SvcCreateVolumeMounts L svc e) = Inr (vs', ms')"
      by (auto simp: endpoint_certs.simps Let_def split: sum.splits if_splits)
    from Cons.IH [OF this] show ?thesis
      using pod_laws_mounts(2) [OF assms, of svc e] by auto
  qed
qed (simp add: endpoint_certs.simps)

lemma ovn_cert_ok:
  assumes "pod_laws L" and "ovn_cert L i vs ms = Some (vs', ms')"
  shows "set vs \<subseteq> set vs' \<and> (mounts_ok ms vs \<longrightarrow> mounts_ok ms' vs')"
  using assms(2) pod_laws_mounts(2) [OF assms(1)]
  by (auto simp: ovn_cert_def Let_def split: if_splits option.splits)

lemma ovn_cert_mounts:
  "map_option snd (ovn_cert L i vs ms) = map_option snd (ovn_cert L i ws ms)"
  by (auto simp: ovn_cert_def Let_def split: option.splits)

text \<open>
  The two volume computations in one shape: the process sees the base mounts, the CA bundle,
  the memcached client certificate and the OVN certificate.
\<close>

definition ca_volumes :: "podlib \<Rightarrow> NeutronAPI \<Rightarrow> Volume list" where
  "ca_volumes L i = (if CaBundleSecretName (TLS (Spec i)) \<noteq> []
     then [CaCreateVolume L (CaBundleSecretName (TLS (Spec i)))] else [])"

definition ca_mounts :: "podlib \<Rightarrow> NeutronAPI \<Rightarrow> VolumeMount list" where
  "ca_mounts L i = (if CaBundleSecretName (TLS (Spec i)) \<noteq> []
     then CaCreateVolumeMounts L (CaBundleSecretName (TLS (Spec i))) else [])"

definition mtls_volumes :: "podlib \<Rightarrow> Memcached \<Rightarrow> Volume list" where
  "mtls_volumes L mc = (if MTLSCert mc \<noteq> [] then [CreateMTLSVolume L mc] else [])"

definition mtls_mounts :: "podlib \<Rightarrow> Memcached \<Rightarrow> VolumeMount list" where
  "mtls_mounts L mc = (if MTLSCert mc \<noteq> []
     then CreateMTLSVolumeMounts L mc (CertPathDst L) (KeyPathDst L) else [])"

definition process_mounts :: "podlib \<Rightarrow> NeutronAPI \<Rightarrow> Memcached \<Rightarrow> VolumeMount list" where
  "process_mounts L i mc =
     (GetVolumeMounts L (ExtraMounts (Spec i)) NeutronAPIPropagation (policyOverwrite i)
        @ ca_mounts L i) @ mtls_mounts L mc"

lemma deployment_volumes_shape:
  "deployment_volumes L i mc =
     (case GetVolumes L (Name i) (ExtraMounts (Spec i)) NeutronAPIPropagation of
        None \<Rightarrow> Crash ''nil volume source''
      | Some v0 \<Rightarrow>
          (case endpoint_certs L (TLS_API (TLS (Spec i))) [EndpointInternal, EndpointPublic]
                  (((v0 @ [WritableDirVolume L (RunHttpdVolumeName L)]) @ ca_volumes L i)
                     @ mtls_volumes L mc) (GetHttpdVolumeMount L @ ca_mounts L i) of
             Inl e \<Rightarrow> Fail e
           | Inr (v3, httpd) \<Rightarrow>
               (case ovn_cert L i v3 (process_mounts L i mc) of
                  None \<Rightarrow> Crash ''nil OVN secret name''
                | Some (v4, api) \<Rightarrow> Ok (v4, api, httpd))))"
  unfolding deployment_volumes_def Let_def process_mounts_def ca_volumes_def ca_mounts_def
    mtls_volumes_def mtls_mounts_def
  by (cases "GetVolumes L (Name i) (ExtraMounts (Spec i)) NeutronAPIPropagation";
      cases "CaBundleSecretName (TLS (Spec i)) = []"; cases "MTLSCert mc = []")
    (simp_all cong: sum.case_cong prod.case_cong)

lemma workerVolumesAndMounts_shape:
  "workerVolumesAndMounts L i mc =
     (case GetVolumes L (Name i) (ExtraMounts (Spec i)) NeutronAPIPropagation of
        None \<Rightarrow> None
      | Some v0 \<Rightarrow>
          ovn_cert L i ((v0 @ ca_volumes L i) @ mtls_volumes L mc) (process_mounts L i mc))"
  unfolding workerVolumesAndMounts_def Let_def process_mounts_def ca_volumes_def ca_mounts_def
    mtls_volumes_def mtls_mounts_def
  by (cases "GetVolumes L (Name i) (ExtraMounts (Spec i)) NeutronAPIPropagation";
      cases "CaBundleSecretName (TLS (Spec i)) = []"; cases "MTLSCert mc = []")
    (simp_all cong: sum.case_cong prod.case_cong)

lemma ca_mtls_ok:
  assumes "pod_laws L"
  shows "mounts_ok (ca_mounts L i) (ca_volumes L i)"
    and "mounts_ok (mtls_mounts L mc) (mtls_volumes L mc)"
  using pod_laws_mounts(1,3) [OF assms]
  by (simp_all add: ca_mounts_def ca_volumes_def mtls_mounts_def mtls_volumes_def)

lemma process_mounts_ok:
  assumes "pod_laws L" and "extra_mounts_ok L (ExtraMounts (Spec i)) NeutronAPIPropagation"
    and "GetVolumes L (Name i) (ExtraMounts (Spec i)) NeutronAPIPropagation = Some v0"
    and "set v0 \<subseteq> set vs" and "set (ca_volumes L i) \<subseteq> set vs"
    and "set (mtls_volumes L mc) \<subseteq> set vs"
  shows "mounts_ok (process_mounts L i mc) vs"
  unfolding process_mounts_def mounts_ok_append
  using mounts_ok_mono [OF GetVolumeMounts_ok [OF assms(3,2)] assms(4)]
    mounts_ok_mono [OF ca_mtls_ok(1) [OF assms(1)] assms(5)]
    mounts_ok_mono [OF ca_mtls_ok(2) [OF assms(1)] assms(6)] by blast

lemma deployment_volumesE:
  assumes "deployment_volumes L i mc = Ok (vs, api, httpd)"
  obtains v0 v3 where
    "GetVolumes L (Name i) (ExtraMounts (Spec i)) NeutronAPIPropagation = Some v0"
    and "endpoint_certs L (TLS_API (TLS (Spec i))) [EndpointInternal, EndpointPublic]
      (((v0 @ [WritableDirVolume L (RunHttpdVolumeName L)]) @ ca_volumes L i) @ mtls_volumes L mc)
      (GetHttpdVolumeMount L @ ca_mounts L i) = Inr (v3, httpd)"
    and "ovn_cert L i v3 (process_mounts L i mc) = Some (vs, api)"
  using assms unfolding deployment_volumes_shape
  by (auto split: option.splits sum.splits)

lemma deployment_volumes_ok:
  assumes L: "pod_laws L" and ex: "extra_mounts_ok L (ExtraMounts (Spec i)) NeutronAPIPropagation"
    and "deployment_volumes L i mc = Ok (vs, api, httpd)"
  shows "mounts_ok api vs \<and> mounts_ok httpd vs"
  using assms(3)
proof (rule deployment_volumesE)
  fix v0 v3
  let ?v = "((v0 @ [WritableDirVolume L (RunHttpdVolumeName L)]) @ ca_volumes L i) @ mtls_volumes L mc"
  assume v0: "GetVolumes L (Name i) (ExtraMounts (Spec i)) NeutronAPIPropagation = Some v0"
    and certs: "endpoint_certs L (TLS_API (TLS (Spec i))) [EndpointInternal, EndpointPublic] ?v
      (GetHttpdVolumeMount L @ ca_mounts L i) = Inr (v3, httpd)"
    and ovn: "ovn_cert L i v3 (process_mounts L i mc) = Some (vs, api)"
  have "mounts_ok (GetHttpdVolumeMount L @ ca_mounts L i) ?v"
    using mounts_ok_mono [OF GetHttpdVolumeMount_ok [OF L v0], of ?v]
      mounts_ok_mono [OF ca_mtls_ok(1) [OF L], of i ?v] by auto
  with endpoint_certs_ok [OF L certs] have v3: "set ?v \<subseteq> set v3" "mounts_ok httpd v3" by blast+
  then have "mounts_ok (process_mounts L i mc) v3"
    by (intro process_mounts_ok [OF L ex v0]) auto
  with ovn_cert_ok [OF L ovn] v3(2) show ?thesis by (blast intro: mounts_ok_mono)
qed

lemma workerVolumesAndMounts_ok:
  assumes L: "pod_laws L" and ex: "extra_mounts_ok L (ExtraMounts (Spec i)) NeutronAPIPropagation"
    and "workerVolumesAndMounts L i mc = Some (vs, ms)"
  shows "mounts_ok ms vs"
proof -
  from assms(3) obtain v0 where
    v0: "GetVolumes L (Name i) (ExtraMounts (Spec i)) NeutronAPIPropagation = Some v0"
    and ovn: "ovn_cert L i ((v0 @ ca_volumes L i) @ mtls_volumes L mc) (process_mounts L i mc)
      = Some (vs, ms)"
    by (auto simp: workerVolumesAndMounts_shape split: option.splits)
  have "mounts_ok (process_mounts L i mc) ((v0 @ ca_volumes L i) @ mtls_volumes L mc)"
    by (rule process_mounts_ok [OF L ex v0]) auto
  with ovn_cert_ok [OF L ovn] show ?thesis by blast
qed

end
