(* ===== verification/ApiWebhook.thy ===== *)
theory ApiWebhook
  imports ApiTypes
begin

text \<open>
  Defaulting and validation of the resource: \<^verbatim>\<open>api/v1beta1/neutronapi_webhook.go\<close> and the
  admission handlers of \<^verbatim>\<open>internal/webhook/v1beta1/neutronapi_webhook.go\<close>. The validation
  functions of lib-common and infra-operator are the parameter \<open>weblib\<close>.
\<close>

section \<open>Defaults\<close>

record NeutronAPIDefaults =
  ContainerImageURL :: string
  DefaultAPITimeout :: int

definition SetupDefaults :: "(string \<Rightarrow> string \<Rightarrow> string) \<Rightarrow> NeutronAPIDefaults" where
  "SetupDefaults getEnvVar =
     \<lparr>ContainerImageURL =
        getEnvVar ''RELATED_IMAGE_NEUTRON_API_IMAGE_URL_DEFAULT'' NeutronAPIContainerImage,
      DefaultAPITimeout = 120\<rparr>"

text \<open>\<^verbatim>\<open>NeutronAPISpecCore.Default\<close>, on any spec that extends the core.\<close>

definition SpecCore_Default ::
  "NeutronAPIDefaults \<Rightarrow> 'x NeutronAPISpecCore_scheme \<Rightarrow> 'x NeutronAPISpecCore_scheme" where
  "SpecCore_Default d spec =
     (let s1 = (if APITimeout spec = 0 then spec\<lparr>APITimeout := DefaultAPITimeout d\<rparr> else spec)
      in if Cluster (MessagingBus s1) = []
         then s1\<lparr>MessagingBus := (MessagingBus s1)\<lparr>Cluster := ''rabbitmq''\<rparr>\<rparr>
         else s1)"

definition Spec_Default :: "NeutronAPIDefaults \<Rightarrow> NeutronAPISpec \<Rightarrow> NeutronAPISpec" where
  "Spec_Default d spec =
     SpecCore_Default d
       (if ContainerImage spec = [] then spec\<lparr>ContainerImage := ContainerImageURL d\<rparr> else spec)"

definition Default :: "NeutronAPIDefaults \<Rightarrow> NeutronAPI \<Rightarrow> NeutronAPI" where
  "Default d r = r\<lparr>Spec := Spec_Default d (Spec r)\<rparr>"

section \<open>Validation\<close>

type_synonym path = "string list"

datatype fielderr = FieldInvalid path string string | LibFieldErr opaque

record DeprecatedFieldUpdate =
  DeprecatedFieldName :: string
  NewFieldPath :: "string list"
  OldDeprecatedValue :: "string option"
  NewDeprecatedValue :: "string option"
  NewValue :: "string option"

record DeprecatedField =
  DF_Name :: string
  DF_NewFieldPath :: "string list"
  DF_DeprecatedValue :: "string option"
  DF_NewValue :: "string option"

record weblib =
  ValidateRoutedOverrides :: "path \<Rightarrow> (endpoint \<rightharpoonup> RoutedOverrideSpec) \<Rightarrow> fielderr list"
  ValidateTopologyRef :: "TopoRef option \<Rightarrow> path \<Rightarrow> string \<Rightarrow> fielderr list"
  ValidateDeprecatedFieldsUpdate ::
    "DeprecatedFieldUpdate list \<Rightarrow> path \<Rightarrow> string list \<times> fielderr list"
  ValidateDeprecatedFieldsCreate :: "DeprecatedField list \<Rightarrow> path \<Rightarrow> string list"

text \<open>The loop ranges over a Go map: the list is in the iteration order of the run.\<close>

fun ValidateDefaultConfigOverwrite :: "path \<Rightarrow> (string \<times> string) list \<Rightarrow> fielderr list" where
  "ValidateDefaultConfigOverwrite basePath [] = []"
| "ValidateDefaultConfigOverwrite basePath ((requested, v) # rest) =
     (if requested \<noteq> ''policy.yaml''
      then FieldInvalid (basePath @ [''defaultConfigOverwrite'']) requested
             ''Only the following keys are valid: policy.yaml''
           # ValidateDefaultConfigOverwrite basePath rest
      else ValidateDefaultConfigOverwrite basePath rest)"

definition ValidateTopology ::
  "weblib \<Rightarrow> 'x NeutronAPISpecCore_scheme \<Rightarrow> path \<Rightarrow> string \<Rightarrow> fielderr list" where
  "ValidateTopology W spec basePath ns =
     ValidateTopologyRef W (TopologyRef spec) (basePath @ [''topologyRef'']) ns"

definition SpecCore_ValidateCreate ::
  "weblib \<Rightarrow> 'x NeutronAPISpecCore_scheme \<Rightarrow> path \<Rightarrow> string \<Rightarrow> string list \<times> fielderr list" where
  "SpecCore_ValidateCreate W r basePath ns =
     ([], ValidateRoutedOverrides W (basePath @ [''override'', ''service'']) (OverrideService r)
          @ ValidateDefaultConfigOverwrite basePath (DefaultConfigOverwrite r)
          @ ValidateTopology W r basePath ns)"

definition getDeprecatedFields ::
  "'x NeutronAPISpecCore_scheme \<Rightarrow> 'x NeutronAPISpecCore_scheme option
     \<Rightarrow> DeprecatedFieldUpdate list" where
  "getDeprecatedFields spec old =
     [\<lparr>DeprecatedFieldName = ''rabbitMqClusterName'',
       NewFieldPath = [''messagingBus'', ''cluster''],
       OldDeprecatedValue = map_option RabbitMqClusterName old,
       NewDeprecatedValue = Some (RabbitMqClusterName spec),
       NewValue = Some (Cluster (MessagingBus spec))\<rparr>,
      \<lparr>DeprecatedFieldName = ''notificationsBusInstance'',
       NewFieldPath = [''notificationsBus'', ''cluster''],
       OldDeprecatedValue = Option.bind old NotificationsBusInstance,
       NewDeprecatedValue = NotificationsBusInstance spec,
       NewValue = map_option Cluster (NotificationsBus spec)\<rparr>]"

definition validateDeprecatedFieldsCreate ::
  "weblib \<Rightarrow> 'x NeutronAPISpecCore_scheme \<Rightarrow> path \<Rightarrow> string list \<times> fielderr list" where
  "validateDeprecatedFieldsCreate W spec basePath =
     (ValidateDeprecatedFieldsCreate W
        (map (\<lambda>df. \<lparr>DF_Name = DeprecatedFieldName df, DF_NewFieldPath = NewFieldPath df,
                    DF_DeprecatedValue = NewDeprecatedValue df, DF_NewValue = NewValue df\<rparr>)
             (getDeprecatedFields spec None)) basePath, [])"

definition validateDeprecatedFieldsUpdate ::
  "weblib \<Rightarrow> 'x NeutronAPISpecCore_scheme \<Rightarrow> 'x NeutronAPISpecCore_scheme \<Rightarrow> path
     \<Rightarrow> string list \<times> fielderr list" where
  "validateDeprecatedFieldsUpdate W spec old basePath =
     ValidateDeprecatedFieldsUpdate W (getDeprecatedFields spec (Some old)) basePath"

definition SpecCore_ValidateUpdate ::
  "weblib \<Rightarrow> 'x NeutronAPISpecCore_scheme \<Rightarrow> 'x NeutronAPISpecCore_scheme \<Rightarrow> path \<Rightarrow> string
     \<Rightarrow> string list \<times> fielderr list" where
  "SpecCore_ValidateUpdate W spec old basePath ns =
     (let (warns, errs) = validateDeprecatedFieldsUpdate W spec old basePath
      in (warns,
          errs
          @ ValidateRoutedOverrides W (basePath @ [''override'', ''service''])
              (OverrideService spec)
          @ ValidateDefaultConfigOverwrite basePath (DefaultConfigOverwrite spec)
          @ ValidateTopology W spec basePath ns))"

text \<open>The error of an admission method.\<close>

datatype admission_error =
    Invalid string "fielderr list"
  | InternalError string
  | InvalidObjectType

definition ValidateCreate :: "weblib \<Rightarrow> NeutronAPI \<Rightarrow> string list \<times> admission_error option" where
  "ValidateCreate W r =
     (let (warns, errs) = SpecCore_ValidateCreate W (Spec r) [''spec''] (Namespace r)
      in if length errs \<noteq> 0 then (warns, Some (Invalid (Name r) errs)) else (warns, None))"

text \<open>A \<^verbatim>\<open>runtime.Object\<close>: a \<^verbatim>\<open>*NeutronAPI\<close>, which may be a nil pointer, or another type.\<close>

datatype runtimeObject = NeutronAPIPtr "NeutronAPI option" | OtherObject opaque

definition ValidateUpdate ::
  "weblib \<Rightarrow> NeutronAPI \<Rightarrow> runtimeObject \<Rightarrow> string list \<times> admission_error option" where
  "ValidateUpdate W r old = (case old of
      NeutronAPIPtr (Some oldNeutronAPI) \<Rightarrow>
        (let (warns, errs) =
               SpecCore_ValidateUpdate W (Spec r) (Spec oldNeutronAPI) [''spec''] (Namespace r)
         in if length errs \<noteq> 0 then (warns, Some (Invalid (Name r) errs)) else (warns, None))
    | _ \<Rightarrow> ([], Some (InternalError ''unable to convert existing object'')))"

definition ValidateDelete :: "NeutronAPI \<Rightarrow> string list \<times> admission_error option" where
  "ValidateDelete r = ([], None)"

section \<open>Route annotations\<close>

definition haProxyAnno :: string where
  "haProxyAnno = ''haproxy.router.openshift.io/timeout''"

definition neutronAnno :: string where
  "neutronAnno = ''api.neutron.openstack.org/timeout''"

definition timeout_str :: "int \<Rightarrow> string" where
  "timeout_str n = fmt_d n @ ''s''"

definition GetDefaultRouteAnnotations :: "NeutronAPIDefaults \<Rightarrow> (string \<rightharpoonup> string)" where
  "GetDefaultRouteAnnotations d = [haProxyAnno \<mapsto> timeout_str (DefaultAPITimeout d)]"

text \<open>
  The map is changed in place; the result is the map afterwards. The argument \<open>None\<close> is the nil map,
  which reads as empty; the result \<open>None\<close> is the panic of an assignment to it.
\<close>

definition SetDefaultRouteAnnotations ::
  "'x NeutronAPISpecCore_scheme \<Rightarrow> (string \<rightharpoonup> string) option \<Rightarrow> (string \<rightharpoonup> string) option" where
  "SetDefaultRouteAnnotations spec annotations =
     (let entry = (\<lambda>k. case annotations of None \<Rightarrow> None | Some m \<Rightarrow> m k);
          timeout = timeout_str (APITimeout spec);
          assigned = map_option (\<lambda>m. m(neutronAnno \<mapsto> timeout, haProxyAnno \<mapsto> timeout)) annotations
      in case (entry neutronAnno, entry haProxyAnno) of
        (None, Some _) \<Rightarrow> annotations
      | (Some valNeutronAPI, Some valHAProxy) \<Rightarrow>
          if valNeutronAPI \<noteq> valHAProxy then map_option (\<lambda>m. m(neutronAnno := None)) annotations
          else assigned
      | (_, None) \<Rightarrow> assigned)"

section \<open>The admission handlers\<close>

text \<open>
  \<open>None\<close> is the panic of a method call on a nil \<^verbatim>\<open>*NeutronAPI\<close>. The handlers read the name of
  the object for their log line before anything else.
\<close>

definition CustomDefaulter_Default ::
  "NeutronAPIDefaults \<Rightarrow> runtimeObject \<Rightarrow> (admission_error + NeutronAPI) option" where
  "CustomDefaulter_Default d obj = (case obj of
      NeutronAPIPtr (Some n) \<Rightarrow> Some (Inr (Default d n))
    | NeutronAPIPtr None \<Rightarrow> None
    | OtherObject _ \<Rightarrow> Some (Inl InvalidObjectType))"

definition CustomValidator_ValidateCreate ::
  "weblib \<Rightarrow> runtimeObject \<Rightarrow> (string list \<times> admission_error option) option" where
  "CustomValidator_ValidateCreate W obj = (case obj of
      NeutronAPIPtr (Some n) \<Rightarrow> Some (ValidateCreate W n)
    | NeutronAPIPtr None \<Rightarrow> None
    | OtherObject _ \<Rightarrow> Some ([], Some InvalidObjectType))"

definition CustomValidator_ValidateUpdate ::
  "weblib \<Rightarrow> runtimeObject \<Rightarrow> runtimeObject \<Rightarrow> (string list \<times> admission_error option) option" where
  "CustomValidator_ValidateUpdate W oldObj newObj = (case newObj of
      NeutronAPIPtr (Some n) \<Rightarrow> Some (ValidateUpdate W n oldObj)
    | NeutronAPIPtr None \<Rightarrow> None
    | OtherObject _ \<Rightarrow> Some ([], Some InvalidObjectType))"

definition CustomValidator_ValidateDelete ::
  "runtimeObject \<Rightarrow> (string list \<times> admission_error option) option" where
  "CustomValidator_ValidateDelete obj = (case obj of
      NeutronAPIPtr (Some n) \<Rightarrow> Some (ValidateDelete n)
    | NeutronAPIPtr None \<Rightarrow> None
    | OtherObject _ \<Rightarrow> Some ([], Some InvalidObjectType))"

section \<open>Properties\<close>

lemma ValidateDefaultConfigOverwrite_Nil:
  "ValidateDefaultConfigOverwrite p ovs = [] \<longleftrightarrow> set (map fst ovs) \<subseteq> {''policy.yaml''}"
  by (induction p ovs rule: ValidateDefaultConfigOverwrite.induct) auto

lemma ValidateDefaultConfigOverwrite_length:
  "length (ValidateDefaultConfigOverwrite p ovs) =
   length (filter (\<lambda>(k, v). k \<noteq> ''policy.yaml'') ovs)"
  by (induction p ovs rule: ValidateDefaultConfigOverwrite.induct) auto

lemma SpecCore_Default_APITimeout:
  "APITimeout (SpecCore_Default d s) = (if APITimeout s = 0 then DefaultAPITimeout d else APITimeout s)"
  by (simp add: SpecCore_Default_def Let_def)

lemma SpecCore_Default_Cluster:
  "Cluster (MessagingBus (SpecCore_Default d s)) =
   (if Cluster (MessagingBus s) = [] then ''rabbitmq'' else Cluster (MessagingBus s))"
  by (simp add: SpecCore_Default_def Let_def)

lemma SpecCore_Default_image:
  "ContainerImage (SpecCore_Default d s) = ContainerImage s"
  "NotificationsBus (SpecCore_Default d s) = NotificationsBus s"
  by (simp_all add: SpecCore_Default_def Let_def)

lemma SpecCore_Default_settled:
  "APITimeout s \<noteq> 0 \<Longrightarrow> Cluster (MessagingBus s) \<noteq> [] \<Longrightarrow> SpecCore_Default d s = s"
  by (simp add: SpecCore_Default_def)

lemmas SpecCore_Default_simps = SpecCore_Default_APITimeout SpecCore_Default_Cluster
  SpecCore_Default_image

lemma Spec_Default_simps:
  "APITimeout (Spec_Default d s) = (if APITimeout s = 0 then DefaultAPITimeout d else APITimeout s)"
  "Cluster (MessagingBus (Spec_Default d s)) =
    (if Cluster (MessagingBus s) = [] then ''rabbitmq'' else Cluster (MessagingBus s))"
  "ContainerImage (Spec_Default d s) =
    (if ContainerImage s = [] then ContainerImageURL d else ContainerImage s)"
  "NotificationsBus (Spec_Default d s) = NotificationsBus s"
  by (cases "ContainerImage s = []"; simp add: Spec_Default_def SpecCore_Default_simps)+

lemma Spec_Default_rest:
  "(Spec_Default d s)\<lparr>ContainerImage := ContainerImage s, APITimeout := APITimeout s,
      MessagingBus := (MessagingBus (Spec_Default d s))\<lparr>Cluster := Cluster (MessagingBus s)\<rparr>\<rparr> = s"
  by (cases s) (simp add: Spec_Default_def SpecCore_Default_def Let_def)

lemma Spec_Default_idem:
  assumes "ContainerImageURL d \<noteq> []" and "DefaultAPITimeout d \<noteq> 0"
  shows "Spec_Default d (Spec_Default d s) = Spec_Default d s"
proof -
  have "ContainerImage (Spec_Default d s) \<noteq> []" and "APITimeout (Spec_Default d s) \<noteq> 0"
    and "Cluster (MessagingBus (Spec_Default d s)) \<noteq> []"
    using assms by (simp_all add: Spec_Default_simps)
  then show ?thesis
    by (subst Spec_Default_def) (simp add: SpecCore_Default_settled)
qed

text \<open>
  C24. Defaulting fills only what is empty and does it once: applied twice it gives what it
  gives once; a container image, timeout or messaging cluster the user set is kept, and after
  it the three are set whenever the operator's own defaults are; and apart from these three
  fields the resource, its metadata and status included, is what it was. In particular the
  notifications bus is not defaulted.
\<close>

theorem Default_idempotent_and_conservative:
  assumes "ContainerImageURL d \<noteq> []" and "DefaultAPITimeout d \<noteq> 0"
  shows "Default d (Default d r) = Default d r \<and>
    ContainerImage (Spec (Default d r)) =
      (if ContainerImage (Spec r) = [] then ContainerImageURL d else ContainerImage (Spec r)) \<and>
    APITimeout (Spec (Default d r)) =
      (if APITimeout (Spec r) = 0 then DefaultAPITimeout d else APITimeout (Spec r)) \<and>
    Cluster (MessagingBus (Spec (Default d r))) =
      (if Cluster (MessagingBus (Spec r)) = [] then ''rabbitmq''
       else Cluster (MessagingBus (Spec r))) \<and>
    (Default d r)\<lparr>Spec := (Spec (Default d r))
       \<lparr>ContainerImage := ContainerImage (Spec r), APITimeout := APITimeout (Spec r),
        MessagingBus := (MessagingBus (Spec (Default d r)))\<lparr>Cluster := Cluster (MessagingBus (Spec r))\<rparr>\<rparr>\<rparr> = r"
  by (simp add: Default_def Spec_Default_idem [OF assms] Spec_Default_simps Spec_Default_rest)

text \<open>A resource with no field set, for evaluated instances.\<close>

definition blank_rabbit :: RabbitMqConfig where
  "blank_rabbit = \<lparr>Cluster = [], User = [], Vhost = []\<rparr>"

definition blank_spec :: NeutronAPISpec where
  "blank_spec = \<lparr>APITimeout = 0, ServiceUser = [], DatabaseInstance = [], DatabaseAccount = [],
     RabbitMqClusterName = [], MessagingBus = blank_rabbit, NotificationsBus = None,
     MemcachedInstance = [], Replicas = None, Secret = [], PasswordSelectorsService = [],
     NodeSelector = None, PreserveJobs = False, CorePlugin = [], Ml2MechanismDrivers = [],
     CustomServiceConfig = [], DefaultConfigOverwrite = [], Resources = 0,
     NetworkAttachments = [], ExtraMounts = [], OverrideService = Map.empty,
     TLS = \<lparr>TLS_API = \<lparr>Internal = \<lparr>SecretName = None\<rparr>, Public = \<lparr>SecretName = None\<rparr>\<rparr>,
            CaBundleSecretName = [], Ovn = \<lparr>SecretName = None\<rparr>\<rparr>,
     AuthApplicationCredentialSecret = [], TopologyRef = None, NotificationsBusInstance = None,
     ContainerImage = []\<rparr>"

definition blank_status :: NeutronAPIStatus where
  "blank_status = \<lparr>ReadyCount = 0, Hash = None, StatusConditions = None, DatabaseHostname = [],
     TransportURLSecret = [], StatusNetworkAttachments = None, ApplicationCredentialSecret = [],
     ObservedGeneration = 0, LastAppliedTopology = None, NotificationsTransportURLSecret = None,
     RPCReadyCount = 0, WorkerReadyCount = 0\<rparr>"

definition blank_api :: NeutronAPI where
  "blank_api = \<lparr>Name = ''neutron'', Namespace = ''openstack'', Kind = ''NeutronAPI'',
     Annotations = Map.empty, Finalizers = [], Generation = 1, DeletionTimestamp = None,
     Spec = blank_spec, Status = blank_status\<rparr>"

theorem Default_idempotent_and_conservative_witness:
  "Default (SetupDefaults (\<lambda>n v. v)) (Default (SetupDefaults (\<lambda>n v. v)) blank_api) =
     Default (SetupDefaults (\<lambda>n v. v)) blank_api \<and>
   Cluster (MessagingBus (Spec (Default (SetupDefaults (\<lambda>n v. v)) blank_api))) = ''rabbitmq''"
proof -
  have d: "ContainerImageURL (SetupDefaults (\<lambda>n v. v)) \<noteq> []"
    "DefaultAPITimeout (SetupDefaults (\<lambda>n v. v)) \<noteq> 0"
    by (simp_all add: SetupDefaults_def NeutronAPIContainerImage_def)
  show ?thesis
    using Default_idempotent_and_conservative [OF d, of blank_api]
    by (simp add: blank_api_def blank_spec_def blank_rabbit_def)
qed

text \<open>
  C25. A create request is refused exactly when the override keys or the topology reference are
  refused by the libraries, or \<^verbatim>\<open>defaultConfigOverwrite\<close> has a key other than
  \<^verbatim>\<open>policy.yaml\<close>; there is one error per such key, and no warning is ever given, whatever
  deprecated fields the request uses.
\<close>

theorem ValidateCreate_decision:
  "(snd (ValidateCreate W r) = None \<longleftrightarrow>
      ValidateRoutedOverrides W [''spec'', ''override'', ''service''] (OverrideService (Spec r)) = [] \<and>
      set (map fst (DefaultConfigOverwrite (Spec r))) \<subseteq> {''policy.yaml''} \<and>
      ValidateTopologyRef W (TopologyRef (Spec r)) [''spec'', ''topologyRef''] (Namespace r) = []) \<and>
   fst (ValidateCreate W r) = []"
  by (auto simp: ValidateCreate_def SpecCore_ValidateCreate_def ValidateTopology_def
      ValidateDefaultConfigOverwrite_Nil)

text \<open>
  C26. An update is accepted only if a create of the new object would be, and then exactly when
  the deprecated-field check of the two deprecated fields accepts it too; its warnings are
  those of that check. An old object of another type, or a nil one, is an internal error.
\<close>

theorem ValidateUpdate_decision:
  "(snd (ValidateUpdate W r (NeutronAPIPtr (Some old))) = None \<longleftrightarrow>
      snd (ValidateCreate W r) = None \<and>
      snd (ValidateDeprecatedFieldsUpdate W
             (getDeprecatedFields (Spec r) (Some (Spec old))) [''spec'']) = []) \<and>
   fst (ValidateUpdate W r (NeutronAPIPtr (Some old))) =
      fst (ValidateDeprecatedFieldsUpdate W
             (getDeprecatedFields (Spec r) (Some (Spec old))) [''spec'']) \<and>
   ValidateUpdate W r (NeutronAPIPtr None) =
      ([], Some (InternalError ''unable to convert existing object'')) \<and>
   ValidateUpdate W r (OtherObject z) =
      ([], Some (InternalError ''unable to convert existing object''))"
  by (auto simp: ValidateUpdate_def ValidateCreate_def SpecCore_ValidateUpdate_def
      SpecCore_ValidateCreate_def validateDeprecatedFieldsUpdate_def split: prod.splits)

lemma annos_differ [simp]: "neutronAnno \<noteq> haProxyAnno" "haProxyAnno \<noteq> neutronAnno"
  by (simp_all add: neutronAnno_def haProxyAnno_def)

lemma SetDefaultRouteAnnotations_Some:
  "SetDefaultRouteAnnotations spec (Some a) =
     Some (if a haProxyAnno = None \<or> a neutronAnno = a haProxyAnno
           then a(neutronAnno \<mapsto> timeout_str (APITimeout spec), haProxyAnno \<mapsto> timeout_str (APITimeout spec))
           else a(neutronAnno := None))"
  by (cases "a neutronAnno"; cases "a haProxyAnno")
     (auto simp: SetDefaultRouteAnnotations_def Let_def fun_upd_idem_iff)

lemma SetDefaultRouteAnnotations_nil: "SetDefaultRouteAnnotations spec None = None"
  by (simp add: SetDefaultRouteAnnotations_def)

text \<open>
  C27. The route's HAProxy timeout is overwritten with the API timeout exactly when it is absent
  or still equals the operator's own mark; a value a human set is kept and the mark is dropped;
  other annotations are never touched; and doing it twice is doing it once. A nil map, which has
  neither annotation, is assigned to and panics; no other map does.
\<close>

theorem SetDefaultRouteAnnotations_manual_override:
  "SetDefaultRouteAnnotations spec None = None \<and>
   (\<exists>b. SetDefaultRouteAnnotations spec (Some a) = Some b \<and>
     b haProxyAnno =
       (if a haProxyAnno = None \<or> a neutronAnno = a haProxyAnno
        then Some (timeout_str (APITimeout spec)) else a haProxyAnno) \<and>
     b neutronAnno =
       (if a haProxyAnno = None \<or> a neutronAnno = a haProxyAnno
        then Some (timeout_str (APITimeout spec)) else None) \<and>
     (k = neutronAnno \<or> k = haProxyAnno \<or> b k = a k) \<and>
     SetDefaultRouteAnnotations spec (Some b) = Some b)"
  by (cases "a haProxyAnno = None \<or> a neutronAnno = a haProxyAnno")
     (auto simp: SetDefaultRouteAnnotations_nil SetDefaultRouteAnnotations_Some)

section \<open>Admission as a whole\<close>

lemma ValidateCreate_Default: "ValidateCreate W (Default d n) = ValidateCreate W n"
proof -
  have "SpecCore_ValidateCreate W (Spec_Default d s) p ns = SpecCore_ValidateCreate W s p ns"
    for s p ns
    by (simp add: SpecCore_ValidateCreate_def ValidateTopology_def Spec_Default_def
        SpecCore_Default_def Let_def)
  then show ?thesis by (simp add: ValidateCreate_def Default_def cong: if_cong)
qed

lemma ValidateUpdate_accepts:
  "snd (ValidateUpdate W r (NeutronAPIPtr (Some old))) = None \<longleftrightarrow>
   snd (ValidateCreate W r) = None \<and>
   snd (ValidateDeprecatedFieldsUpdate W (getDeprecatedFields (Spec r) (Some (Spec old))) [''spec'']) = []"
  by (auto simp: ValidateUpdate_def ValidateCreate_def SpecCore_ValidateUpdate_def
      SpecCore_ValidateCreate_def validateDeprecatedFieldsUpdate_def split: prod.splits)

lemma ValidateCreate_accepts:
  "snd (ValidateCreate W r) = None \<longleftrightarrow>
   ValidateRoutedOverrides W [''spec'', ''override'', ''service''] (OverrideService (Spec r)) = [] \<and>
   set (map fst (DefaultConfigOverwrite (Spec r))) \<subseteq> {''policy.yaml''} \<and>
   ValidateTopologyRef W (TopologyRef (Spec r)) [''spec'', ''topologyRef''] (Namespace r) = []"
  by (auto simp: ValidateCreate_def SpecCore_ValidateCreate_def ValidateTopology_def
      ValidateDefaultConfigOverwrite_Nil)

text \<open>
  What is asked of an object of the user, before defaulting: valid overrides, no configuration file
  but \<^verbatim>\<open>policy.yaml\<close> overwritten and a valid topology reference.
\<close>

definition admissible :: "weblib \<Rightarrow> NeutronAPI \<Rightarrow> bool" where
  "admissible W n \<longleftrightarrow>
     ValidateRoutedOverrides W [''spec'', ''override'', ''service''] (OverrideService (Spec n)) = [] \<and>
     set (map fst (DefaultConfigOverwrite (Spec n))) \<subseteq> {''policy.yaml''} \<and>
     ValidateTopologyRef W (TopologyRef (Spec n)) [''spec'', ''topologyRef''] (Namespace n) = []"

text \<open>
  C28. A request goes through the defaulting handler and then through the validating one. For an
  object \<open>n\<close> of the user the first hands \<open>m\<close> to the second, the object with its defaults. A create is
  accepted exactly if \<open>n\<close> is admissible, without warning. An update is accepted exactly if \<open>n\<close> is
  admissible and the check of the deprecated fields accepts the change, where this check sees a
  messaging cluster the user left empty as the default one; with an old object of another type
  it fails. A delete is always accepted. Objects of another type are refused by all four handlers,
  and a nil object makes each of them panic.
\<close>

theorem admission_handlers:
  "(\<exists>m. CustomDefaulter_Default d (NeutronAPIPtr (Some n)) = Some (Inr m) \<and>
     (\<exists>e. CustomValidator_ValidateCreate W (NeutronAPIPtr (Some m)) = Some ([], e) \<and>
        (e = None \<longleftrightarrow> admissible W n)) \<and>
     (\<exists>ws e. CustomValidator_ValidateUpdate W (NeutronAPIPtr (Some old)) (NeutronAPIPtr (Some m)) = Some (ws, e) \<and>
        (e = None \<longleftrightarrow> admissible W n \<and>
           snd (ValidateDeprecatedFieldsUpdate W
             [\<lparr>DeprecatedFieldName = ''rabbitMqClusterName'', NewFieldPath = [''messagingBus'', ''cluster''],
               OldDeprecatedValue = Some (RabbitMqClusterName (Spec old)),
               NewDeprecatedValue = Some (RabbitMqClusterName (Spec n)),
               NewValue = Some (if Cluster (MessagingBus (Spec n)) = [] then ''rabbitmq''
                                else Cluster (MessagingBus (Spec n)))\<rparr>,
              \<lparr>DeprecatedFieldName = ''notificationsBusInstance'', NewFieldPath = [''notificationsBus'', ''cluster''],
               OldDeprecatedValue = NotificationsBusInstance (Spec old),
               NewDeprecatedValue = NotificationsBusInstance (Spec n),
               NewValue = map_option Cluster (NotificationsBus (Spec n))\<rparr>] [''spec'']) = [])) \<and>
     CustomValidator_ValidateUpdate W (OtherObject z) (NeutronAPIPtr (Some m)) =
       Some ([], Some (InternalError ''unable to convert existing object''))) \<and>
   CustomValidator_ValidateDelete (NeutronAPIPtr (Some n)) = Some ([], None) \<and>
   CustomDefaulter_Default d (OtherObject z) = Some (Inl InvalidObjectType) \<and>
   CustomValidator_ValidateCreate W (OtherObject z) = Some ([], Some InvalidObjectType) \<and>
   CustomValidator_ValidateUpdate W obj (OtherObject z) = Some ([], Some InvalidObjectType) \<and>
   CustomValidator_ValidateDelete (OtherObject z) = Some ([], Some InvalidObjectType) \<and>
   CustomDefaulter_Default d (NeutronAPIPtr None) = None \<and>
   CustomValidator_ValidateCreate W (NeutronAPIPtr None) = None \<and>
   CustomValidator_ValidateUpdate W obj (NeutronAPIPtr None) = None \<and>
   CustomValidator_ValidateDelete (NeutronAPIPtr None) = None"
proof -
  let ?m = "Default d n"
  have accepted: "snd (ValidateCreate W ?m) = None \<longleftrightarrow> admissible W n"
    unfolding ValidateCreate_Default ValidateCreate_accepts admissible_def ..
  have fields: "getDeprecatedFields (Spec ?m) (Some (Spec old)) =
    [\<lparr>DeprecatedFieldName = ''rabbitMqClusterName'', NewFieldPath = [''messagingBus'', ''cluster''],
      OldDeprecatedValue = Some (RabbitMqClusterName (Spec old)),
      NewDeprecatedValue = Some (RabbitMqClusterName (Spec n)),
      NewValue = Some (if Cluster (MessagingBus (Spec n)) = [] then ''rabbitmq''
                       else Cluster (MessagingBus (Spec n)))\<rparr>,
     \<lparr>DeprecatedFieldName = ''notificationsBusInstance'', NewFieldPath = [''notificationsBus'', ''cluster''],
      OldDeprecatedValue = NotificationsBusInstance (Spec old),
      NewDeprecatedValue = NotificationsBusInstance (Spec n),
      NewValue = map_option Cluster (NotificationsBus (Spec n))\<rparr>]"
    by (simp add: getDeprecatedFields_def Default_def Spec_Default_simps)
       (simp add: Spec_Default_def SpecCore_Default_def Let_def)
  have warn: "fst (ValidateCreate W ?m) = []"
    by (simp add: ValidateCreate_def SpecCore_ValidateCreate_def)
  show ?thesis
    using accepted warn ValidateUpdate_accepts [of W ?m old]
    by (cases "ValidateCreate W ?m"; cases "ValidateUpdate W ?m (NeutronAPIPtr (Some old))")
       (simp add: fields CustomDefaulter_Default_def CustomValidator_ValidateCreate_def
        CustomValidator_ValidateUpdate_def CustomValidator_ValidateDelete_def ValidateDelete_def ValidateUpdate_def)
qed

end
