(* ===== verification/WorkloadContract.thy ===== *)
theory WorkloadContract
  imports Workloads ApiWebhook
begin

text \<open>
  What the reconciler relies on when it hands one of the three Deployments to the cluster:
  the contract \<open>neutron_workload\<close>, its consequences, and its interpretation on the builders
  \<open>Deployment\<close>, \<open>RPCDeployment\<close> and \<open>WorkerDeployment\<close>; then the properties of the pods.
\<close>

type_synonym builder =
  "podlib \<Rightarrow> NeutronAPI \<Rightarrow> string \<Rightarrow> (string \<rightharpoonup> string) \<Rightarrow> (string \<rightharpoonup> string) \<Rightarrow> opaque option
     \<Rightarrow> Memcached \<Rightarrow> DeploymentObj res"

abbreviation pod_of :: "DeploymentObj \<Rightarrow> PodSpec" where
  "pod_of d \<equiv> PodOf (Template d)"

section \<open>The contract of a Neutron workload\<close>

locale neutron_workload =
  fixes build :: builder and nm :: string
  assumes identity: "build L i h ls an t mc = Ok d \<Longrightarrow>
      DeplName d = nm \<and> DeplNamespace d = Namespace i \<and> MatchLabels d = ls"
    and account: "pod_laws L \<Longrightarrow> build L i h ls an t mc = Ok d \<Longrightarrow>
      ServiceAccountName (pod_of d) = RbacResourceName i \<and>
      AutomountServiceAccountToken (pod_of d) = Some False \<and> TmplLabels (Template d) = ls"
    and runs: "pod_laws L \<Longrightarrow> build L i h ls an t mc = Ok d \<Longrightarrow> Containers (pod_of d) \<noteq> []"
    and container: "pod_laws L \<Longrightarrow> build L i h ls an t mc = Ok d \<Longrightarrow>
      c \<in> set (Containers (pod_of d)) \<Longrightarrow>
      Image c = ContainerImage (Spec i) \<and>
      (\<exists>m. Env c = MergeEnvs L [] m \<and> distinct (map fst m) \<and>
           (''CONFIG_HASH'', SetValue L h) \<in> set m)"
    and mounted: "pod_laws L \<Longrightarrow> extra_mounts_ok L (ExtraMounts (Spec i)) NeutronAPIPropagation \<Longrightarrow>
      build L i h ls an t mc = Ok d \<Longrightarrow> c \<in> set (Containers (pod_of d)) \<Longrightarrow>
      mounts_ok (CtrMounts c) (PodVolumes (pod_of d))"
begin

lemma selects_own_pods:
  "pod_laws L \<Longrightarrow> build L i h ls an t mc = Ok d \<Longrightarrow> MatchLabels d = TmplLabels (Template d)"
  using account identity by metis

lemma config_hash_in_env:
  assumes "pod_laws L" and "build L i h ls an t mc = Ok d" and "c \<in> set (Containers (pod_of d))"
  shows "\<lparr>EnvName = ''CONFIG_HASH'', EnvValue = h\<rparr> \<in> set (Env c) \<and> distinct (map EnvName (Env c))"
  using container [OF assms] assms(1) unfolding pod_laws_def by metis

lemma hash_change_changes_template:
  assumes "pod_laws L" and d: "build L i h ls an t mc = Ok d"
    and e: "build L i h' ls an t mc = Ok e" and "h \<noteq> h'"
  shows "Template d \<noteq> Template e"
proof
  assume same: "Template d = Template e"
  obtain c where c: "c \<in> set (Containers (pod_of d))"
    using runs [OF assms(1) d] by (meson last_in_set)
  with same have c': "c \<in> set (Containers (pod_of e))" by simp
  have "\<lparr>EnvName = ''CONFIG_HASH'', EnvValue = h\<rparr> = \<lparr>EnvName = ''CONFIG_HASH'', EnvValue = h'\<rparr>"
  proof (rule inj_onD)
    show "inj_on EnvName (set (Env c))"
      using config_hash_in_env [OF assms(1) d c] by (simp add: distinct_map)
  qed (use config_hash_in_env [OF assms(1) d c] config_hash_in_env [OF assms(1) e c'] in simp_all)
  with \<open>h \<noteq> h'\<close> show False by simp
qed

end

lemma wsgi_env_keys: "distinct (map fst (wsgi_env L h))" "distinct (map fst (config_env L h))"
  by (simp_all add: wsgi_env_def config_env_def)

lemma wsgi_env_hash:
  "(''CONFIG_HASH'', SetValue L h) \<in> set (wsgi_env L h)"
  "(''CONFIG_HASH'', SetValue L h) \<in> set (config_env L h)"
  by (simp_all add: wsgi_env_def config_env_def)

section \<open>The builders meet the contract\<close>

lemma DeploymentE:
  assumes "Deployment L i h ls an t mc w = Ok d"
  obtains vs api httpd where "deployment_volumes L i mc = Ok (vs, api, httpd)"
    and "d = applyPlacement L i
            \<lparr>DeplName = ServiceName, DeplNamespace = Namespace i, MatchLabels = ls,
             DeplReplicas = Replicas (Spec i),
             Template = \<lparr>TmplAnnotations = an, TmplLabels = ls,
               PodOf = pod_spec L i [] (deployment_containers L i h api httpd w) vs\<rparr>\<rparr> t"
  using assms by (auto simp: Deployment_def split: res.splits)

lemma RPCDeploymentE:
  assumes "RPCDeployment L i h ls an t mc = Ok d"
  obtains vs ms where "workerVolumesAndMounts L i mc = Some (vs, ms)"
    and "d = applyPlacement L i
            \<lparr>DeplName = ServiceName @ ''-'' @ RPCDeploymentSuffix, DeplNamespace = Namespace i,
             MatchLabels = ls, DeplReplicas = Some 1,
             Template = \<lparr>TmplAnnotations = an, TmplLabels = ls,
               PodOf = pod_spec L i []
                 [worker_container L i h (ServiceName @ ''-'' @ RPCDeploymentSuffix)
                    NeutronRPCCommand ms] vs\<rparr>\<rparr> t"
  using assms by (auto simp: RPCDeployment_def split: option.splits)

lemma WorkerDeploymentE:
  assumes "WorkerDeployment L i h ls an t mc = Ok d"
  obtains vs ms where "workerVolumesAndMounts L i mc = Some (vs, ms)"
    and "d = applyPlacement L i
            \<lparr>DeplName = ServiceName @ ''-'' @ WorkerDeploymentSuffix, DeplNamespace = Namespace i,
             MatchLabels = ls, DeplReplicas = Some 1,
             Template = \<lparr>TmplAnnotations = an, TmplLabels = ls,
               PodOf = pod_spec L i []
                 ([worker_container L i h (ServiceName @ ''-periodic-workers'')
                     NeutronPeriodicWorkersCommand ms]
                  @ (if IsOVNEnabled i
                     then [worker_container L i h (ServiceName @ ''-ovn-maintenance-worker'')
                             NeutronOVNMaintenanceCommand ms]
                     else [])) vs\<rparr>\<rparr> t"
  using assms by (auto simp: WorkerDeployment_def split: option.splits)

lemma pod_spec_fields [simp]:
  "Containers (pod_spec L i r cs vs) = cs" "PodVolumes (pod_spec L i r cs vs) = vs"
  "ServiceAccountName (pod_spec L i r cs vs) = RbacResourceName i"
  "AutomountServiceAccountToken (pod_spec L i r cs vs) = Some False"
  by (simp_all add: pod_spec_def)

lemma deployment_containers_each:
  assumes "c \<in> set (deployment_containers L i h api httpd w)"
  shows "Image c = ContainerImage (Spec i)"
    and "Env c = MergeEnvs L [] (if w then wsgi_env L h else config_env L h)"
    and "set (CtrMounts c) \<subseteq> set api \<union> set httpd"
  using assms dedupe_subset [of "httpd @ api"]
  by (auto simp: deployment_containers_def Let_def split: if_splits)

lemma deployment_containers_nonempty: "deployment_containers L i h api httpd w \<noteq> []"
  by (simp add: deployment_containers_def Let_def)

lemma worker_container_fields [simp]:
  "Image (worker_container L i h n cmd ms) = ContainerImage (Spec i)"
  "Env (worker_container L i h n cmd ms) = MergeEnvs L [] (wsgi_env L h)"
  "CtrMounts (worker_container L i h n cmd ms) = ms"
  "CtrName (worker_container L i h n cmd ms) = n"
  by (simp_all add: worker_container_def)

lemma mounts_ok_sub: "set ms \<subseteq> set ns \<union> set os \<Longrightarrow> mounts_ok ns vs \<Longrightarrow> mounts_ok os vs \<Longrightarrow> mounts_ok ms vs"
  unfolding mounts_ok_def by blast

interpretation api: neutron_workload
  "\<lambda>L i h ls an t mc. Deployment L i h ls an t mc w" ServiceName for w
proof unfold_locales
  fix L i h ls an t mc d c
  assume L: "pod_laws L" and "Deployment L i h ls an t mc w = Ok d"
    and c: "c \<in> set (Containers (pod_of d))"
  then obtain vs api httpd where vs: "deployment_volumes L i mc = Ok (vs, api, httpd)"
    and pod: "Containers (pod_of d) = deployment_containers L i h api httpd w"
      "PodVolumes (pod_of d) = vs"
    by (elim DeploymentE) (simp add: applyPlacement_pod)
  from c pod have c': "c \<in> set (deployment_containers L i h api httpd w)" by simp
  show "Image c = ContainerImage (Spec i) \<and>
      (\<exists>m. Env c = MergeEnvs L [] m \<and> distinct (map fst m) \<and> (''CONFIG_HASH'', SetValue L h) \<in> set m)"
    using deployment_containers_each(1,2) [OF c'] wsgi_env_keys wsgi_env_hash by (cases w) auto
  assume "extra_mounts_ok L (ExtraMounts (Spec i)) NeutronAPIPropagation"
  from deployment_volumes_ok [OF L this vs] show "mounts_ok (CtrMounts c) (PodVolumes (pod_of d))"
    using mounts_ok_sub [OF deployment_containers_each(3) [OF c']] pod(2) by simp
qed (auto elim!: DeploymentE simp: applyPlacement_pod deployment_containers_nonempty)

interpretation rpc: neutron_workload RPCDeployment "ServiceName @ ''-'' @ RPCDeploymentSuffix"
proof unfold_locales
  fix L i h ls an t mc d c
  assume L: "pod_laws L" and "RPCDeployment L i h ls an t mc = Ok d"
    and "c \<in> set (Containers (pod_of d))"
  then show "Image c = ContainerImage (Spec i) \<and>
      (\<exists>m. Env c = MergeEnvs L [] m \<and> distinct (map fst m) \<and> (''CONFIG_HASH'', SetValue L h) \<in> set m)"
    using wsgi_env_keys wsgi_env_hash by (elim RPCDeploymentE) (auto simp: applyPlacement_pod)
qed (auto elim!: RPCDeploymentE simp: applyPlacement_pod intro: workerVolumesAndMounts_ok)

interpretation worker: neutron_workload WorkerDeployment
  "ServiceName @ ''-'' @ WorkerDeploymentSuffix"
proof unfold_locales
  fix L i h ls an t mc d c
  assume L: "pod_laws L" and "WorkerDeployment L i h ls an t mc = Ok d"
    and "c \<in> set (Containers (pod_of d))"
  then show "Image c = ContainerImage (Spec i) \<and>
      (\<exists>m. Env c = MergeEnvs L [] m \<and> distinct (map fst m) \<and> (''CONFIG_HASH'', SetValue L h) \<in> set m)"
    using wsgi_env_keys wsgi_env_hash
    by (elim WorkerDeploymentE) (auto simp: applyPlacement_pod split: if_splits)
next
  fix L i h ls an t mc d c
  assume L: "pod_laws L" and ex: "extra_mounts_ok L (ExtraMounts (Spec i)) NeutronAPIPropagation"
    and "WorkerDeployment L i h ls an t mc = Ok d" and c: "c \<in> set (Containers (pod_of d))"
  then obtain vs where "workerVolumesAndMounts L i mc = Some (vs, CtrMounts c)"
    and "PodVolumes (pod_of d) = vs"
    by (elim WorkerDeploymentE) (auto simp: applyPlacement_pod split: if_splits)
  with workerVolumesAndMounts_ok [OF L ex]
  show "mounts_ok (CtrMounts c) (PodVolumes (pod_of d))" by simp
qed (auto elim!: WorkerDeploymentE simp: applyPlacement_pod)

section \<open>Properties of the pods\<close>

text \<open>A concrete instance for the examples: no memcached certificate, no TLS.\<close>

definition plain_memcached :: Memcached where
  "plain_memcached = \<lparr>McName = ''memcached'', McReady = True, MTLSCert = [], McServers = ''mc:11211'',
     McServersWithInet = ''inet:mc:11211'', McTLS = False, McMTLSSecret = []\<rparr>"

lemma plain_volumes:
  "GetVolumes plain_pod ''neutron'' [] NeutronAPIPropagation =
     Some [\<lparr>VolName = ''config'', VolSource = SecretSource configMode (''neutron-config'')\<rparr>,
        \<lparr>VolName = ''httpd-config'', VolSource = SecretSource configMode (''neutron-httpd-config'')\<rparr>]"
  by (simp add: GetVolumes_def extra_groups_def)

lemma blank_api_fields:
  "Name blank_api = ''neutron''" "ExtraMounts (Spec blank_api) = []"
  "SecretName (Internal (TLS_API (TLS (Spec blank_api)))) = None"
  "SecretName (Public (TLS_API (TLS (Spec blank_api)))) = None" "\<not> IsOVNEnabled blank_api"
  "Namespace blank_api = ''openstack''" "IsWSGI blank_api" "ContainerImage (Spec blank_api) = []"
  by (simp_all add: blank_api_def blank_spec_def IsOVNEnabled_def IsWSGI_def)

lemma plain_endpoint_certs:
  "SecretName (Internal api) = None \<Longrightarrow> SecretName (Public api) = None \<Longrightarrow>
   endpoint_certs plain_pod api es vs ms = Inr (vs, ms)"
  by (induction es) (simp_all add: endpoint_certs.simps plain_pod_def)

lemma plain_worker_volumes:
  "\<exists>p. workerVolumesAndMounts plain_pod blank_api plain_memcached = Some p"
  by (simp add: workerVolumesAndMounts_shape blank_api_fields plain_volumes ovn_cert_def)

lemma plain_deployment_volumes:
  "\<exists>vs api httpd. deployment_volumes plain_pod blank_api plain_memcached = Ok (vs, api, httpd)"
  by (simp add: deployment_volumes_shape blank_api_fields plain_volumes ovn_cert_def
      plain_endpoint_certs)

lemma plain_RPCDeployment:
  "\<exists>d. RPCDeployment plain_pod blank_api h ls an t plain_memcached = Ok d"
  using plain_worker_volumes by (auto simp: RPCDeployment_def)

lemma plain_Deployment:
  "\<exists>d. Deployment plain_pod blank_api h ls an t plain_memcached w = Ok d"
  using plain_deployment_volumes by (auto simp: Deployment_def)

text \<open>
  C30. A changed configuration rolls the pods: two Deployments built for different
  configuration hashes have different pod templates, for each of the three builders.
\<close>

theorem config_hash_rolls_pods:
  assumes "pod_laws L" and "h \<noteq> h'"
    and "build \<in> set [\<lambda>h. Deployment L i h ls an t mc w, \<lambda>h. RPCDeployment L i h ls an t mc,
                       \<lambda>h. WorkerDeployment L i h ls an t mc]"
    and "build h = Ok d" and "build h' = Ok d'"
  shows "Template d \<noteq> Template d'"
  using assms(3-5) api.hash_change_changes_template [OF assms(1) _ _ assms(2)]
    rpc.hash_change_changes_template [OF assms(1) _ _ assms(2)]
    worker.hash_change_changes_template [OF assms(1) _ _ assms(2)]
  by auto

theorem config_hash_rolls_pods_witness:
  "\<exists>d d'. RPCDeployment plain_pod blank_api ''a'' Map.empty Map.empty None plain_memcached = Ok d \<and>
     RPCDeployment plain_pod blank_api ''b'' Map.empty Map.empty None plain_memcached = Ok d' \<and>
     Template d \<noteq> Template d'"
proof -
  obtain d d' where
    d: "RPCDeployment plain_pod blank_api ''a'' Map.empty Map.empty None plain_memcached = Ok d"
    and d': "RPCDeployment plain_pod blank_api ''b'' Map.empty Map.empty None plain_memcached = Ok d'"
    using plain_RPCDeployment by meson
  have "Template d \<noteq> Template d'"
    by (rule config_hash_rolls_pods [OF plain_pod_laws _ _ d d', where w = True and
          i = blank_api and ls = Map.empty and an = Map.empty and t = None and
          mc = plain_memcached]) simp_all
  with d d' show ?thesis by blast
qed

text \<open>
  C31. Every container of the three Deployments mounts only volumes its pod has, runs the
  image of the spec and carries the configuration hash; the pod runs under the service account
  made for the instance with no token mounted, and the Deployment selects its own pods.
\<close>

theorem workloads_well_formed:
  assumes "pod_laws L" and "extra_mounts_ok L (ExtraMounts (Spec i)) NeutronAPIPropagation"
    and "Ok d \<in> set [Deployment L i h ls an t mc w, RPCDeployment L i h ls an t mc,
                   WorkerDeployment L i h ls an t mc]"
  shows "list_all (\<lambda>c. mounts_ok (CtrMounts c) (PodVolumes (pod_of d)) \<and>
            Image c = ContainerImage (Spec i) \<and>
            \<lparr>EnvName = ''CONFIG_HASH'', EnvValue = h\<rparr> \<in> set (Env c)) (Containers (pod_of d)) \<and>
         Containers (pod_of d) \<noteq> [] \<and>
         ServiceAccountName (pod_of d) = RbacResourceName i \<and>
         AutomountServiceAccountToken (pod_of d) = Some False \<and>
         MatchLabels d = TmplLabels (Template d) \<and> DeplNamespace d = Namespace i"
proof -
  note L = assms(1)
  consider "Deployment L i h ls an t mc w = Ok d" | "RPCDeployment L i h ls an t mc = Ok d"
    | "WorkerDeployment L i h ls an t mc = Ok d"
    using assms(3) by auto
  then show ?thesis
  proof cases
    case 1
    then show ?thesis
      using api.mounted [OF L assms(2) 1] api.container [OF L 1] api.runs [OF L 1]
        api.account [OF L 1] api.identity [OF 1] api.config_hash_in_env [OF L 1]
      by (simp add: list_all_iff)
  next
    case 2
    then show ?thesis
      using rpc.mounted [OF L assms(2) 2] rpc.container [OF L 2] rpc.runs [OF L 2]
        rpc.account [OF L 2] rpc.identity [OF 2] rpc.config_hash_in_env [OF L 2]
      by (simp add: list_all_iff)
  next
    case 3
    then show ?thesis
      using worker.mounted [OF L assms(2) 3] worker.container [OF L 3] worker.runs [OF L 3]
        worker.account [OF L 3] worker.identity [OF 3] worker.config_hash_in_env [OF L 3]
      by (simp add: list_all_iff)
  qed
qed

theorem workloads_well_formed_witness:
  "\<exists>d. Deployment plain_pod blank_api ''a'' Map.empty Map.empty None plain_memcached True = Ok d \<and>
     list_all (\<lambda>c. mounts_ok (CtrMounts c) (PodVolumes (pod_of d))) (Containers (pod_of d))"
proof -
  obtain d where
    d: "Deployment plain_pod blank_api ''a'' Map.empty Map.empty None plain_memcached True = Ok d"
    using plain_Deployment by meson
  have "extra_mounts_ok plain_pod (ExtraMounts (Spec blank_api)) NeutronAPIPropagation"
    by (simp add: extra_mounts_ok_def extra_groups_def blank_api_def blank_spec_def)
  from workloads_well_formed [OF plain_pod_laws this, of d "''a''" Map.empty Map.empty None
      plain_memcached True] d
  show ?thesis by (auto simp: list_all_iff)
qed

text \<open>
  C32. The containers of the API pod follow the strategy: under WSGI one httpd container that
  carries every mount of the API process and mounts no path twice (a pod that mounts a path
  twice is rejected by the cluster); under eventlet the API process followed by its httpd proxy.
\<close>

theorem Deployment_containers_by_strategy:
  assumes "pod_laws L" and "Deployment L i h ls an t mc w = Ok d"
    and "deployment_volumes L i mc = Ok (vs, apiMounts, httpdMounts)"
  shows "map CtrName (Containers (pod_of d)) =
           (if w then [''neutron-httpd''] else [''neutron-api'', ''neutron-httpd'']) \<and>
         (if w then distinct (map MountPath (CtrMounts (hd (Containers (pod_of d))))) \<and>
               MountPath ` set (CtrMounts (hd (Containers (pod_of d)))) =
               MountPath ` (set httpdMounts \<union> set apiMounts)
          else map CtrMounts (Containers (pod_of d)) = [apiMounts, httpdMounts])"
proof -
  have "Containers (pod_of d) = deployment_containers L i h apiMounts httpdMounts w"
    using assms by (elim DeploymentE) (simp add: applyPlacement_pod)
  then show ?thesis
    by (simp add: deployment_containers_def Let_def ServiceName_def dedupe_distinct dedupe_paths)
qed

theorem Deployment_containers_by_strategy_witness:
  "\<exists>d. Deployment plain_pod blank_api ''a'' Map.empty Map.empty None plain_memcached True = Ok d \<and>
     map CtrName (Containers (pod_of d)) = [''neutron-httpd'']"
proof -
  obtain d where
    d: "Deployment plain_pod blank_api ''a'' Map.empty Map.empty None plain_memcached True = Ok d"
    using plain_Deployment by meson
  obtain vs api httpd where
    "deployment_volumes plain_pod blank_api plain_memcached = Ok (vs, api, httpd)"
    using plain_deployment_volumes by blast
  from Deployment_containers_by_strategy [OF plain_pod_laws d this] d show ?thesis by simp
qed

lemma ovn_cert_fewer_volumes:
  assumes "ovn_cert L i vs ms = Some (vs', ms')" and "set ws \<subseteq> set vs"
  shows "\<exists>ws'. ovn_cert L i ws ms = Some (ws', ms') \<and> set ws' \<subseteq> set vs'"
  using assms by (auto simp: ovn_cert_def Let_def split: if_splits option.splits)

lemma worker_volumes_of_api:
  assumes L: "pod_laws L" and "deployment_volumes L i mc = Ok (vs, api, httpd)"
  obtains ws where "workerVolumesAndMounts L i mc = Some (ws, api)" and "set ws \<subseteq> set vs"
  using assms(2)
proof (rule deployment_volumesE)
  fix v0 v3
  let ?v = "((v0 @ [WritableDirVolume L (RunHttpdVolumeName L)]) @ ca_volumes L i) @ mtls_volumes L mc"
  let ?w = "(v0 @ ca_volumes L i) @ mtls_volumes L mc"
  assume v0: "GetVolumes L (Name i) (ExtraMounts (Spec i)) NeutronAPIPropagation = Some v0"
    and certs: "endpoint_certs L (TLS_API (TLS (Spec i))) [EndpointInternal, EndpointPublic] ?v
      (GetHttpdVolumeMount L @ ca_mounts L i) = Inr (v3, httpd)"
    and ovn: "ovn_cert L i v3 (process_mounts L i mc) = Some (vs, api)"
  have "set ?w \<subseteq> set v3" using endpoint_certs_ok [OF L certs] by auto
  from ovn_cert_fewer_volumes [OF ovn this] obtain ws
    where "ovn_cert L i ?w (process_mounts L i mc) = Some (ws, api)" "set ws \<subseteq> set vs"
    by blast
  with v0 show thesis by (intro that) (simp_all add: workerVolumesAndMounts_shape)
qed

text \<open>
  C33. The neutron-rpc and neutron-worker pods see the files of the API process: whenever the API
  Deployment can be built, so can the other two, for any placement; each of their containers has
  the same mounts, which are those of the API container under eventlet and cover paths of the
  httpd container under WSGI; and the volumes of both pods are the same and among those of the
  API pod. The OVN maintenance worker is in the worker pod exactly when OVN is a mechanism driver.
\<close>

theorem worker_mounts_mirror_api:
  assumes L: "pod_laws L" and api: "Deployment L i h ls an t mc w = Ok a"
  shows "\<exists>r k ms. RPCDeployment L i h ls' an t mc = Ok r \<and> WorkerDeployment L i h ls'' an t mc = Ok k \<and>
    map (\<lambda>c. (CtrName c, CtrMounts c)) (Containers (pod_of r)) = [(''neutron-rpc'', ms)] \<and>
    map (\<lambda>c. (CtrName c, CtrMounts c)) (Containers (pod_of k)) = (''neutron-periodic-workers'', ms) #
      (if ''ovn'' \<in> set (Ml2MechanismDrivers (Spec i)) then [(''neutron-ovn-maintenance-worker'', ms)] else []) \<and>
    (if w then MountPath ` set ms \<subseteq> MountPath ` set (CtrMounts (hd (Containers (pod_of a))))
     else ms = CtrMounts (hd (Containers (pod_of a)))) \<and>
    PodVolumes (pod_of r) = PodVolumes (pod_of k) \<and> set (PodVolumes (pod_of r)) \<subseteq> set (PodVolumes (pod_of a))"
proof -
  from api obtain vs ms httpd where vs: "deployment_volumes L i mc = Ok (vs, ms, httpd)"
    and a: "Containers (pod_of a) = deployment_containers L i h ms httpd w" "PodVolumes (pod_of a) = vs"
    by (elim DeploymentE) (simp add: applyPlacement_pod [OF L])
  obtain ws where ws: "workerVolumesAndMounts L i mc = Some (ws, ms)" "set ws \<subseteq> set vs"
    by (rule worker_volumes_of_api [OF L vs])
  have "if w then MountPath ` set ms \<subseteq> MountPath ` set (CtrMounts (hd (Containers (pod_of a))))
     else ms = CtrMounts (hd (Containers (pod_of a)))"
    by (auto simp: a deployment_containers_def Let_def dedupe_paths)
  then show ?thesis
    using ws(2)
    by (simp add: RPCDeployment_def WorkerDeployment_def ws(1) applyPlacement_pod [OF L] a(2) IsOVNEnabled_iff
        ServiceName_def RPCDeploymentSuffix_def)
qed

theorem worker_mounts_mirror_api_witness:
  "\<exists>a r. Deployment plain_pod blank_api ''a'' Map.empty Map.empty None plain_memcached False = Ok a \<and>
     RPCDeployment plain_pod blank_api ''a'' Map.empty Map.empty None plain_memcached = Ok r \<and>
     map CtrMounts (Containers (pod_of r)) = [CtrMounts (hd (Containers (pod_of a)))]"
proof -
  obtain a where a: "Deployment plain_pod blank_api ''a'' Map.empty Map.empty None plain_memcached False = Ok a"
    using plain_Deployment by meson
  from worker_mounts_mirror_api [OF plain_pod_laws a, of Map.empty Map.empty] a show ?thesis by auto
qed

end
