(* ===== verification/Cluster.thy ===== *)
theory Cluster
  imports WorkloadContract "HOL-Library.AList"
begin

text \<open>
  The reconciler's surroundings. Every call of the API server or of a library that talks to it
  is a \<open>call\<close> with its arguments; the answers are the parameter \<open>cluster\<close>, functions of
  the calls made so far with the current one last, so that the environment may change its
  answers between any two calls. The reconciler state is the instance it works on, the input
  hashes collected in \<^verbatim>\<open>secretVars\<close>, and the calls made.
\<close>

section \<open>Data exchanged with the cluster\<close>

record Result =
  Requeue :: bool
  RequeueAfter :: int \<comment> \<open>seconds\<close>

definition NoResult :: Result where
  "NoResult = \<lparr>Requeue = False, RequeueAfter = 0\<rparr>"

definition After :: "int \<Rightarrow> Result" where
  "After n = \<lparr>Requeue = False, RequeueAfter = n\<rparr>"

type_synonym answer = "Result \<times> goerror option"

record TransportURL =
  TUName :: string
  TUSecretName :: string
  TUReady :: bool

record OVNDBCluster =
  ExternalEndpoint :: "goerror + string"
  InternalEndpoint :: "goerror + string"

record KeystoneAPI =
  KeystoneEndpointURL :: "string \<Rightarrow> goerror + string"
  KeystoneRegion :: string

record DB =
  DatabaseClientConfig :: "bool \<Rightarrow> string" \<comment> \<open>whether a TLS config is given\<close>
  DBUserName :: string
  DBSecretData :: "string \<rightharpoonup> string"
  DBHostname :: string

record DeployState =
  DSName :: string
  DSNamespace :: string
  DSGeneration :: int
  DSObservedGeneration :: int
  DSReadyReplicas :: int
  DSIsReady :: bool \<comment> \<open>what \<^verbatim>\<open>deployment.IsReady\<close> says of it\<close>

record ProbeJob =
  PJName :: string
  PJNamespace :: string
  PJImages :: "string list"
  PJSucceeded :: int
  PJFailed :: int

record KeystoneObj =
  KFinalizers :: "string list"
  KConditions :: "Condition list"

datatype validator = NoOpValidator | PasswordValidator

datatype template_type = TemplateTypeConfig | TemplateTypeNone

text \<open>The values a template is rendered with (\<^verbatim>\<open>map[string]any\<close>).\<close>

datatype tval = TStr string | TBool bool | TInt int | TMap "(string \<times> tval) list"

record Tmpl =
  TName :: string
  TNamespace :: string
  TType :: template_type
  TInstanceType :: string
  TCustomData :: "(string \<times> string) list"
  TLabels :: "(string \<times> string) list"
  TConfigOptions :: "(string \<times> tval) list"
  TAdditionalTemplate :: "(string \<times> string) list"
  TCommonTemplates :: "string list"

record PolicyRule =
  APIGroups :: "string list"
  ResourceNames :: "string list"
  PRResources :: "string list"
  Verbs :: "string list"

record ServiceDetails =
  SDName :: string
  SDNamespace :: string
  SDLabels :: "string \<rightharpoonup> string"
  SDSelector :: "string \<rightharpoonup> string"
  SDPortName :: string
  SDPort :: int

record KeystoneServiceSpec =
  KSServiceType :: string
  KSServiceName :: string
  KSServiceDescription :: string
  KSEnabled :: bool
  KSServiceUser :: string
  KSSecret :: string
  KSPasswordSelector :: string

datatype dbtype = NBDBType | SBDBType

datatype (plugins only: code) call =
    GetNeutronAPI string string
  | NewHelper
  | PatchInstance NeutronAPI
  | ReconcileRbac string string "PolicyRule list"
  | CreateOrUpdateTransportURL string string RabbitMqConfig
  | GetTransportURL string string
  | DeleteTransportURL string string
  | ManageSecretConsumerFinalizer string string string
  | RemoveSecretConsumerFinalizer string string string
  | PruneSecretConsumerFinalizers string string "string list"
  | FinalizeSecretRotation string string string string bool
  | VerifySecretFields string string "(string \<times> validator) list" int
  | GetSecret string string
  | GetMemcachedByName string string
  | GetDBClusterByType string dbtype
  | DeleteSecret string string
  | EnsureSecrets "Tmpl list"
  | GetNADWithName string string
  | EnsureNetworksAnnotation "opaque list"
  | EnsureMariaDBAccount string string bool string
  | CreateOrPatchDatabase string string string string string
  | WaitForDBCreated int
  | GetKeystoneAPI string
  | ValidateCACertSecret string string
  | ValidateCertSecrets APIService string
  | ValidateCertSecret GenericService string
  | DoJob JobObj string bool int string
  | DeleteJob string string
  | GetJob string string
  | NewService ServiceDetails int OverrideSpec
  | CreateOrPatchService opaque "(string \<times> string) list"
  | GetAPIEndpoint opaque "string option" "string option" string
  | CreateOrPatchKeystoneService KeystoneServiceSpec string "string \<rightharpoonup> string" int
  | CreateOrPatchKeystoneEndpoint string string string "(string \<times> string) list" "string \<rightharpoonup> string" int
  | EnsureServiceTopology "TopoRef option" "TopoRef option" string "string \<rightharpoonup> string"
  | EnsureDeletedTopologyRef "TopoRef option" string
  | CreateOrPatchDeployment DeploymentObj int
  | VerifyNetworkStatusFromAnnotation "string list" "string \<rightharpoonup> string" int
  | IsReadyForInput string string string
  | DeleteDeployment string string
  | DeleteUnusedMariaDBAccountFinalizers string string string
  | GetDatabaseByNameAndAccount string string string
  | DatabaseDeleteFinalizer
  | GetKeystoneEndpointWithName string string
  | GetKeystoneServiceWithName string string
  | UpdateKeystoneEndpoint KeystoneObj
  | UpdateKeystoneService KeystoneObj

text \<open>The answers: every field is asked with the call history, the current call last.\<close>

record cluster =
  aInstance :: "call list \<Rightarrow> goerror + NeutronAPI"
  aErr :: "call list \<Rightarrow> goerror option" \<comment> \<open>calls that return only an error\<close>
  aResult :: "call list \<Rightarrow> answer"
  aRbac :: "call list \<Rightarrow> Condition list \<times> answer"
  aTransportURL :: "call list \<Rightarrow> goerror + TransportURL"
  aVerify :: "call list \<Rightarrow> string \<times> answer"
  aSecret :: "call list \<Rightarrow> goerror + (string \<rightharpoonup> string)"
  aMemcached :: "call list \<Rightarrow> goerror + Memcached"
  aDBCluster :: "call list \<Rightarrow> goerror + OVNDBCluster"
  aEnsure :: "call list \<Rightarrow> (string \<times> string) list \<times> goerror option"
    \<comment> \<open>the hashes written to the map, and the error\<close>
  aNAD :: "call list \<Rightarrow> goerror + opaque option"
  aAnnotations :: "call list \<Rightarrow> goerror + (string \<rightharpoonup> string)"
  aDB :: "call list \<Rightarrow> answer \<times> DB"
  aKeystoneAPI :: "call list \<Rightarrow> goerror + KeystoneAPI"
  aString :: "call list \<Rightarrow> goerror + string"
  aJob :: "call list \<Rightarrow> answer \<times> bool \<times> string" \<comment> \<open>HasChanged, GetHash\<close>
  aProbeJob :: "call list \<Rightarrow> goerror + ProbeJob"
  aService :: "call list \<Rightarrow> goerror + opaque"
  aKeystone :: "call list \<Rightarrow> answer \<times> Condition list"
  aTopology :: "call list \<Rightarrow> goerror + opaque option"
  aDeployment :: "call list \<Rightarrow> answer \<times> DeployState"
  aNetwork :: "call list \<Rightarrow> goerror + bool \<times> (string \<rightharpoonup> string list)"
  aBool :: "call list \<Rightarrow> goerror + bool"
  aKeystoneObj :: "call list \<Rightarrow> goerror + KeystoneObj"

text \<open>Pure library functions and constants.\<close>

record utillib =
  HelperFinalizer :: string
  AddFinalizer :: "string list \<Rightarrow> string \<Rightarrow> string list \<times> bool"
  RemoveFinalizer :: "string list \<Rightarrow> string \<Rightarrow> string list \<times> bool"
  ObjectHash :: "EnvVar list \<Rightarrow> goerror + string"
  SetHash :: "(string \<rightharpoonup> string) option \<Rightarrow> string \<Rightarrow> string \<Rightarrow> (string \<rightharpoonup> string) option \<times> bool"
  InputHashName :: string
  GetLabels :: "string \<Rightarrow> string \<Rightarrow> (string \<times> string) list"
    \<comment> \<open>instance name and service name\<close>
  GetLabelSelector :: "(string \<rightharpoonup> string) \<Rightarrow> (string \<rightharpoonup> string)"
  MergeStringMaps :: "(string \<rightharpoonup> string) \<Rightarrow> (string \<rightharpoonup> string) \<Rightarrow> (string \<rightharpoonup> string)"
  GetServiceType :: "opaque \<Rightarrow> string"
  GetServiceHostname :: "opaque \<Rightarrow> string"
  EmptyEmbedded :: opaque \<comment> \<open>\<^verbatim>\<open>&service.EmbeddedLabelsAnnotations{}\<close>\<close>
  AnnotationEndpointKey :: string
  AnnotationIngressCreateKey :: string
  AnnotationHostnameKey :: string
  CABundleKey :: string
  ACIDSecretKey :: string
  ACSecretSecretKey :: string
  DatabasePasswordSelector :: string
  CertMountPath :: string
  KeyMountPath :: string
  CaMountPath :: string

record ext =
  cnd :: condlib
  pod :: podlib
  ut :: utillib
  cl :: cluster

section \<open>State and calls\<close>

record rstate =
  inst :: NeutronAPI
  vars :: envvars
  trace :: "call list"

type_synonym 'a reconcile = "(rstate, answer, 'a) prog"

definition invoke :: "(call list \<Rightarrow> 'b) \<Rightarrow> call \<Rightarrow> (rstate, 'r, 'b) prog" where
  "invoke f c = (\<lambda>s. (Next (f (trace s @ [c])), s\<lparr>trace := trace s @ [c]\<rparr>))"

definition the_inst :: "(rstate, 'r, NeutronAPI) prog" where
  "the_inst = reads inst"

definition set_status :: "(NeutronAPIStatus \<Rightarrow> NeutronAPIStatus) \<Rightarrow> (rstate, 'r, unit) prog" where
  "set_status f = update (\<lambda>s. s\<lparr>inst := (inst s)\<lparr>Status := f (Status (inst s))\<rparr>\<rparr>)"

definition on_conds :: "(Condition list \<Rightarrow> Condition list) \<Rightarrow> (rstate, 'r, unit) prog" where
  "on_conds f = set_status (\<lambda>st. st\<lparr>StatusConditions := Some (f (conds st))\<rparr>)"

definition set_cond :: "ext \<Rightarrow> Condition \<Rightarrow> (rstate, 'r, unit) prog" where
  "set_cond E c = on_conds (\<lambda>cs. CSet (cnd E) cs c)"

definition mark_true :: "ext \<Rightarrow> ctype \<Rightarrow> message \<Rightarrow> (rstate, 'r, unit) prog" where
  "mark_true E t m = on_conds (\<lambda>cs. CMarkTrue (cnd E) cs t m)"

definition remove_cond :: "ext \<Rightarrow> ctype \<Rightarrow> (rstate, 'r, unit) prog" where
  "remove_cond E t = on_conds (\<lambda>cs. CRemove (cnd E) cs t)"

definition set_false ::
  "ext \<Rightarrow> ctype \<Rightarrow> reason \<Rightarrow> severity \<Rightarrow> message \<Rightarrow> arg list \<Rightarrow> (rstate, 'r, unit) prog" where
  "set_false E t r v m args = set_cond E (FalseCondition (cnd E) t r v m args)"

text \<open>Writing an entry of \<^verbatim>\<open>secretVars\<close>, and of the hash map of the status (nil panics).\<close>

definition set_var :: "string \<Rightarrow> setter \<Rightarrow> (rstate, 'r, unit) prog" where
  "set_var k v = update (\<lambda>s. s\<lparr>vars := AList.update k v (vars s)\<rparr>)"

definition put_hash :: "string \<Rightarrow> string \<Rightarrow> (rstate, 'r, unit) prog" where
  "put_hash k v =
     andthen the_inst (\<lambda>i. case Hash (Status i) of
        None \<Rightarrow> panic ''assignment to entry in nil map''
      | Some h \<Rightarrow> set_status (\<lambda>st. st\<lparr>Hash := Some (h(k \<mapsto> v))\<rparr>))"

definition delete_hash :: "string \<Rightarrow> (rstate, 'r, unit) prog" where
  "delete_hash k = set_status (\<lambda>st. st\<lparr>Hash := map_option (\<lambda>h. h(k := None)) (Hash st)\<rparr>)"

definition get_hash :: "NeutronAPI \<Rightarrow> string \<Rightarrow> string option" where
  "get_hash i k = (case Hash (Status i) of None \<Rightarrow> None | Some h \<Rightarrow> h k)"

text \<open>\<^verbatim>\<open>if err != nil { return ctrl.Result{}, err }\<close>\<close>

definition or_return :: "goerror option \<Rightarrow> unit reconcile" where
  "or_return e = (case e of None \<Rightarrow> ok () | Some e \<Rightarrow> ret (NoResult, Some e))"

text \<open>\<^verbatim>\<open>if err != nil \<dots> else if (result != ctrl.Result{}) { return result, nil }\<close>\<close>

definition settle :: "answer \<Rightarrow> unit reconcile" where
  "settle a = (case a of
      (r, Some e) \<Rightarrow> ret (r, Some e)
    | (r, None) \<Rightarrow> if r \<noteq> NoResult then ret (r, None) else ok ())"

definition err_arg :: "goerror \<Rightarrow> arg list" where
  "err_arg e = [ErrText e]"

section \<open>Laws of the pure library functions\<close>

definition util_laws :: "utillib \<Rightarrow> bool" where
  "util_laws U \<longleftrightarrow>
     (\<forall>fs f. set (fst (RemoveFinalizer U fs f)) = set fs - {f} \<and>
        snd (RemoveFinalizer U fs f) = (f \<in> set fs)) \<and>
     (\<forall>fs f. set (fst (AddFinalizer U fs f)) = insert f (set fs) \<and>
        snd (AddFinalizer U fs f) = (f \<notin> set fs)) \<and>
     (\<forall>h k v. snd (SetHash U h k v) = ((case h of None \<Rightarrow> None | Some m \<Rightarrow> m k) \<noteq> Some v) \<and>
        (snd (SetHash U h k v) \<longrightarrow> fst (SetHash U h k v) =
           Some ((case h of None \<Rightarrow> Map.empty | Some m \<Rightarrow> m)(k \<mapsto> v))))"

definition plain_util :: utillib where
  "plain_util = \<lparr>
     HelperFinalizer = ''openstack.org/neutronapi'',
     AddFinalizer = (\<lambda>fs f. if f \<in> set fs then (fs, False) else (fs @ [f], True)),
     RemoveFinalizer = (\<lambda>fs f. (filter (\<lambda>g. g \<noteq> f) fs, f \<in> set fs)),
     ObjectHash = (\<lambda>es. Inr (concat (map EnvValue es))),
     SetHash = (\<lambda>h k v. if (case h of None \<Rightarrow> None | Some m \<Rightarrow> m k) \<noteq> Some v
        then (Some ((case h of None \<Rightarrow> Map.empty | Some m \<Rightarrow> m)(k \<mapsto> v)), True) else (h, False)),
     InputHashName = ''input'',
     GetLabels = (\<lambda>n s. [(''owner'', n)]), GetLabelSelector = (\<lambda>m. m),
     MergeStringMaps = (\<lambda>a b. b ++ a),
     GetServiceType = (\<lambda>s. ''ClusterIP''), GetServiceHostname = (\<lambda>s. ''host''),
     EmptyEmbedded = 0, AnnotationEndpointKey = ''endpoint'',
     AnnotationIngressCreateKey = ''core.openstack.org/ingress_create'',
     AnnotationHostnameKey = ''dnsmasq.network.openstack.org/hostname'',
     CABundleKey = ''tls-ca-bundle.pem'', ACIDSecretKey = ''AC_ID'',
     ACSecretSecretKey = ''AC_SECRET'', DatabasePasswordSelector = ''DatabasePassword'',
     CertMountPath = ''/mtls/tls.crt'', KeyMountPath = ''/mtls/tls.key'',
     CaMountPath = ''/mtls/ca.crt''\<rparr>"

lemma plain_util_laws: "util_laws plain_util"
  by (auto simp: util_laws_def plain_util_def)

section \<open>A cluster where everything is in place\<close>

text \<open>The parameter instantiated for the examples: every call succeeds and every object is ready.\<close>

definition plain_cluster :: cluster where
  "plain_cluster = \<lparr>
     aInstance = (\<lambda>_. Inr blank_api), aErr = (\<lambda>_. None), aResult = (\<lambda>_. (NoResult, None)),
     aRbac = (\<lambda>_. ([], NoResult, None)),
     aTransportURL = (\<lambda>_. Inr \<lparr>TUName = ''tu'', TUSecretName = ''tu-secret'', TUReady = True\<rparr>),
     aVerify = (\<lambda>_. (''hash'', NoResult, None)),
     aSecret = (\<lambda>_. Inr [''transport_url'' \<mapsto> ''rabbit://'']),
     aMemcached = (\<lambda>_. Inr plain_memcached),
     aDBCluster = (\<lambda>_. Inr \<lparr>ExternalEndpoint = Inr ''tcp:ext'', InternalEndpoint = Inr ''tcp:int''\<rparr>),
     aEnsure = (\<lambda>cs. (case last cs of EnsureSecrets ts \<Rightarrow> map (\<lambda>t. (TName t, ''h'')) ts | _ \<Rightarrow> [],
        None)),
     aNAD = (\<lambda>_. Inr None), aAnnotations = (\<lambda>_. Inr Map.empty),
     aDB = (\<lambda>_. ((NoResult, None), \<lparr>DatabaseClientConfig = (\<lambda>_. []), DBUserName = ''neutron'',
        DBSecretData = Map.empty, DBHostname = ''db''\<rparr>)),
     aKeystoneAPI = (\<lambda>_. Inr \<lparr>KeystoneEndpointURL = (\<lambda>_. Inr ''http://keystone''),
        KeystoneRegion = ''regionOne''\<rparr>),
     aString = (\<lambda>_. Inr []), aJob = (\<lambda>_. ((NoResult, None), False, [])),
     aProbeJob = (\<lambda>_. Inl (LibErr True ''not found'')), aService = (\<lambda>_. Inr 0),
     aKeystone = (\<lambda>_. ((NoResult, None), [])), aTopology = (\<lambda>_. Inr None),
     aDeployment = (\<lambda>cs. ((NoResult, None),
        (case last cs of
           CreateOrPatchDeployment d n \<Rightarrow>
             \<lparr>DSName = DeplName d, DSNamespace = DeplNamespace d, DSGeneration = 1,
              DSObservedGeneration = 1, DSReadyReplicas = 1, DSIsReady = True\<rparr>
         | _ \<Rightarrow> \<lparr>DSName = [], DSNamespace = [], DSGeneration = 1, DSObservedGeneration = 0,
              DSReadyReplicas = 0, DSIsReady = False\<rparr>))),
     aNetwork = (\<lambda>_. Inr (True, Map.empty)), aBool = (\<lambda>_. Inr True),
     aKeystoneObj = (\<lambda>_. Inl (LibErr True ''not found''))\<rparr>"

definition plain_ext :: "cluster \<Rightarrow> ext" where
  "plain_ext c = \<lparr>cnd = list_conditions, pod = plain_pod, ut = plain_util, cl = c\<rparr>"

definition fresh_state :: rstate where
  "fresh_state = \<lparr>inst = blank_api, vars = [], trace = []\<rparr>"

lemma fresh_fields:
  "inst fresh_state = blank_api" "vars fresh_state = []" "trace fresh_state = []"
  by (simp_all add: fresh_state_def)

lemma plain_ext_fields [simp]:
  "cnd (plain_ext c) = list_conditions" "pod (plain_ext c) = plain_pod"
  "ut (plain_ext c) = plain_util" "cl (plain_ext c) = c"
  by (simp_all add: plain_ext_def)

lemmas plain_fields = fresh_fields blank_api_fields

end
