(* ===== verification/Frames.thy ===== *)
theory Frames
  imports Cluster
begin

text \<open>
  What the reconciler's building blocks leave alone. \<open>calm T P\<close> relates two states when only
  the status of the instance changed, the conditions of the types in \<open>T\<close> and the tracked
  secrets kept their values, and the calls made in between all satisfy \<open>P\<close>. It is a frame in
  the sense of the locale \<open>step_frame\<close>, so the computation combinators keep it.
\<close>

abbreviation st_of :: "rstate \<Rightarrow> NeutronAPIStatus" where
  "st_of s \<equiv> Status (inst s)"

abbreviation cond_status :: "rstate \<Rightarrow> ctype \<Rightarrow> cstatus option" where
  "cond_status s t \<equiv> status_of (conds (st_of s)) t"

text \<open>The secrets the status tracks: transport URL, notifications and application credential.\<close>

definition tracked :: "NeutronAPIStatus \<Rightarrow> string \<times> string option \<times> string" where
  "tracked st = (TransportURLSecret st, NotificationsTransportURLSecret st,
     ApplicationCredentialSecret st)"

definition grown :: "(call \<Rightarrow> bool) \<Rightarrow> rstate \<Rightarrow> rstate \<Rightarrow> bool" where
  "grown P s t \<longleftrightarrow> (\<exists>cs. trace t = trace s @ cs \<and> list_all P cs)"

definition status_only :: "rstate \<Rightarrow> rstate \<Rightarrow> bool" where
  "status_only s t \<longleftrightarrow> (\<exists>st. inst t = (inst s)\<lparr>Status := st\<rparr>)"

definition calm :: "ctype set \<Rightarrow> (call \<Rightarrow> bool) \<Rightarrow> rstate \<Rightarrow> rstate \<Rightarrow> bool" where
  "calm T P s t \<longleftrightarrow> status_only s t \<and> grown P s t \<and> tracked (st_of t) = tracked (st_of s) \<and>
     (\<forall>c \<in> T. cond_status t c = cond_status s c)"

text \<open>
  Two weaker frames: \<open>cool\<close> lets the tracked secrets change; \<open>steady\<close> says only that the
  status alone changed and that the calls are calls of \<open>P\<close>.
\<close>

definition cool :: "ctype set \<Rightarrow> (call \<Rightarrow> bool) \<Rightarrow> rstate \<Rightarrow> rstate \<Rightarrow> bool" where
  "cool T P s t \<longleftrightarrow> status_only s t \<and> grown P s t \<and> (\<forall>c \<in> T. cond_status t c = cond_status s c)"

definition steady :: "(call \<Rightarrow> bool) \<Rightarrow> rstate \<Rightarrow> rstate \<Rightarrow> bool" where
  "steady P s t \<longleftrightarrow> status_only s t \<and> grown P s t"

lemma grown_refl: "grown P s s"
  by (simp add: grown_def)

lemma grown_trans: "grown P s t \<Longrightarrow> grown P t u \<Longrightarrow> grown P s u"
  unfolding grown_def by (rule append_prefix_trans)

lemma status_only_refl: "status_only s s"
  unfolding status_only_def by (rule exI [of _ "st_of s"]) simp

lemma status_only_trans: "status_only s t \<Longrightarrow> status_only t u \<Longrightarrow> status_only s u"
  by (auto simp: status_only_def)

interpretation calm: step_frame "calm T P" for T P
  by unfold_locales
     (auto simp: calm_def grown_refl status_only_refl intro: grown_trans status_only_trans)

interpretation cool: step_frame "cool T P" for T P
  by unfold_locales
     (auto simp: cool_def grown_refl status_only_refl intro: grown_trans status_only_trans)

interpretation steady: step_frame "steady P" for P
  by unfold_locales
     (auto simp: steady_def grown_refl status_only_refl intro: grown_trans status_only_trans)

lemma cool_of_calm: "always (calm T P) m \<Longrightarrow> always (cool T P) m"
  by (erule always_weaken) (auto simp: calm_def cool_def)

lemma calm_steady: "calm T P s t \<Longrightarrow> steady P s t"
  by (simp add: calm_def steady_def)

lemma calm_mono:
  assumes "always (calm T P) m" and "T' \<subseteq> T" and "\<And>c. P c \<Longrightarrow> P' c"
  shows "always (calm T' P') m"
  using assms(1)
proof (rule always_weaken)
  fix s t assume st: "calm T P s t"
  have "grown P' s t"
    using st assms(3) by (auto simp: calm_def grown_def list_all_iff)
  with st assms(2) show "calm T' P' s t" by (auto simp: calm_def)
qed

lemma status_onlyD:
  assumes "status_only s t"
  shows "Name (inst t) = Name (inst s)" "Namespace (inst t) = Namespace (inst s)"
    "Kind (inst t) = Kind (inst s)" "Spec (inst t) = Spec (inst s)"
    "Annotations (inst t) = Annotations (inst s)" "Finalizers (inst t) = Finalizers (inst s)"
    "Generation (inst t) = Generation (inst s)"
    "DeletionTimestamp (inst t) = DeletionTimestamp (inst s)"
  using assms by (auto simp: status_only_def)

section \<open>The primitives\<close>

lemma steady_invoke [frames]: "P c \<Longrightarrow> always (steady P) (invoke f c)"
  by (simp add: always_def invoke_def steady_def grown_def status_only_def)
     (rule allI, metis NeutronAPI.surjective NeutronAPI.update_convs(9))

lemma calm_invoke [frames]: "P c \<Longrightarrow> always (calm T P) (invoke f c)"
  using steady_invoke [of P c f] unfolding always_def calm_def steady_def
  by (simp add: invoke_def)

lemma steady_status [frames]: "always (steady P) (set_status f)"
  unfolding set_status_def by (rule steady.frame_update) (auto simp: steady_def grown_def status_only_def)

lemma calm_status:
  assumes "\<And>st. tracked (f st) = tracked st"
    and "\<And>st c. c \<in> T \<Longrightarrow> status_of (conds (f st)) c = status_of (conds st) c"
  shows "always (calm T P) (set_status f)"
  unfolding set_status_def
  by (rule calm.frame_update) (auto simp: calm_def grown_def status_only_def assms)

lemma on_conds_tracked: "tracked (st\<lparr>StatusConditions := c\<rparr>) = tracked st"
  by (simp add: tracked_def)

lemma conds_update [simp]: "conds (st\<lparr>StatusConditions := Some c\<rparr>) = c"
  by (simp add: conds_def)

lemma calm_set_cond [frames]:
  assumes "condition_laws (cnd E)" and "CondType c \<notin> T"
  shows "always (calm T P) (set_cond E c)"
  unfolding set_cond_def on_conds_def
  by (rule calm_status) (use assms in \<open>auto simp: on_conds_tracked condition_simps\<close>)

lemma calm_set_false [frames]:
  assumes "condition_laws (cnd E)" and "t \<notin> T"
  shows "always (calm T P) (set_false E t r v m a)"
  unfolding set_false_def by (rule calm_set_cond) (use assms in \<open>simp_all add: condition_simps\<close>)

lemma calm_mark_true [frames]:
  assumes "condition_laws (cnd E)" and "t \<notin> T"
  shows "always (calm T P) (mark_true E t m)"
  unfolding mark_true_def on_conds_def
  by (rule calm_status) (use assms in \<open>auto simp: on_conds_tracked condition_simps\<close>)

lemma calm_remove_cond [frames]:
  assumes "condition_laws (cnd E)" and "t \<notin> T"
  shows "always (calm T P) (remove_cond E t)"
  unfolding remove_cond_def on_conds_def
  by (rule calm_status) (use assms in \<open>auto simp: on_conds_tracked condition_simps\<close>)

lemma steady_conds [frames]:
  "always (steady P) (set_cond E c)" "always (steady P) (set_false E t r v m a)"
  "always (steady P) (mark_true E t msg)" "always (steady P) (remove_cond E t)"
  unfolding set_false_def set_cond_def mark_true_def remove_cond_def on_conds_def
  by (rule steady_status)+

lemma steady_vars [frames]: "always (steady P) (update (\<lambda>s. s\<lparr>vars := f s\<rparr>))"
  by (rule steady.frame_update)
     (simp add: steady_def grown_def status_only_def, metis NeutronAPI.surjective NeutronAPI.update_convs(9))

lemma calm_vars [frames]: "always (calm T P) (update (\<lambda>s. s\<lparr>vars := f s\<rparr>))"
  using steady_vars [of P f] unfolding always_def calm_def steady_def by (simp add: update_def)

lemma steady_set_var [frames]: "always (steady P) (set_var k v)"
  unfolding set_var_def by (rule steady_vars)

lemma calm_set_var [frames]: "always (calm T P) (set_var k v)"
  unfolding set_var_def by (rule calm_vars)

lemma hash_update [simp]:
  "conds (st\<lparr>Hash := h\<rparr>) = conds st" "tracked (st\<lparr>Hash := h\<rparr>) = tracked st"
  by (simp_all add: conds_def tracked_def)

lemma steady_hash [frames]: "always (steady P) (put_hash k v)" "always (steady P) (delete_hash k)"
  unfolding put_hash_def delete_hash_def the_inst_def
  by (intro steady.frame_rules steady_status)+

lemma calm_hash [frames]: "always (calm T P) (put_hash k v)" "always (calm T P) (delete_hash k)"
  unfolding put_hash_def delete_hash_def the_inst_def
  by (intro calm.frame_rules calm_status; simp)+

lemma calm_basic [frames]:
  "always (calm T P) the_inst" "always (calm T P) (or_return e)" "always (calm T P) (settle a)"
  unfolding the_inst_def or_return_def settle_def
  by (intro calm.frame_rules)+

lemma steady_basic [frames]:
  "always (steady P) the_inst" "always (steady P) (or_return e)" "always (steady P) (settle a)"
  unfolding the_inst_def or_return_def settle_def
  by (intro steady.frame_rules)+

lemma cool_status:
  assumes "\<And>st c. c \<in> T \<Longrightarrow> status_of (conds (f st)) c = status_of (conds st) c"
  shows "always (cool T P) (set_status f)"
  unfolding set_status_def
  by (rule cool.frame_update) (auto simp: cool_def grown_def status_only_def assms)

lemmas cool_frames = calm_invoke [THEN cool_of_calm] calm_set_cond [THEN cool_of_calm]
  calm_set_false [THEN cool_of_calm] calm_mark_true [THEN cool_of_calm]
  calm_remove_cond [THEN cool_of_calm] calm_vars [THEN cool_of_calm]
  calm_set_var [THEN cool_of_calm] calm_basic [THEN cool_of_calm]
lemmas cool_rules = cool.frame_rules cool_frames cool_status

lemmas calm_rules = calm.frame_rules frames
lemmas steady_rules = steady.frame_rules frames

end
