(* ===== verification/ExternalSecrets.thy ===== *)
theory ExternalSecrets
  imports Frames
begin

text \<open>
  The Secrets with agent configuration for the data plane (SR-IOV, DHCP, OVN metadata and OVN
  agent), from \<^verbatim>\<open>internal/controller/neutronapi_controller.go\<close>. A function that returns only
  an error is a \<open>fallible\<close> computation.
\<close>

type_synonym fallible = "(rstate, goerror option, goerror option) prog"

section \<open>Names and keys\<close>

definition getExternalSecretName :: "NeutronAPI \<Rightarrow> string \<Rightarrow> string" where
  "getExternalSecretName i serviceName = Name i @ ''-'' @ serviceName @ ''-neutron-config''"

definition getMetadataAgentSecretName :: "NeutronAPI \<Rightarrow> string" where
  "getMetadataAgentSecretName i = getExternalSecretName i ''ovn-metadata-agent''"

definition getOVNAgentSecretName :: "NeutronAPI \<Rightarrow> string" where
  "getOVNAgentSecretName i = getExternalSecretName i ''ovn-agent''"

definition getSriovAgentSecretName :: "NeutronAPI \<Rightarrow> string" where
  "getSriovAgentSecretName i = getExternalSecretName i ''sriov-agent''"

definition getDhcpAgentSecretName :: "NeutronAPI \<Rightarrow> string" where
  "getDhcpAgentSecretName i = getExternalSecretName i ''dhcp-agent''"

definition NeutronOVNMetadataAgentSecretKey :: string where
  "NeutronOVNMetadataAgentSecretKey = ''10-neutron-metadata.conf''"

definition NeutronOVNAgentSecretKey :: string where
  "NeutronOVNAgentSecretKey = ''10-neutron-ovn.conf''"

definition NeutronSriovAgentSecretKey :: string where
  "NeutronSriovAgentSecretKey = ''10-neutron-sriov.conf''"

definition NeutronDhcpAgentSecretKey :: string where
  "NeutronDhcpAgentSecretKey = ''10-neutron-dhcp.conf''"

section \<open>Writing and deleting one Secret\<close>

text \<open>\<^verbatim>\<open>secret.EnsureSecrets\<close> stores the hash of each Secret in the map it is given.\<close>

definition ensure_secrets :: "ext \<Rightarrow> Tmpl list \<Rightarrow> (rstate, 'r, goerror option) prog" where
  "ensure_secrets E ts =
     andthen (invoke (aEnsure (cl E)) (EnsureSecrets ts)) (\<lambda>(hashes, err).
     andthen (update (\<lambda>s. s\<lparr>vars := fold (\<lambda>(k, h). AList.update k (SetValue (pod E) h)) hashes
                (vars s)\<rparr>)) (\<lambda>_.
     ok err))"

definition deleteExternalSecret :: "ext \<Rightarrow> string \<Rightarrow> fallible" where
  "deleteExternalSecret E secretName =
     andthen the_inst (\<lambda>i.
     andthen (invoke (aErr (cl E)) (DeleteSecret secretName (Namespace i))) (\<lambda>err.
     if err \<noteq> None \<and> \<not> notFound err
     then ret (map_option (\<lambda>e.
            Errorf (''failed to delete external Secret '' @ secretName @ '': '') e []) err)
     else andthen (delete_hash secretName) (\<lambda>_. ret None)))"

definition ensureExternalSecret ::
  "ext \<Rightarrow> string \<Rightarrow> (string \<times> string) list \<Rightarrow> (string \<times> tval) list \<Rightarrow> fallible" where
  "ensureExternalSecret E secretName templates templateParameters =
     andthen the_inst (\<lambda>i.
     andthen (ensure_secrets E
       [\<lparr>TName = secretName, TNamespace = Namespace i, TType = TemplateTypeNone,
         TInstanceType = Kind i, TCustomData = [],
         TLabels = GetLabels (ut E) (Name i) ServiceName, TConfigOptions = templateParameters,
         TAdditionalTemplate = templates, TCommonTemplates = []\<rparr>]) (\<lambda>err.
     case err of
       Some e \<Rightarrow> ret (Some e)
     | None \<Rightarrow>
         andthen (reads vars) (\<lambda>envVars.
         case map_of envVars secretName of
           None \<Rightarrow> panic ''call of a nil setter''
         | Some setter \<Rightarrow>
             andthen (put_hash secretName (EnvValue (setter \<lparr>EnvName = [], EnvValue = []\<rparr>))) (\<lambda>_.
             ret None))))"

section \<open>The four agents\<close>

definition ensureExternalOVNMetadataAgentSecret :: "ext \<Rightarrow> string \<Rightarrow> fallible" where
  "ensureExternalOVNMetadataAgentSecret E sbEndpoint =
     andthen the_inst (\<lambda>i.
     ensureExternalSecret E (getMetadataAgentSecretName i)
       [(NeutronOVNMetadataAgentSecretKey, ''/ovn-metadata-agent.conf'')]
       [(''SBConnection'', TStr sbEndpoint),
        (''OVNDB_TLS'', TBool (GenericEnabled (pod E) (Ovn (TLS (Spec i)))))])"

definition ensureExternalOVNAgentSecret :: "ext \<Rightarrow> string \<Rightarrow> string \<Rightarrow> fallible" where
  "ensureExternalOVNAgentSecret E nbEndpoint sbEndpoint =
     andthen the_inst (\<lambda>i.
     ensureExternalSecret E (getOVNAgentSecretName i)
       [(NeutronOVNAgentSecretKey, ''/ovn-agent.conf'')]
       [(''NBConnection'', TStr nbEndpoint), (''SBConnection'', TStr sbEndpoint),
        (''OVNDB_TLS'', TBool (GenericEnabled (pod E) (Ovn (TLS (Spec i)))))])"

definition ensureExternalSriovAgentSecret :: "ext \<Rightarrow> string \<Rightarrow> bool \<Rightarrow> fallible" where
  "ensureExternalSriovAgentSecret E transportURL quorumQueues =
     andthen the_inst (\<lambda>i.
     ensureExternalSecret E (getSriovAgentSecretName i)
       [(NeutronSriovAgentSecretKey, ''/sriov-agent.conf'')]
       [(''transportURL'', TStr transportURL), (''QuorumQueues'', TBool quorumQueues)])"

definition ensureExternalDhcpAgentSecret :: "ext \<Rightarrow> string \<Rightarrow> bool \<Rightarrow> fallible" where
  "ensureExternalDhcpAgentSecret E transportURL quorumQueues =
     andthen the_inst (\<lambda>i.
     ensureExternalSecret E (getDhcpAgentSecretName i)
       [(NeutronDhcpAgentSecretKey, ''/dhcp-agent.conf'')]
       [(''transportURL'', TStr transportURL), (''QuorumQueues'', TBool quorumQueues)])"

text \<open>
  The block every agent function has several times: the Secret is not wanted, delete it and
  return nil.
\<close>

definition withdraw :: "ext \<Rightarrow> string \<Rightarrow> string \<Rightarrow> fallible" where
  "withdraw E what secretName =
     andthen (fcall (deleteExternalSecret E secretName)) (\<lambda>err.
     case err of
       Some e \<Rightarrow> ret (Some (Errorf (''failed to delete Neutron '' @ what @ '' external Secret: '') e []))
     | None \<Rightarrow> ret None)"

definition publish :: "string \<Rightarrow> fallible \<Rightarrow> fallible" where
  "publish what m =
     andthen (fcall m) (\<lambda>err.
     case err of
       Some e \<Rightarrow> ret (Some (Errorf (''failed to ensure Neutron '' @ what @ '' external Secret: '') e []))
     | None \<Rightarrow> ret None)"

definition reconcileExternalOVNMetadataAgentSecret :: "ext \<Rightarrow> fallible" where
  "reconcileExternalOVNMetadataAgentSecret E =
     andthen the_inst (\<lambda>i.
     if \<not> IsOVNEnabled i then withdraw E ''Metadata Agent'' (getMetadataAgentSecretName i)
     else
       andthen (invoke (aDBCluster (cl E)) (GetDBClusterByType (Namespace i) SBDBType)) (\<lambda>r.
       case r of
         Inl e \<Rightarrow> withdraw E ''Metadata Agent'' (getMetadataAgentSecretName i)
       | Inr sbCluster \<Rightarrow>
           (case ExternalEndpoint sbCluster of
              Inl e \<Rightarrow> withdraw E ''Metadata Agent'' (getMetadataAgentSecretName i)
            | Inr sbEndpoint \<Rightarrow>
                publish ''Metadata Agent'' (ensureExternalOVNMetadataAgentSecret E sbEndpoint))))"

definition reconcileExternalOVNAgentSecret :: "ext \<Rightarrow> fallible" where
  "reconcileExternalOVNAgentSecret E =
     andthen the_inst (\<lambda>i.
     if \<not> IsOVNEnabled i then withdraw E ''OVN Agent'' (getOVNAgentSecretName i)
     else
       andthen (invoke (aDBCluster (cl E)) (GetDBClusterByType (Namespace i) NBDBType)) (\<lambda>r.
       case r of
         Inl e \<Rightarrow> withdraw E ''OVN Agent'' (getOVNAgentSecretName i)
       | Inr nbCluster \<Rightarrow>
           (case ExternalEndpoint nbCluster of
              Inl e \<Rightarrow> withdraw E ''OVN Agent'' (getOVNAgentSecretName i)
            | Inr nbEndpoint \<Rightarrow>
                andthen (invoke (aDBCluster (cl E)) (GetDBClusterByType (Namespace i) SBDBType)) (\<lambda>r.
                case r of
                  Inl e \<Rightarrow> withdraw E ''OVN Agent'' (getOVNAgentSecretName i)
                | Inr sbCluster \<Rightarrow>
                    (case ExternalEndpoint sbCluster of
                       Inl e \<Rightarrow> withdraw E ''OVN Agent'' (getOVNAgentSecretName i)
                     | Inr sbEndpoint \<Rightarrow>
                         publish ''OVN Agent''
                           (ensureExternalOVNAgentSecret E nbEndpoint sbEndpoint))))))"

definition getTransportURL ::
  "ext \<Rightarrow> string option \<Rightarrow> (rstate, goerror + string \<times> bool, goerror + string \<times> bool) prog" where
  "getTransportURL E secretName =
     (case secretName of
        None \<Rightarrow> ret (Inl ErrTransportURLSecretNameNilOrEmpty)
      | Some name \<Rightarrow>
          if name = [] then ret (Inl ErrTransportURLSecretNameNilOrEmpty)
          else
            andthen the_inst (\<lambda>i.
            andthen (invoke (aSecret (cl E)) (GetSecret name (Namespace i))) (\<lambda>r.
            case r of
              Inl e \<Rightarrow> ret (Inl e)
            | Inr data \<Rightarrow>
                (case data ''transport_url'' of
                   None \<Rightarrow> ret (Inl (Errorf ''transport_url '' (LibSentinel ''util.ErrNotFound'')
                             '' Transport Secret''))
                 | Some transportURL \<Rightarrow>
                     ret (Inr (transportURL, data ''quorumqueues'' = Some ''true''))))))"

definition reconcileExternalSriovAgentSecret :: "ext \<Rightarrow> string \<Rightarrow> fallible" where
  "reconcileExternalSriovAgentSecret E transportURLSecretName =
     andthen the_inst (\<lambda>i.
     andthen (fcall (getTransportURL E (Some transportURLSecretName))) (\<lambda>r.
     case r of
       Inl e \<Rightarrow> withdraw E ''SR-IOV Agent'' (getSriovAgentSecretName i)
     | Inr (transportURL, quorumQueues) \<Rightarrow>
         publish ''SR-IOV Agent'' (ensureExternalSriovAgentSecret E transportURL quorumQueues)))"

definition reconcileExternalDhcpAgentSecret :: "ext \<Rightarrow> string \<Rightarrow> fallible" where
  "reconcileExternalDhcpAgentSecret E transportURLSecretName =
     andthen the_inst (\<lambda>i.
     andthen (invoke (aSecret (cl E)) (GetSecret transportURLSecretName (Namespace i))) (\<lambda>r.
     case r of
       Inl e \<Rightarrow> withdraw E ''DHCP Agent'' (getDhcpAgentSecretName i)
     | Inr data \<Rightarrow>
         (case data ''transport_url'' of
            None \<Rightarrow> withdraw E ''DHCP Agent'' (getDhcpAgentSecretName i)
          | Some transportURL \<Rightarrow>
              publish ''DHCP Agent'' (ensureExternalDhcpAgentSecret E transportURL
                (data ''quorumqueues'' = Some ''true'')))))"

text \<open>\<^verbatim>\<open>if err != nil { return fmt.Errorf("failed to reconcile \<dots>: %w", err) }\<close>\<close>

definition try_agent :: "string \<Rightarrow> fallible \<Rightarrow> (rstate, goerror option, unit) prog" where
  "try_agent what m =
     andthen (fcall m) (\<lambda>err.
     case err of
       Some e \<Rightarrow> ret (Some (Errorf (''failed to reconcile Neutron '' @ what @ '' external Secret: '') e []))
     | None \<Rightarrow> ok ())"

definition reconcileExternalSecrets :: "ext \<Rightarrow> string \<Rightarrow> fallible" where
  "reconcileExternalSecrets E transportURLSecretName =
     andthen (try_agent ''SR-IOV Agent'' (reconcileExternalSriovAgentSecret E transportURLSecretName)) (\<lambda>_.
     andthen (try_agent ''DHCP Agent'' (reconcileExternalDhcpAgentSecret E transportURLSecretName)) (\<lambda>_.
     ret None))"

definition reconcileExternalOVNSecrets :: "ext \<Rightarrow> fallible" where
  "reconcileExternalOVNSecrets E =
     andthen (try_agent ''Metadata Agent'' (reconcileExternalOVNMetadataAgentSecret E)) (\<lambda>_.
     andthen (try_agent ''OVN Agent'' (reconcileExternalOVNAgentSecret E)) (\<lambda>_.
     ret None))"

section \<open>The record of a Secret follows the Secret\<close>

text \<open>
  \<open>published n cs\<close>: after the calls \<open>cs\<close> the Secret \<open>n\<close> was last written, not deleted.
  The status records an external Secret when its hash map has an entry of that name.
\<close>

fun touches :: "call \<Rightarrow> string set" where
  "touches (EnsureSecrets ts) = TName ` set ts"
| "touches (DeleteSecret n ns) = {n}"
| "touches c = {}"

fun publishes :: "call \<Rightarrow> bool" where
  "publishes (EnsureSecrets ts) = True"
| "publishes c = False"

definition published :: "string \<Rightarrow> call list \<Rightarrow> bool" where
  "published n cs = foldl (\<lambda>b c. if n \<in> touches c then publishes c else b) False cs"

definition recorded :: "string \<Rightarrow> rstate \<Rightarrow> bool" where
  "recorded n s \<longleftrightarrow> (get_hash (inst s) n \<noteq> None) = published n (trace s)"

definition settled :: "string \<Rightarrow> rstate \<Rightarrow> rstate \<Rightarrow> bool" where
  "settled n s t \<longleftrightarrow> status_only s t \<and> Hash (st_of t) \<noteq> None \<and>
     (\<forall>k. k \<noteq> n \<longrightarrow> get_hash (inst t) k = get_hash (inst s) k \<and>
        published k (trace t) = published k (trace s))"

text \<open>What the operator relies on: a successful \<^verbatim>\<open>EnsureSecrets\<close> reports the hash of every Secret.\<close>

definition ensure_laws :: "cluster \<Rightarrow> bool" where
  "ensure_laws c \<longleftrightarrow> (\<forall>cs ts hs. aEnsure c (cs @ [EnsureSecrets ts]) = (hs, None) \<longrightarrow>
     TName ` set ts \<subseteq> fst ` set hs)"

lemma published_snoc [simp]:
  "published n (cs @ [c]) = (if n \<in> touches c then publishes c else published n cs)"
  by (simp add: published_def)

lemma settled_refl: "Hash (st_of s) \<noteq> None \<Longrightarrow> settled n s s"
  by (simp add: settled_def status_only_refl)

lemma settled_recorded: "settled n s t \<Longrightarrow> k \<noteq> n \<Longrightarrow> recorded k s \<Longrightarrow> recorded k t"
  by (simp add: settled_def recorded_def)

lemma settled_Name: "settled n s t \<Longrightarrow> Name (inst t) = Name (inst s)"
  by (simp add: settled_def status_onlyD)

lemma settled_inst: "settled n s t \<Longrightarrow> IsOVNEnabled (inst t) = IsOVNEnabled (inst s)"
  by (metis IsOVNEnabled_def settled_def status_onlyD(4))

lemma status_only_inst:
  "status_only s t \<Longrightarrow> inst u = (inst t)\<lparr>Status := x\<rparr> \<Longrightarrow> status_only s u"
  by (auto simp: status_only_def)

lemma settled_invoke:
  assumes "touches c \<subseteq> {n}" and "\<And>s x. settled n s0 s \<Longrightarrow> Q x (s\<lparr>trace := trace s @ [c]\<rparr>)"
  shows "triple (settled n s0) (invoke f c) Q R"
  using assms by (simp add: triple_def invoke_def)

lemma settled_trace:
  "settled n s0 s \<Longrightarrow> touches c \<subseteq> {n} \<Longrightarrow> settled n s0 (s\<lparr>trace := trace s @ [c]\<rparr>)"
  by (auto simp: settled_def status_only_def)

lemma settled_vars: "settled n s0 s \<Longrightarrow> settled n s0 (s\<lparr>vars := v\<rparr>)"
  by (simp add: settled_def status_only_def)

lemma settled_hash:
  assumes "settled n s0 s"
  shows "settled n s0 (s\<lparr>inst := (inst s)\<lparr>Status := (st_of s)\<lparr>Hash := Some h\<rparr>\<rparr>\<rparr>)
     \<longleftrightarrow> (\<forall>k. k \<noteq> n \<longrightarrow> h k = get_hash (inst s) k)"
  using assms by (auto simp: settled_def status_only_def get_hash_def)

lemma map_of_fold_update:
  "k \<in> fst ` set hs \<Longrightarrow> \<exists>h. map_of (fold (\<lambda>(k, h). AList.update k (f h)) hs vs) k = Some (f h)"
proof (induction hs arbitrary: vs)
  case (Cons p hs)
  show ?case
  proof (cases "k \<in> fst ` set hs")
    case False
    have "map_of (fold (\<lambda>(k, h). AList.update k (f h)) hs vs) k = map_of vs k" for vs
      using False by (induction hs arbitrary: vs) (auto simp: update_conv')
    with Cons.prems False show ?thesis by (cases p) (auto simp: update_conv')
  qed (use Cons in \<open>cases p; simp\<close>)
qed simp

lemma deleteExternalSecret_triple:
  "triple (settled n s0) (deleteExternalSecret E n) (\<lambda>_ _. False)
     (\<lambda>e t. settled n s0 t \<and> (e = None \<longrightarrow> recorded n t \<and> \<not> published n (trace t)))"
proof (rule tripleI)
  fix s p t assume "deleteExternalSecret E n s = (Panic p, t)"
  then show False
    by (auto simp: deleteExternalSecret_def the_inst_def prog_defs invoke_def delete_hash_def
        set_status_def split: if_splits)
next
  fix s x t assume "deleteExternalSecret E n s = (Next x, t)"
  then show False
    by (auto simp: deleteExternalSecret_def the_inst_def prog_defs invoke_def delete_hash_def
        set_status_def split: if_splits)
next
  fix s e t assume s: "settled n s0 s" and run: "deleteExternalSecret E n s = (Return e, t)"
  let ?s = "s\<lparr>trace := trace s @ [DeleteSecret n (Namespace (inst s))]\<rparr>"
  have s': "settled n s0 ?s" using s by (rule settled_trace) simp
  obtain h where h: "Hash (st_of s) = Some h" using s by (auto simp: settled_def)
  from run have "(e \<noteq> None \<and> t = ?s) \<or>
      (e = None \<and> t = ?s\<lparr>inst := (inst ?s)\<lparr>Status := (st_of ?s)\<lparr>Hash := Some (h(n := None))\<rparr>\<rparr>\<rparr>)"
    by (auto simp: deleteExternalSecret_def the_inst_def prog_defs invoke_def delete_hash_def
        set_status_def h split: if_splits)
  then show "settled n s0 t \<and> (e = None \<longrightarrow> recorded n t \<and> \<not> published n (trace t))"
    using s' settled_hash [OF s', of "h(n := None)"]
    by (auto simp: recorded_def get_hash_def h)
qed

lemma ensureExternalSecret_triple:
  assumes "ensure_laws (cl E)"
  shows "triple (settled n s0) (ensureExternalSecret E n ts ps) (\<lambda>_ _. False)
     (\<lambda>e t. settled n s0 t \<and> (e = None \<longrightarrow> recorded n t \<and> published n (trace t)))"
  unfolding triple_def
proof (intro allI impI)
  fix s assume s: "settled n s0 s"
  define tm where "tm = \<lparr>TName = n, TNamespace = Namespace (inst s), TType = TemplateTypeNone,
         TInstanceType = Kind (inst s), TCustomData = [],
         TLabels = GetLabels (ut E) (Name (inst s)) ServiceName, TConfigOptions = ps,
         TAdditionalTemplate = ts, TCommonTemplates = []\<rparr>"
  obtain hs err where ans: "aEnsure (cl E) (trace s @ [EnsureSecrets [tm]]) = (hs, err)" by fastforce
  define s1 where "s1 = s\<lparr>trace := trace s @ [EnsureSecrets [tm]],
    vars := fold (\<lambda>(k, h). AList.update k (SetValue (pod E) h)) hs (vars s)\<rparr>"
  have s1: "settled n s0 s1"
    using settled_vars [OF settled_trace [OF s, of "EnsureSecrets [tm]"]]
    by (simp add: s1_def tm_def)
  obtain h where h: "Hash (st_of s) = Some h" using s by (auto simp: settled_def)
  show "case ensureExternalSecret E n ts ps s of (Next x, t) \<Rightarrow> False
      | (Return e, t) \<Rightarrow> settled n s0 t \<and> (e = None \<longrightarrow> recorded n t \<and> published n (trace t))
      | (Panic x, t) \<Rightarrow> False"
  proof (cases err)
    case (Some e)
    have "ensureExternalSecret E n ts ps s = (Return (Some e), s1)"
      using ans Some
      by (simp add: ensureExternalSecret_def ensure_secrets_def the_inst_def prog_defs invoke_def
          tm_def s1_def)
    with s1 show ?thesis by simp
  next
    case None
    with assms ans have "n \<in> fst ` set hs"
      unfolding ensure_laws_def by (fastforce simp: tm_def)
    then obtain v where v: "map_of (vars s1) n = Some v"
      using map_of_fold_update [of n hs "SetValue (pod E)" "vars s"] by (auto simp: s1_def)
    let ?h = "h(n \<mapsto> EnvValue (v \<lparr>EnvName = [], EnvValue = []\<rparr>))"
    have "ensureExternalSecret E n ts ps s =
        (Return None, s1\<lparr>inst := (inst s1)\<lparr>Status := (st_of s1)\<lparr>Hash := Some ?h\<rparr>\<rparr>\<rparr>)"
      using ans None v h
      by (simp add: ensureExternalSecret_def ensure_secrets_def the_inst_def prog_defs invoke_def
          tm_def s1_def put_hash_def set_status_def)
    with settled_hash [OF s1, of ?h] h show ?thesis
      by (auto simp: recorded_def get_hash_def s1_def tm_def)
  qed
qed

section \<open>The contract of an agent\<close>

text \<open>
  An agent function works on its own Secret only, always returns, and when it returns no error
  the status records the Secret exactly if it stands; \<open>wanted\<close> is the condition the code
  requires before it publishes.
\<close>

definition synced :: "string \<Rightarrow> bool \<Rightarrow> rstate \<Rightarrow> goerror option \<Rightarrow> rstate \<Rightarrow> bool" where
  "synced n wanted s e t \<longleftrightarrow> settled n s t \<and>
     (e = None \<longrightarrow> recorded n t \<and> (published n (trace t) \<longrightarrow> wanted))"

locale external_agent =
  fixes agent :: "ext \<Rightarrow> string \<Rightarrow> fallible" and sname :: "NeutronAPI \<Rightarrow> string"
    and wanted :: "NeutronAPI \<Rightarrow> bool"
  assumes agent_synced: "ensure_laws (cl E) \<Longrightarrow> Hash (st_of s0) \<noteq> None \<Longrightarrow>
      triple (\<lambda>s. s = s0) (agent E tu) (\<lambda>_ _. False) (synced (sname (inst s0)) (wanted (inst s0)) s0)"
    and by_name: "Name i = Name j \<Longrightarrow> sname i = sname j"
    and by_spec: "Spec i = Spec j \<Longrightarrow> wanted i = wanted j"
begin

lemma try_synced:
  assumes "ensure_laws (cl E)" and "Hash (st_of s) \<noteq> None"
    and "try_agent w (agent E tu) s = (Next x, t)"
  shows "settled (sname (inst s)) s t \<and> recorded (sname (inst s)) t \<and>
    (published (sname (inst s)) (trace t) \<longrightarrow> wanted (inst s))"
proof -
  note law = agent_synced [OF assms(1,2), of tu]
  show ?thesis
    using assms(3) tripleD_Return [OF law refl] tripleD_Next [OF law refl]
    by (cases "agent E tu s" rule: outcome_prod_cases)
       (auto simp: try_agent_def prog_defs synced_def split: option.splits)
qed

lemma try_returns:
  assumes "ensure_laws (cl E)" and "Hash (st_of s) \<noteq> None"
  shows "try_agent w (agent E tu) s \<noteq> (Panic p, t)"
    and "try_agent w (agent E tu) s = (Return e, t) \<Longrightarrow> e \<noteq> None \<and> settled (sname (inst s)) s t"
proof -
  note law = agent_synced [OF assms, of tu]
  show "try_agent w (agent E tu) s \<noteq> (Panic p, t)"
    and "try_agent w (agent E tu) s = (Return e, t) \<Longrightarrow> e \<noteq> None \<and> settled (sname (inst s)) s t"
    using tripleD [OF law refl]
    by (cases "agent E tu s" rule: outcome_prod_cases;
        auto simp: try_agent_def prog_defs synced_def split: option.splits)+
qed

end

lemma triple_returns:
  assumes "triple P m (\<lambda>_ _. False) F"
  shows "triple P (fcall m) F R"
  by (rule triple_fcall, rule triple_post, rule assms) auto

lemma withdraw_triple:
  "triple (settled n s0) (withdraw E w n) (\<lambda>_ _. False) (synced n b s0)"
  unfolding withdraw_def
  by (rule triple_andthen, rule triple_returns, rule deleteExternalSecret_triple)
     (auto intro!: triple_ret simp: synced_def split: option.split)

lemma publish_triple:
  assumes "triple P m (\<lambda>_ _. False)
     (\<lambda>e t. settled n s0 t \<and> (e = None \<longrightarrow> recorded n t \<and> published n (trace t)))"
    and b
  shows "triple P (publish w m) (\<lambda>_ _. False) (synced n b s0)"
  unfolding publish_def
  by (rule triple_andthen, rule triple_returns, rule assms(1))
     (use assms(2) in \<open>auto intro!: triple_ret simp: synced_def split: option.split\<close>)

lemma triple_the_inst:
  "(\<And>i. triple (\<lambda>s. P s \<and> inst s = i) (f i) Q R) \<Longrightarrow> triple P (andthen the_inst f) Q R"
  unfolding triple_def the_inst_def by (simp add: prog_defs)

lemma triple_invoke_settled:
  assumes "touches c = {}" and "\<And>x. triple (settled n s0) (f x) Q R"
  shows "triple (settled n s0) (andthen (invoke a c) f) Q R"
  by (rule triple_andthen [where Q = "\<lambda>_. settled n s0"], rule settled_invoke)
     (use assms in \<open>auto intro: settled_trace\<close>)

lemma triple_assume: "(b \<Longrightarrow> triple P m Q R) \<Longrightarrow> triple (\<lambda>s. P s \<and> b) m Q R"
  by (cases b) (auto simp: triple_def)

text \<open>
  The shape the agents share: the instance is read, the name depends on the name of the
  instance only, and the rest works on that Secret.
\<close>

lemma agent_triple:
  assumes "\<And>i. Name i = Name (inst s0) \<Longrightarrow> IsOVNEnabled i = IsOVNEnabled (inst s0) \<Longrightarrow>
      triple (settled (sname i) s0) (body i) (\<lambda>_ _. False) (synced (sname i) b s0)"
    and "Hash (st_of s0) \<noteq> None"
  shows "triple (\<lambda>s. s = s0) (andthen the_inst body) (\<lambda>_ _. False) (synced (sname (inst s0)) b s0)"
proof (rule triple_the_inst)
  fix i
  show "triple (\<lambda>s. s = s0 \<and> inst s = i) (body i) (\<lambda>_ _. False) (synced (sname (inst s0)) b s0)"
    using triple_at [OF assms(1) settled_refl [OF assms(2)]]
    by (cases "i = inst s0") (auto intro: triple_pre simp: triple_def)
qed

lemma ensure_agent_triple:
  assumes "ensure_laws (cl E)" and "\<And>i j. Name i = Name j \<Longrightarrow> sname i = sname j"
    and "Name i = Name (inst s0)"
  shows "triple (settled (sname i) s0) (andthen the_inst (\<lambda>i. ensureExternalSecret E (sname i) ts (ps i)))
     (\<lambda>_ _. False)
     (\<lambda>e t. settled (sname i) s0 t \<and> (e = None \<longrightarrow> recorded (sname i) t \<and> published (sname i) (trace t)))"
proof (rule triple_the_inst)
  fix j
  show "triple (\<lambda>s. settled (sname i) s0 s \<and> inst s = j) (ensureExternalSecret E (sname j) ts (ps j))
     (\<lambda>_ _. False)
     (\<lambda>e t. settled (sname i) s0 t \<and> (e = None \<longrightarrow> recorded (sname i) t \<and> published (sname i) (trace t)))"
  proof (cases "Name j = Name i")
    case True
    then have "sname j = sname i" by (rule assms(2))
    then show ?thesis
      by (auto intro: triple_pre [OF ensureExternalSecret_triple [OF assms(1)]])
  next
    case False
    then show ?thesis using assms(3) by (auto simp: triple_def dest: settled_Name)
  qed
qed

lemma names_by_name:
  assumes "Name i = Name j"
  shows "getSriovAgentSecretName i = getSriovAgentSecretName j"
    and "getDhcpAgentSecretName i = getDhcpAgentSecretName j"
    and "getMetadataAgentSecretName i = getMetadataAgentSecretName j"
    and "getOVNAgentSecretName i = getOVNAgentSecretName j"
  using assms by (simp_all add: getSriovAgentSecretName_def getDhcpAgentSecretName_def
      getMetadataAgentSecretName_def getOVNAgentSecretName_def getExternalSecretName_def)

lemma getTransportURL_settled:
  "triple (settled n s0) (fcall (getTransportURL E x)) (\<lambda>_. settled n s0) R"
  unfolding getTransportURL_def
  by (rule triple_fcall)
     (intro triple_cases triple_ret triple_the_inst triple_andthen [where Q = "\<lambda>_. settled n s0"]
       triple_pre [OF settled_invoke]; simp add: settled_trace)

lemma triple_transport:
  assumes "\<And>x. triple (settled n s0) (f x) Q R"
  shows "triple (settled n s0) (andthen (fcall (getTransportURL E x)) f) Q R"
  by (rule triple_andthen, rule getTransportURL_settled) (rule assms)

interpretation metadata_agent: external_agent "\<lambda>E tu. reconcileExternalOVNMetadataAgentSecret E"
  getMetadataAgentSecretName IsOVNEnabled
proof unfold_locales
  fix E :: ext and s0 and tu :: string
  assume E: "ensure_laws (cl E)" and h: "Hash (st_of s0) \<noteq> None"
  show "triple (\<lambda>s. s = s0) (reconcileExternalOVNMetadataAgentSecret E) (\<lambda>_ _. False)
      (synced (getMetadataAgentSecretName (inst s0)) (IsOVNEnabled (inst s0)) s0)"
    unfolding reconcileExternalOVNMetadataAgentSecret_def ensureExternalOVNMetadataAgentSecret_def
    by (rule agent_triple [OF _ h])
       (intro triple_cases withdraw_triple triple_invoke_settled publish_triple
          ensure_agent_triple [OF E names_by_name(3)] triple_transport; simp)+
qed (auto intro: names_by_name simp: IsOVNEnabled_def)

interpretation ovn_agent: external_agent "\<lambda>E tu. reconcileExternalOVNAgentSecret E"
  getOVNAgentSecretName IsOVNEnabled
proof unfold_locales
  fix E :: ext and s0 and tu :: string
  assume E: "ensure_laws (cl E)" and h: "Hash (st_of s0) \<noteq> None"
  show "triple (\<lambda>s. s = s0) (reconcileExternalOVNAgentSecret E) (\<lambda>_ _. False)
      (synced (getOVNAgentSecretName (inst s0)) (IsOVNEnabled (inst s0)) s0)"
    unfolding reconcileExternalOVNAgentSecret_def ensureExternalOVNAgentSecret_def
    by (rule agent_triple [OF _ h])
       (intro triple_cases withdraw_triple triple_invoke_settled publish_triple
          ensure_agent_triple [OF E names_by_name(4)] triple_transport; simp)+
qed (auto intro: names_by_name simp: IsOVNEnabled_def)

interpretation sriov_agent: external_agent reconcileExternalSriovAgentSecret
  getSriovAgentSecretName "\<lambda>_. True"
proof unfold_locales
  fix E :: ext and s0 and tu :: string
  assume E: "ensure_laws (cl E)" and h: "Hash (st_of s0) \<noteq> None"
  show "triple (\<lambda>s. s = s0) (reconcileExternalSriovAgentSecret E tu) (\<lambda>_ _. False)
      (synced (getSriovAgentSecretName (inst s0)) True s0)"
    unfolding reconcileExternalSriovAgentSecret_def ensureExternalSriovAgentSecret_def
    by (rule agent_triple [OF _ h])
       (intro triple_cases withdraw_triple triple_invoke_settled publish_triple
          ensure_agent_triple [OF E names_by_name(1)] triple_transport; simp)+
qed (auto intro: names_by_name simp: IsOVNEnabled_def)

interpretation dhcp_agent: external_agent reconcileExternalDhcpAgentSecret
  getDhcpAgentSecretName "\<lambda>_. True"
proof unfold_locales
  fix E :: ext and s0 and tu :: string
  assume E: "ensure_laws (cl E)" and h: "Hash (st_of s0) \<noteq> None"
  show "triple (\<lambda>s. s = s0) (reconcileExternalDhcpAgentSecret E tu) (\<lambda>_ _. False)
      (synced (getDhcpAgentSecretName (inst s0)) True s0)"
    unfolding reconcileExternalDhcpAgentSecret_def ensureExternalDhcpAgentSecret_def
    by (rule agent_triple [OF _ h])
       (intro triple_cases withdraw_triple triple_invoke_settled publish_triple
          ensure_agent_triple [OF E names_by_name(2)] triple_transport; simp)+
qed (auto intro: names_by_name simp: IsOVNEnabled_def)

section \<open>Two agents in sequence\<close>

definition outside :: "string set \<Rightarrow> rstate \<Rightarrow> rstate \<Rightarrow> bool" where
  "outside ns s t \<longleftrightarrow> status_only s t \<and> Hash (st_of t) \<noteq> None \<and>
     (\<forall>k. k \<notin> ns \<longrightarrow> get_hash (inst t) k = get_hash (inst s) k \<and>
        published k (trace t) = published k (trace s))"

lemma settled_outside: "settled n s t \<Longrightarrow> n \<in> ns \<Longrightarrow> outside ns s t"
  by (auto simp: settled_def outside_def)

lemma outside_trans: "outside ns s t \<Longrightarrow> outside ms t u \<Longrightarrow> outside (ns \<union> ms) s u"
  by (auto simp: outside_def intro: status_only_trans)

lemma outside_recorded: "outside ns s t \<Longrightarrow> k \<notin> ns \<Longrightarrow> recorded k s \<Longrightarrow> recorded k t"
  by (simp add: outside_def recorded_def)

locale agent_pair = one: external_agent a1 n1 w1 + two: external_agent a2 n2 w2
  for a1 n1 w1 a2 n2 w2 +
  assumes differ: "n1 i \<noteq> n2 i"
begin

lemma pair_runs:
  fixes v1 v2 tu1 tu2 :: string
  assumes E: "ensure_laws (cl E)" and h: "Hash (st_of s) \<noteq> None"
  defines "m \<equiv> andthen (try_agent v1 (a1 E tu1)) (\<lambda>_. andthen (try_agent v2 (a2 E tu2)) (\<lambda>_. ret None))"
  obtains e t where "m s = (Return e, t)" and "outside {n1 (inst s), n2 (inst s)} s t"
    and "e = None \<Longrightarrow> recorded (n1 (inst s)) t \<and> recorded (n2 (inst s)) t \<and>
      (published (n1 (inst s)) (trace t) \<longrightarrow> w1 (inst s)) \<and>
      (published (n2 (inst s)) (trace t) \<longrightarrow> w2 (inst s))"
proof (cases "try_agent v1 (a1 E tu1) s" rule: outcome_prod_cases)
  case (Panic p t)
  with one.try_returns(1) [OF E h] show ?thesis by simp
next
  case (Return e t)
  with one.try_returns(2) [OF E h Return] show ?thesis
    by (intro that [of e t]) (auto simp: m_def andthen_def intro: settled_outside)
next
  case (Next x t)
  note first = one.try_synced [OF E h Next]
  then have so: "status_only s t" and h': "Hash (st_of t) \<noteq> None" by (simp_all add: settled_def)
  note t = h' two.by_name [OF status_onlyD(1) [OF so]] two.by_spec [OF status_onlyD(4) [OF so]]
  show ?thesis
  proof (cases "try_agent v2 (a2 E tu2) t" rule: outcome_prod_cases)
    case (Panic p u)
    with two.try_returns(1) [OF E t(1)] show ?thesis by simp
  next
    case (Return e u)
    have "outside {n1 (inst s), n2 (inst s)} s u"
      using outside_trans [OF settled_outside settled_outside] first
        two.try_returns(2) [OF E t(1) Return] t(2) by (fastforce simp: insert_commute)
    with two.try_returns(2) [OF E t(1) Return] Next Return show ?thesis
      by (intro that [of e u]) (auto simp: m_def andthen_def)
  next
    case Next2: (Next y u)
    note second = two.try_synced [OF E t(1) Next2]
    have "outside {n1 (inst s), n2 (inst s)} s u"
      using outside_trans [OF settled_outside settled_outside] first second t(2)
      by (fastforce simp: insert_commute)
    moreover have "n1 (inst s) \<noteq> n2 (inst t)" using differ t(2) by simp
    then have "recorded (n1 (inst s)) u"
      and "published (n1 (inst s)) (trace u) = published (n1 (inst s)) (trace t)"
      using second first by (auto simp: settled_def recorded_def)
    ultimately show ?thesis
      using first second t(2,3) Next Next2
      by (intro that [of None u]) (auto simp: m_def prog_defs)
  qed
qed

end

lemma agent_names_differ:
  "getSriovAgentSecretName i \<noteq> getDhcpAgentSecretName i"
  "getMetadataAgentSecretName i \<noteq> getOVNAgentSecretName i"
  "{getSriovAgentSecretName i, getDhcpAgentSecretName i} \<inter>
   {getMetadataAgentSecretName i, getOVNAgentSecretName i} = {}"
  by (simp_all add: getSriovAgentSecretName_def getDhcpAgentSecretName_def
      getMetadataAgentSecretName_def getOVNAgentSecretName_def getExternalSecretName_def)

interpretation rpc_agents: agent_pair reconcileExternalSriovAgentSecret getSriovAgentSecretName
  "\<lambda>_. True" reconcileExternalDhcpAgentSecret getDhcpAgentSecretName "\<lambda>_. True"
  by unfold_locales (rule agent_names_differ)

interpretation ovn_agents: agent_pair "\<lambda>E tu. reconcileExternalOVNMetadataAgentSecret E"
  getMetadataAgentSecretName IsOVNEnabled "\<lambda>E tu. reconcileExternalOVNAgentSecret E"
  getOVNAgentSecretName IsOVNEnabled
  by unfold_locales (rule agent_names_differ)

definition agent_secrets :: "NeutronAPI \<Rightarrow> string list" where
  "agent_secrets i = [getSriovAgentSecretName i, getDhcpAgentSecretName i,
     getMetadataAgentSecretName i, getOVNAgentSecretName i]"

text \<open>
  C36. The external Secrets: both reconcile functions return, whatever the cluster answers (a
  missing OVN database or transport URL is not an error), they touch the hashes of their own
  four Secrets only, and when both report success the status records each of the four exactly
  if it stands; without the OVN mechanism driver neither OVN Secret stands.
\<close>

theorem external_secrets_recorded:
  assumes E: "ensure_laws (cl E)" and h: "Hash (Status (inst s)) \<noteq> None"
  shows "\<exists>e t e' u. reconcileExternalSecrets E tu s = (Return e, t) \<and>
    reconcileExternalOVNSecrets E t = (Return e', u) \<and>
    outside (set (agent_secrets (inst s))) s u \<and>
    (e = None \<and> e' = None \<longrightarrow>
       list_all (\<lambda>n. recorded n u) (agent_secrets (inst s)) \<and>
       (\<not> IsOVNEnabled (inst s) \<longrightarrow> \<not> published (getMetadataAgentSecretName (inst s)) (trace u) \<and>
          \<not> published (getOVNAgentSecretName (inst s)) (trace u)))"
proof -
  let ?i = "inst s"
  obtain e t where 1: "reconcileExternalSecrets E tu s = (Return e, t)"
    and t: "outside {getSriovAgentSecretName ?i, getDhcpAgentSecretName ?i} s t"
    and rec: "e = None \<Longrightarrow> recorded (getSriovAgentSecretName ?i) t \<and> recorded (getDhcpAgentSecretName ?i) t"
    unfolding reconcileExternalSecrets_def by (rule rpc_agents.pair_runs [OF E h]) blast
  from t have so: "status_only s t" and h': "Hash (st_of t) \<noteq> None" by (simp_all add: outside_def)
  note same = names_by_name [OF status_onlyD(1) [OF so]]
  have ovn: "IsOVNEnabled (inst t) = IsOVNEnabled ?i"
    using status_onlyD(4) [OF so] by (simp add: IsOVNEnabled_def)
  obtain e' u where 2: "reconcileExternalOVNSecrets E t = (Return e', u)"
    and u: "outside {getMetadataAgentSecretName ?i, getOVNAgentSecretName ?i} t u"
    and rec': "e' = None \<Longrightarrow> recorded (getMetadataAgentSecretName ?i) u \<and>
       recorded (getOVNAgentSecretName ?i) u \<and>
       (published (getMetadataAgentSecretName ?i) (trace u) \<longrightarrow> IsOVNEnabled ?i) \<and>
       (published (getOVNAgentSecretName ?i) (trace u) \<longrightarrow> IsOVNEnabled ?i)"
    unfolding reconcileExternalOVNSecrets_def
    by (rule ovn_agents.pair_runs [OF E h']) (simp only: same ovn, blast)
  have "outside (set (agent_secrets ?i)) s u"
    using outside_trans [OF t u] by (simp add: agent_secrets_def insert_commute)
  moreover have "recorded (getSriovAgentSecretName ?i) u \<and> recorded (getDhcpAgentSecretName ?i) u"
    if "e = None"
    using rec [OF that] agent_names_differ(3) [of ?i] outside_recorded [OF u] by blast
  ultimately show ?thesis
    using 1 2 rec' by (auto simp: agent_secrets_def)
qed

lemma plain_ensure_laws: "ensure_laws plain_cluster"
  by (auto simp: ensure_laws_def plain_cluster_def image_image)

definition hashed_state :: rstate where
  "hashed_state = fresh_state\<lparr>inst := blank_api\<lparr>Status := blank_status\<lparr>Hash := Some Map.empty\<rparr>\<rparr>\<rparr>"

theorem external_secrets_recorded_witness:
  "\<exists>e t. reconcileExternalSecrets (plain_ext plain_cluster) ''tu-secret'' hashed_state = (Return e, t)"
proof -
  have "ensure_laws (cl (plain_ext plain_cluster))" by (simp add: plain_ensure_laws)
  moreover have "Hash (Status (inst hashed_state)) \<noteq> None" by (simp add: hashed_state_def)
  ultimately show ?thesis using external_secrets_recorded by blast
qed

end
