(* ===== verification/ImageProbe.thy ===== *)
theory ImageProbe
  imports Frames
begin

text \<open>
  \<^verbatim>\<open>IsWSGIEffective\<close> of \<^verbatim>\<open>internal/neutronapi/imageprobe.go\<close>: the deployment strategy after
  the image probe, and the life of the probe Job over many reconciles as a state machine.
\<close>

definition imageProbeHash :: string where "imageProbeHash = ''imageprobe''"

definition IsWSGIEffective ::
  "ext \<Rightarrow> (string \<rightharpoonup> string) \<Rightarrow> (string \<rightharpoonup> string) \<Rightarrow> (rstate, bool, bool) prog" where
  "IsWSGIEffective E labels annotations =
     andthen the_inst (\<lambda>i.
     if \<not> IsWSGI i then ret False
     else (let probeJobDef = ImageProbeJob (pod E) i labels annotations in
       andthen (invoke (aProbeJob (cl E)) (GetJob (JobName probeJobDef) (Namespace i))) (\<lambda>r.
       case r of
         Inr j \<Rightarrow>
           if length (PJImages j) > 0 \<and> hd (PJImages j) \<noteq> ContainerImage (Spec i)
           then andthen (invoke (aErr (cl E)) (DeleteJob (PJName j) (PJNamespace j)))
                  (\<lambda>delErr. ret True)
           else if PJSucceeded j > 0 then ret True
           else if PJFailed j > 0 then ret False
           else ret True
       | Inl e \<Rightarrow>
           if \<not> IsNotFound e then ret True
           else andthen (invoke (aJob (cl E)) (DoJob probeJobDef imageProbeHash True 5 []))
                  (\<lambda>_. ret True))))"

section \<open>What one evaluation does\<close>

definition probe_answer :: "ext \<Rightarrow> rstate \<Rightarrow> goerror + ProbeJob" where
  "probe_answer E s =
     aProbeJob (cl E) (trace s @ [GetJob (ImageProbeJobName (inst s)) (Namespace (inst s))])"

definition stale_for :: "string \<Rightarrow> ProbeJob \<Rightarrow> bool" where
  "stale_for im j \<longleftrightarrow> PJImages j \<noteq> [] \<and> hd (PJImages j) \<noteq> im"

definition probe_calls ::
  "ext \<Rightarrow> rstate \<Rightarrow> (string \<rightharpoonup> string) \<Rightarrow> (string \<rightharpoonup> string) \<Rightarrow> call list" where
  "probe_calls E s labels annotations =
     (if \<not> IsWSGI (inst s) then []
      else GetJob (ImageProbeJobName (inst s)) (Namespace (inst s)) #
        (case probe_answer E s of
           Inr j \<Rightarrow> if stale_for (ContainerImage (Spec (inst s))) j
                    then [DeleteJob (PJName j) (PJNamespace j)] else []
         | Inl e \<Rightarrow> if IsNotFound e
                    then [DoJob (ImageProbeJob (pod E) (inst s) labels annotations)
                            imageProbeHash True 5 []] else []))"

definition probe_verdict :: "ext \<Rightarrow> rstate \<Rightarrow> bool" where
  "probe_verdict E s \<longleftrightarrow> IsWSGI (inst s) \<and>
     (case probe_answer E s of
        Inr j \<Rightarrow> stale_for (ContainerImage (Spec (inst s))) j \<or> PJSucceeded j > 0 \<or> PJFailed j \<le> 0
      | Inl e \<Rightarrow> True)"

lemma ImageProbeJob_fields [simp]:
  "JobName (ImageProbeJob L i ls an) = ImageProbeJobName i"
  "map Image (Containers (JobPod (ImageProbeJob L i ls an))) = [ContainerImage (Spec i)]"
  by (simp_all add: ImageProbeJob_def Let_def job_container_def pod_spec_def split: option.splits)

lemma IsWSGIEffective_run:
  "IsWSGIEffective E ls an s =
     (Return (probe_verdict E s), s\<lparr>trace := trace s @ probe_calls E s ls an\<rparr>)"
proof (cases "IsWSGI (inst s)")
  case False
  then show ?thesis
    by (simp add: IsWSGIEffective_def prog_defs the_inst_def probe_verdict_def probe_calls_def)
next
  case True
  then show ?thesis
    by (cases "probe_answer E s")
       (auto simp: IsWSGIEffective_def prog_defs the_inst_def invoke_def Let_def probe_answer_def
        probe_verdict_def probe_calls_def stale_for_def)
qed

lemma calm_IsWSGIEffective [frames]:
  assumes "\<And>n ns. P (GetJob n ns)" and "\<And>n ns. P (DeleteJob n ns)"
    and "\<And>j a b c d. P (DoJob j a b c d)"
  shows "always (calm T P) (IsWSGIEffective E ls an)"
  unfolding IsWSGIEffective_def Let_def
  by (intro calm_rules) (use assms in simp_all)

section \<open>The life of the probe Job\<close>

text \<open>
  The Jobs of the cluster, by namespace and name: each with its definition, how far it has come
  and whether its deletion is pending. A Job runs the command of its container in the image of
  the container (\<open>run\<close> tells whether that exits with 0), or it fails without a verdict: with a
  backoff limit of 0 an eviction or an image that cannot be pulled is enough.
\<close>

datatype probe_phase = Running | Exited bool | Broken

record JobRun =
  RunJob :: JobObj
  RunPhase :: probe_phase
  RunDeleting :: bool

type_synonym probe_store = "string \<times> string \<rightharpoonup> JobRun"
type_synonym image_run = "string \<Rightarrow> string list \<Rightarrow> string list \<Rightarrow> bool"

definition run_images :: "JobRun \<Rightarrow> string list" where
  "run_images r = map Image (Containers (JobPod (RunJob r)))"

definition job_exit :: "image_run \<Rightarrow> JobObj \<Rightarrow> bool" where
  "job_exit run j = (case Containers (JobPod j) of
     [] \<Rightarrow> True | c # _ \<Rightarrow> run (Image c) (Command c) (Args c))"

definition probe_key :: "NeutronAPI \<Rightarrow> string \<times> string" where
  "probe_key i = (Namespace i, ImageProbeJobName i)"

definition job_answer :: "probe_store \<Rightarrow> string \<times> string \<Rightarrow> goerror + ProbeJob" where
  "job_answer st k = (case st k of
     None \<Rightarrow> Inl (LibErr True ''job not found'')
   | Some r \<Rightarrow> Inr \<lparr>PJName = JobName (RunJob r), PJNamespace = JobNamespace (RunJob r),
       PJImages = run_images r, PJSucceeded = (if RunPhase r = Exited True then 1 else 0),
       PJFailed = (if RunPhase r = Exited False \<or> RunPhase r = Broken then 1 else 0)\<rparr>)"

text \<open>
  What a call leaves in the store: one that is answered without an error has its effect, one
  that is answered with an error may have it or not.
\<close>

definition mark_deleting :: "string \<times> string \<Rightarrow> probe_store \<Rightarrow> probe_store" where
  "mark_deleting k st = st(k := map_option (\<lambda>r. r\<lparr>RunDeleting := True\<rparr>) (st k))"

definition create_job :: "JobObj \<Rightarrow> probe_store \<Rightarrow> probe_store" where
  "create_job j st = (let k = (JobNamespace j, JobName j) in
     case st k of
       None \<Rightarrow> st(k \<mapsto> \<lparr>RunJob = j, RunPhase = Running, RunDeleting = False\<rparr>)
     | Some r \<Rightarrow> st)"

fun accepted :: "ext \<Rightarrow> call list \<Rightarrow> call \<Rightarrow> bool" where
  "accepted E cs (DeleteJob n ns) = (aErr (cl E) cs = None)"
| "accepted E cs (DoJob j a b c d) = (snd (fst (aJob (cl E) cs)) = None)"
| "accepted E cs c = True"

fun job_effect :: "call \<Rightarrow> probe_store \<Rightarrow> probe_store" where
  "job_effect (DeleteJob n ns) st = mark_deleting (ns, n) st"
| "job_effect (DoJob j a b c d) st = create_job j st"
| "job_effect c st = st"

fun outcomes :: "ext \<Rightarrow> call list \<Rightarrow> call list \<Rightarrow> probe_store \<Rightarrow> probe_store list" where
  "outcomes E pre [] st = [st]"
| "outcomes E pre (c # cs) st =
     (let done_st = job_effect c st; pre' = pre @ [c] in
      if accepted E pre' c then outcomes E pre' cs done_st
      else outcomes E pre' cs done_st @ outcomes E pre' cs st)"

fun all_accepted :: "ext \<Rightarrow> call list \<Rightarrow> call list \<Rightarrow> bool" where
  "all_accepted E pre [] = True"
| "all_accepted E pre (c # cs) = (accepted E (pre @ [c]) c \<and> all_accepted E (pre @ [c]) cs)"

text \<open>The read of the Job is answered from the store, or fails.\<close>

definition answered_from :: "probe_store \<Rightarrow> ext \<Rightarrow> rstate \<Rightarrow> bool" where
  "answered_from st E s \<longleftrightarrow> probe_answer E s = job_answer st (probe_key (inst s))"

definition read_fails :: "ext \<Rightarrow> rstate \<Rightarrow> bool" where
  "read_fails E s \<longleftrightarrow> (case probe_answer E s of Inl e \<Rightarrow> \<not> IsNotFound e | Inr j \<Rightarrow> False)"

text \<open>
  Steps: the reconciler evaluates the strategy for some resource, whatever it was edited to;
  a Job runs to its end; a Job fails without a verdict; a Job is removed from the cluster, by a
  pending deletion or by anyone.
\<close>

inductive probe_step :: "image_run \<Rightarrow> probe_store \<Rightarrow> probe_store \<Rightarrow> bool" for run where
  evaluate: "answered_from st E s \<or> read_fails E s \<Longrightarrow>
    IsWSGIEffective E ls an s = (Return b, s') \<Longrightarrow> trace s' = trace s @ cs \<Longrightarrow>
    st' \<in> set (outcomes E (trace s) cs st) \<Longrightarrow> probe_step run st st'"
| finish: "st k = Some r \<Longrightarrow> RunPhase r = Running \<Longrightarrow>
    probe_step run st (st(k \<mapsto> r\<lparr>RunPhase := Exited (job_exit run (RunJob r))\<rparr>))"
| breakdown: "st k = Some r \<Longrightarrow> RunPhase r = Running \<Longrightarrow>
    probe_step run st (st(k \<mapsto> r\<lparr>RunPhase := Broken\<rparr>))"
| remove: "probe_step run st (st(k := None))"

inductive probe_reach :: "image_run \<Rightarrow> probe_store \<Rightarrow> bool" for run where
  start: "probe_reach run Map.empty"
| step: "probe_reach run x \<Longrightarrow> probe_step run x y \<Longrightarrow> probe_reach run y"

text \<open>What the shell does with the test of a file, at an absolute path of plain characters.\<close>

definition plain_path :: "string \<Rightarrow> bool" where
  "plain_path p \<longleftrightarrow> p \<noteq> [] \<and> hd p = CHR ''/'' \<and>
     set p \<subseteq> set ''/-_.abcdefghijklmnopqrstuvwxyzABCDEFGHIJKLMNOPQRSTUVWXYZ0123456789''"

definition shell_laws :: "image_run \<Rightarrow> (string \<Rightarrow> string \<Rightarrow> bool) \<Rightarrow> bool" where
  "shell_laws run has_file \<longleftrightarrow> (\<forall>im p. plain_path p \<longrightarrow>
     run im [''/bin/bash''] [''-c'', ''test -f '' @ p] = has_file im p \<and>
     run im [''/bin/bash''] [''-c'', ''test ! -f '' @ p] = (\<not> has_file im p))"

section \<open>Every Job is a probe of its own image\<close>

definition probe_of :: "string \<times> string \<Rightarrow> JobObj \<Rightarrow> bool" where
  "probe_of k j \<longleftrightarrow> (\<exists>L i ls an. j = ImageProbeJob L i ls an \<and> k = probe_key i)"

definition probes_only :: "probe_store \<Rightarrow> bool" where
  "probes_only st \<longleftrightarrow> (\<forall>k r. st k = Some r \<longrightarrow> probe_of k (RunJob r))"

definition verdicts_own :: "image_run \<Rightarrow> probe_store \<Rightarrow> bool" where
  "verdicts_own run st \<longleftrightarrow>
     (\<forall>k r b. st k = Some r \<and> RunPhase r = Exited b \<longrightarrow> b = job_exit run (RunJob r))"

lemma ImageProbeJob_key [simp]: "JobNamespace (ImageProbeJob L i ls an) = Namespace i"
  by (simp add: ImageProbeJob_def Let_def)

lemma ImageProbeJob_exit:
  "job_exit run (ImageProbeJob L i ls an) =
     run (ContainerImage (Spec i)) [''/bin/bash''] [''-c'', ImageProbeCommand]"
  by (simp add: job_exit_def ImageProbeJob_def Let_def job_container_def pod_spec_def split: option.splits)

lemma probe_verdict_of_image:
  assumes laws: "shell_laws run has_file" and r: "probe_of k (RunJob r)"
    and im: "run_images r = [im]"
  shows "job_exit run (RunJob r) = (\<not> has_file im NeutronServerBinaryPath)"
proof -
  from r obtain L i ls an where j: "RunJob r = ImageProbeJob L i ls an" by (auto simp: probe_of_def)
  with im have "ContainerImage (Spec i) = im" by (simp only: run_images_def j ImageProbeJob_fields) simp
  moreover have "plain_path NeutronServerBinaryPath" by (simp add: plain_path_def NeutronServerBinaryPath_def)
  ultimately show ?thesis
    using laws by (simp only: j ImageProbeJob_exit shell_laws_def ImageProbeCommand_def)
qed

lemma probes_only_effect:
  assumes "probes_only st \<and> verdicts_own run st"
  shows "probes_only (mark_deleting k st) \<and> verdicts_own run (mark_deleting k st)"
    and "probes_only (create_job (ImageProbeJob L i ls an) st) \<and>
      verdicts_own run (create_job (ImageProbeJob L i ls an) st)"
  using assms
  by (auto simp: probes_only_def verdicts_own_def probe_of_def mark_deleting_def create_job_def Let_def
      probe_key_def split: option.splits)

lemma probes_only_outcomes:
  assumes "probes_only st \<and> verdicts_own run st"
    and "st' \<in> set (outcomes E (trace s) (probe_calls E s ls an) st)"
  shows "probes_only st' \<and> verdicts_own run st'"
  using assms
  by (auto simp: probe_calls_def Let_def probes_only_effect split: if_splits sum.splits)

lemma reach_probes_only: "probe_reach run st \<Longrightarrow> probes_only st \<and> verdicts_own run st"
proof (induction rule: probe_reach.induct)
  case (step x y)
  from step.hyps(2) step.IH show ?case
  proof cases
    case (evaluate E s ls an b s' cs)
    then have "cs = probe_calls E s ls an" by (auto simp: IsWSGIEffective_run)
    with evaluate have "y \<in> set (outcomes E (trace s) (probe_calls E s ls an) x)" by simp
    then show ?thesis by (rule probes_only_outcomes [OF step.IH])
  qed (auto simp: probes_only_def verdicts_own_def)
qed (simp add: probes_only_def verdicts_own_def)

lemma run_images_ImageProbeJob [simp]:
  "run_images \<lparr>RunJob = ImageProbeJob L i ls an, RunPhase = ph, RunDeleting = d\<rparr> = [ContainerImage (Spec i)]"
  by (simp add: run_images_def del: map_eq_Cons_conv)

lemma run_images_cong: "RunJob r = RunJob r' \<Longrightarrow> run_images r = run_images r'"
  by (simp add: run_images_def)

lemma probe_of_shape:
  assumes "probe_of k (RunJob r)"
  obtains im where "run_images r = [im]" "JobName (RunJob r) = snd k" "JobNamespace (RunJob r) = fst k"
  using assms by (auto simp: probe_of_def run_images_def probe_key_def simp del: map_eq_Cons_conv)

text \<open>What an evaluation reads and does, by the Job that is stored for the resource.\<close>

lemma evaluated:
  assumes "probes_only st" and "answered_from st E s" and "IsWSGI (inst s)"
  shows "probe_verdict E s = (case st (probe_key (inst s)) of None \<Rightarrow> True
      | Some r \<Rightarrow> run_images r \<noteq> [ContainerImage (Spec (inst s))] \<or>
          RunPhase r = Exited True \<or> RunPhase r = Running) \<and>
    probe_calls E s ls an = GetJob (ImageProbeJobName (inst s)) (Namespace (inst s)) #
      (case st (probe_key (inst s)) of
         None \<Rightarrow> [DoJob (ImageProbeJob (pod E) (inst s) ls an) imageProbeHash True 5 []]
       | Some r \<Rightarrow> if run_images r = [ContainerImage (Spec (inst s))] then []
           else [DeleteJob (ImageProbeJobName (inst s)) (Namespace (inst s))])"
proof (cases "st (probe_key (inst s))")
  case None
  with assms show ?thesis
    by (simp add: answered_from_def job_answer_def probe_verdict_def probe_calls_def)
next
  case (Some r)
  with assms(1) have "probe_of (probe_key (inst s)) (RunJob r)" unfolding probes_only_def by blast
  then obtain im where "run_images r = [im]" "JobName (RunJob r) = snd (probe_key (inst s))"
    "JobNamespace (RunJob r) = fst (probe_key (inst s))"
    by (rule probe_of_shape)
  with Some assms(2,3) show ?thesis
    by (cases "RunPhase r") (simp_all add: answered_from_def job_answer_def probe_verdict_def
        probe_calls_def stale_for_def probe_key_def)
qed

lemma unread:
  assumes "read_fails E s" and "IsWSGI (inst s)"
  shows "probe_verdict E s" and
    "probe_calls E s ls an = [GetJob (ImageProbeJobName (inst s)) (Namespace (inst s))]"
  using assms by (auto simp: read_fails_def probe_verdict_def probe_calls_def split: sum.splits)

lemma all_accepted_outcome:
  "all_accepted E pre cs \<Longrightarrow> outcomes E pre cs st = [fold job_effect cs st]"
  by (induction cs arbitrary: pre st) (simp_all add: Let_def)

lemma evaluation_effect:
  assumes P: "probes_only st" and ans: "answered_from st E s" and wsgi: "IsWSGI (inst s)"
  shows "fold job_effect (probe_calls E s ls an) st =
    (case st (probe_key (inst s)) of
       None \<Rightarrow> st(probe_key (inst s) \<mapsto>
         \<lparr>RunJob = ImageProbeJob (pod E) (inst s) ls an, RunPhase = Running, RunDeleting = False\<rparr>)
     | Some r \<Rightarrow> if run_images r = [ContainerImage (Spec (inst s))] then st
         else mark_deleting (probe_key (inst s)) st)"
  using evaluated [OF P ans wsgi, of ls an]
  by (auto simp: create_job_def probe_key_def Let_def split: option.splits)

text \<open>
  A shell over images of which some have the server binary, and a cluster that answers from a
  given store, for the examples.
\<close>

definition test_run :: "(string \<Rightarrow> string \<Rightarrow> bool) \<Rightarrow> image_run" where
  "test_run has_file im cmd args =
     (if args = [] then False
      else if take 8 (last args) = ''test -f '' then has_file im (drop 8 (last args))
      else \<not> has_file im (drop 10 (last args)))"

lemma test_run_laws: "shell_laws (test_run has_file) has_file"
  by (simp add: shell_laws_def test_run_def)

definition probe_ext :: "probe_store \<Rightarrow> ext" where
  "probe_ext st = plain_ext (plain_cluster\<lparr>aProbeJob := \<lambda>_. job_answer st (probe_key blank_api)\<rparr>)"

definition imaged :: "string \<Rightarrow> NeutronAPI" where
  "imaged im = blank_api\<lparr>Spec := (Spec blank_api)\<lparr>ContainerImage := im\<rparr>\<rparr>"

definition imaged_state :: "string \<Rightarrow> rstate" where
  "imaged_state im = fresh_state\<lparr>inst := imaged im\<rparr>"

definition imaged_probe :: "string \<Rightarrow> probe_phase \<Rightarrow> JobRun" where
  "imaged_probe im ph = \<lparr>RunJob = ImageProbeJob plain_pod (imaged im) Map.empty Map.empty, RunPhase = ph,
     RunDeleting = False\<rparr>"

lemma imaged_fields [simp]:
  "inst (imaged_state im) = imaged im" "trace (imaged_state im) = []"
  "ContainerImage (Spec (imaged im)) = im" "probe_key (imaged im) = probe_key blank_api"
  "IsWSGI (imaged im)" "Namespace (imaged im) = ''openstack''"
  "ImageProbeJobName (imaged im) = ''neutron-image-probe''"
  "run_images (imaged_probe im ph) = [im]" "RunPhase (imaged_probe im ph) = ph"
  "\<not> RunDeleting (imaged_probe im ph)"
proof -
  show "IsWSGI (imaged im)" using plain_fields(10) by (simp add: IsWSGI_def imaged_def)
qed (simp_all add: imaged_def imaged_state_def imaged_probe_def plain_fields probe_key_def ImageProbeJobName_def)

lemma probe_ext_answers: "answered_from st (probe_ext st) (imaged_state im)"
  by (simp add: answered_from_def probe_answer_def probe_ext_def)

lemma probe_ext_fields [simp]: "pod (probe_ext st) = plain_pod" "accepted (probe_ext st) cs c"
  by (simp add: probe_ext_def plain_ext_def)
     (cases c; simp add: probe_ext_def plain_ext_def plain_cluster_def)

lemma probe_ext_all_accepted [simp]: "all_accepted (probe_ext st) pre cs"
  by (induction cs arbitrary: pre) simp_all

lemma imaged_probe_reached:
  "probe_reach run [probe_key blank_api \<mapsto> imaged_probe im (Exited (job_exit run (RunJob (imaged_probe im Running))))]"
proof -
  let ?k = "probe_key blank_api" and ?r = "imaged_probe im Running"
  let ?cs = "probe_calls (probe_ext Map.empty) (imaged_state im) Map.empty Map.empty"
  have "probes_only Map.empty" by (simp add: probes_only_def)
  from evaluation_effect [OF this probe_ext_answers, of im Map.empty Map.empty]
  have "[?k \<mapsto> ?r] \<in> set (outcomes (probe_ext Map.empty) (trace (imaged_state im)) ?cs Map.empty)"
    by (simp add: all_accepted_outcome imaged_probe_def)
  then have "probe_step run Map.empty [?k \<mapsto> ?r]"
    by (intro probe_step.evaluate [OF disjI1 [OF probe_ext_answers] IsWSGIEffective_run]) simp_all
  from probe_reach.step [OF probe_reach.step [OF probe_reach.start this] probe_step.finish [of _ ?k ?r]]
  have "probe_reach run ([?k \<mapsto> ?r](?k \<mapsto> ?r\<lparr>RunPhase := Exited (job_exit run (RunJob ?r))\<rparr>))"
    by simp
  then show ?thesis by (simp add: imaged_probe_def)
qed

text \<open>
  C34. The image probe is sound: in every reachable state of the Jobs, with the wsgi annotation
  in force, the eventlet strategy is chosen only when a Job for the current image has failed,
  and that Job either ran to its end and the image has the server binary, or it broke down
  without a verdict; once a Job for the current image has run to its end and is read, the
  choice is exactly whether the image lacks the binary; and while a Job for the current image
  is there no evaluation deletes it or starts another.
\<close>

theorem image_probe_sound:
  assumes laws: "shell_laws run has_file" and reach: "probe_reach run st"
    and ans: "answered_from st E s \<or> read_fails E s" and wsgi: "IsWSGI (inst s)"
  shows "case IsWSGIEffective E ls an s of
      (Return wsgi, s') \<Rightarrow>
        (\<not> wsgi \<longrightarrow> (\<exists>r. st (probe_key (inst s)) = Some r \<and> run_images r = [ContainerImage (Spec (inst s))] \<and>
           (RunPhase r = Exited False \<and> has_file (ContainerImage (Spec (inst s))) NeutronServerBinaryPath \<or>
            RunPhase r = Broken))) \<and>
        (\<forall>r. st (probe_key (inst s)) = Some r \<and> run_images r = [ContainerImage (Spec (inst s))] \<longrightarrow>
           trace s' = trace s @ [GetJob (ImageProbeJobName (inst s)) (Namespace (inst s))] \<and>
           (\<forall>b. RunPhase r = Exited b \<and> answered_from st E s \<longrightarrow>
              wsgi = (\<not> has_file (ContainerImage (Spec (inst s))) NeutronServerBinaryPath)))
    | _ \<Rightarrow> False"
proof -
  have P: "probes_only st" and V: "verdicts_own run st" using reach_probes_only [OF reach] by blast+
  have verdict: "b = (\<not> has_file im NeutronServerBinaryPath)"
    if "st k = Some r" "RunPhase r = Exited b" "run_images r = [im]" for k r b im
    using probe_verdict_of_image [OF laws _ that(3)] P V that(1,2)
    unfolding probes_only_def verdicts_own_def by blast
  show ?thesis
  proof (cases "answered_from st E s")
    case True
    then show ?thesis
      using evaluated [OF P True wsgi, of ls an]
      by (cases "st (probe_key (inst s))"; cases "RunPhase (the (st (probe_key (inst s))))")
         (auto simp: IsWSGIEffective_run dest: verdict)
  next
    case False
    with ans have "read_fails E s" by simp
    with False show ?thesis by (simp add: IsWSGIEffective_run unread [OF _ wsgi])
  qed
qed

theorem image_probe_sound_witness:
  "case IsWSGIEffective (probe_ext [probe_key blank_api \<mapsto> imaged_probe ''old'' (Exited False)])
       Map.empty Map.empty (imaged_state ''old'') of
     (Return wsgi, s') \<Rightarrow> wsgi = False \<and> trace s' = [GetJob ''neutron-image-probe'' ''openstack'']
   | _ \<Rightarrow> False"
proof -
  let ?run = "test_run (\<lambda>_ _. True)" and ?st = "[probe_key blank_api \<mapsto> imaged_probe ''old'' (Exited False)]"
  have "job_exit ?run (RunJob (imaged_probe ''old'' Running)) = False"
    by (simp add: imaged_probe_def ImageProbeJob_exit test_run_def ImageProbeCommand_def)
  then have "probe_reach ?run ?st" using imaged_probe_reached [of ?run "''old''"] by simp
  from image_probe_sound [OF test_run_laws this disjI1 [OF probe_ext_answers], of "''old''" Map.empty Map.empty]
  show ?thesis by (auto simp: IsWSGIEffective_run probe_ext_answers)
qed

text \<open>
  C35. The probe converges from any reachable state of the Jobs, with a Job of another image, a
  Job that is being deleted or none: with the wsgi annotation in force and the image left alone,
  two evaluations whose calls the cluster answers without an error, and between which it
  completes the pending deletions while Jobs may run on or break, leave a Job for the current
  image that is not being deleted.
\<close>

definition collected :: "probe_store \<Rightarrow> probe_store" where
  "collected st = (\<lambda>k. case st k of None \<Rightarrow> None | Some r \<Rightarrow> if RunDeleting r then None else Some r)"

definition ran_on :: "probe_store \<Rightarrow> probe_store \<Rightarrow> bool" where
  "ran_on st st' \<longleftrightarrow>
     (\<forall>k. map_option (\<lambda>r. (RunJob r, RunDeleting r)) (st' k) = map_option (\<lambda>r. (RunJob r, RunDeleting r)) (st k))"

lemma ran_on_refl: "ran_on st st"
  by (simp add: ran_on_def)

lemma ran_on_job:
  assumes "ran_on (collected st) st'" and "st' k = Some r"
  shows "\<not> RunDeleting r \<and> (\<exists>r0. st k = Some r0 \<and> \<not> RunDeleting r0 \<and> RunJob r0 = RunJob r)"
proof -
  have "map_option (\<lambda>r. (RunJob r, RunDeleting r)) (st' k) =
      map_option (\<lambda>r. (RunJob r, RunDeleting r)) (collected st k)"
    using assms(1) unfolding ran_on_def by blast
  with assms(2) show ?thesis by (auto simp: collected_def split: option.splits if_splits)
qed

lemma probes_only_ran_on: "probes_only st \<Longrightarrow> ran_on (collected st) st' \<Longrightarrow> probes_only st'"
  unfolding probes_only_def using ran_on_job by metis

theorem image_probe_converges:
  assumes reach: "probe_reach run st" and wsgi: "IsWSGI i"
    and one: "inst s1 = i" "answered_from st E1 s1"
      "IsWSGIEffective E1 ls1 an1 s1 = (Return b1, t1)" "trace t1 = trace s1 @ cs1"
      "all_accepted E1 (trace s1) cs1" "st1 \<in> set (outcomes E1 (trace s1) cs1 st)"
    and between: "ran_on (collected st1) st2"
    and two: "inst s2 = i" "answered_from st2 E2 s2"
      "IsWSGIEffective E2 ls2 an2 s2 = (Return b2, t2)" "trace t2 = trace s2 @ cs2"
      "all_accepted E2 (trace s2) cs2" "st3 \<in> set (outcomes E2 (trace s2) cs2 st2)"
  shows "\<exists>r. st3 (probe_key i) = Some r \<and> run_images r = [ContainerImage (Spec i)] \<and> \<not> RunDeleting r"
proof -
  have cs: "cs1 = probe_calls E1 s1 ls1 an1" "cs2 = probe_calls E2 s2 ls2 an2"
    using one(3,4) two(3,4) by (auto simp: IsWSGIEffective_run)
  have P: "probes_only st" using reach_probes_only [OF reach] by blast
  have st1: "st1 = fold job_effect cs1 st" and st3: "st3 = fold job_effect cs2 st2"
    using one(5,6) two(5,6) by (simp_all add: all_accepted_outcome)
  have "probe_step run st st1" by (rule probe_step.evaluate [OF disjI1 [OF one(2)] one(3,4,6)])
  then have P1: "probes_only st1" using reach_probes_only probe_reach.step [OF reach] by blast
  note P2 = probes_only_ran_on [OF P1 between]
  have left: "run_images r = [ContainerImage (Spec i)] \<and> \<not> RunDeleting r" if r: "st2 (probe_key i) = Some r" for r
  proof -
    from ran_on_job [OF between r] obtain r0 where r0: "\<not> RunDeleting r"
      "st1 (probe_key i) = Some r0" "\<not> RunDeleting r0" "RunJob r0 = RunJob r" by blast
    from r0(2,3) have "run_images r0 = [ContainerImage (Spec i)]"
      using evaluation_effect [OF P one(2), of ls1 an1] wsgi one(1)
      by (auto simp: st1 cs mark_deleting_def split: option.splits if_splits)
    with r0 show ?thesis using run_images_cong by metis
  qed
  show ?thesis
    using evaluation_effect [OF P2 two(2), of ls2 an2] wsgi two(1) left
    by (auto simp: st3 cs split: option.splits)
qed

theorem image_probe_converges_witness:
  "let st = [probe_key blank_api \<mapsto> imaged_probe ''old'' (Exited True)];
       st1 = fold job_effect (probe_calls (probe_ext st) (imaged_state ''new'') Map.empty Map.empty) st;
       st2 = collected st1 in
   \<exists>r. fold job_effect (probe_calls (probe_ext st2) (imaged_state ''new'') Map.empty Map.empty) st2
         (probe_key blank_api) = Some r \<and> run_images r = [''new''] \<and> \<not> RunDeleting r"
proof -
  let ?run = "test_run (\<lambda>_ _. False)" and ?s = "imaged_state ''new''"
  let ?st = "[probe_key blank_api \<mapsto> imaged_probe ''old'' (Exited True)]"
  let ?cs1 = "probe_calls (probe_ext ?st) ?s Map.empty Map.empty"
  let ?st1 = "fold job_effect ?cs1 ?st"
  let ?cs2 = "probe_calls (probe_ext (collected ?st1)) ?s Map.empty Map.empty"
  have "job_exit ?run (RunJob (imaged_probe ''old'' Running)) = True"
    by (simp add: imaged_probe_def ImageProbeJob_exit test_run_def ImageProbeCommand_def)
  then have "probe_reach ?run ?st" using imaged_probe_reached [of ?run "''old''"] by simp
  then have "\<exists>r. fold job_effect ?cs2 (collected ?st1) (probe_key (imaged ''new'')) = Some r \<and>
      run_images r = [ContainerImage (Spec (imaged ''new''))] \<and> \<not> RunDeleting r"
    by (rule image_probe_converges [where ?ls1.0 = Map.empty and ?an1.0 = Map.empty and ?ls2.0 = Map.empty and ?an2.0 = Map.empty,
          OF _ imaged_fields(5) imaged_fields(1) probe_ext_answers IsWSGIEffective_run _ _ _ ran_on_refl
          imaged_fields(1) probe_ext_answers IsWSGIEffective_run])
       (simp_all add: all_accepted_outcome del: fun_upd_apply)
  then show ?thesis by (simp add: Let_def)
qed

end
