(* ===== verification/ServiceConfig.thy ===== *)
theory ServiceConfig
  imports ExternalSecrets ImageProbe
begin

text \<open>
  The configuration Secrets of the service (\<^verbatim>\<open>generateServiceSecrets\<close>), the hash over all
  inputs (\<^verbatim>\<open>createHashOfInputHashes\<close>) and the database (\<^verbatim>\<open>ensureDB\<close>), from
  \<^verbatim>\<open>internal/controller/neutronapi_controller.go\<close>.
\<close>

section \<open>The parameters of the templates\<close>

definition customData :: "NeutronAPI \<Rightarrow> DB \<Rightarrow> (string \<times> string) list" where
  "customData i db =
     fold (\<lambda>(k, v). AList.update k v) (DefaultConfigOverwrite (Spec i))
       [(''02-neutron-custom.conf'', CustomServiceConfig (Spec i)),
        (''my.cnf'', DatabaseClientConfig db (CaBundleSecretName (TLS (Spec i)) \<noteq> []))]"

definition vhost :: "ext \<Rightarrow> NeutronAPI \<Rightarrow> endpoint \<Rightarrow> string \<times> tval" where
  "vhost E i endpt =
     (endpt, TMap
       ([(''ServerName'', TStr (''neutron-'' @ endpt @ ''.'' @ Namespace i @ ''.svc'')),
         (''TLS'', TBool (APIEnabled (pod E) (TLS_API (TLS (Spec i))) endpt))]
        @ (if APIEnabled (pod E) (TLS_API (TLS (Spec i))) endpt
           then [(''SSLCertificateFile'', TStr (''/etc/pki/tls/certs/'' @ endpt @ ''.crt'')),
                 (''SSLCertificateKeyFile'', TStr (''/etc/pki/tls/private/'' @ endpt @ ''.key''))]
           else [])))"

definition httpdVhostConfig :: "ext \<Rightarrow> NeutronAPI \<Rightarrow> tval" where
  "httpdVhostConfig E i = TMap (map (vhost E i) [EndpointInternal, EndpointPublic])"

text \<open>The application credential: the error, or the parameters it adds.\<close>

definition ac_params ::
  "ext \<Rightarrow> (rstate, goerror option, (string \<times> tval) list) prog" where
  "ac_params E =
     andthen the_inst (\<lambda>i.
     let ac = AuthApplicationCredentialSecret (Spec i) in
     if ac = [] then ok [(''UseApplicationCredentials'', TBool False)]
     else
       andthen (invoke (aSecret (cl E)) (GetSecret ac (Namespace i))) (\<lambda>r.
       case r of
         Inl e \<Rightarrow> if IsNotFound e then ret (Some (Errorf [] ErrACSecretNotFound ('': '' @ ac)))
                  else ret (Some e)
       | Inr data \<Rightarrow>
           (case (data (ACIDSecretKey (ut E)), data (ACSecretSecretKey (ut E))) of
              (Some acID, Some acSecretData) \<Rightarrow>
                if length acID = 0 \<or> length acSecretData = 0
                then ret (Some (Errorf [] ErrACSecretMissingKeys ('': '' @ ac)))
                else ok [(''UseApplicationCredentials'', TBool True), (''ACID'', TStr acID),
                         (''ACSecret'', TStr acSecretData)]
            | _ \<Rightarrow> ret (Some (Errorf [] ErrACSecretMissingKeys ('': '' @ ac))))))"

text \<open>The OVN connections, from the internal endpoints of the two databases.\<close>

definition ovn_params :: "ext \<Rightarrow> (rstate, goerror option, (string \<times> tval) list) prog" where
  "ovn_params E =
     andthen the_inst (\<lambda>i.
     if \<not> IsOVNEnabled i then ok [(''IsOVN'', TBool False)]
     else
       andthen (invoke (aDBCluster (cl E)) (GetDBClusterByType (Namespace i) NBDBType)) (\<lambda>r.
       case r of
         Inl e \<Rightarrow> ret (Some e)
       | Inr nbCluster \<Rightarrow>
       (case InternalEndpoint nbCluster of
         Inl e \<Rightarrow> ret (Some e)
       | Inr nbEndpoint \<Rightarrow>
       andthen (invoke (aDBCluster (cl E)) (GetDBClusterByType (Namespace i) SBDBType)) (\<lambda>r.
       case r of
         Inl e \<Rightarrow> ret (Some e)
       | Inr sbCluster \<Rightarrow>
       (case InternalEndpoint sbCluster of
         Inl e \<Rightarrow> ret (Some e)
       | Inr sbEndpoint \<Rightarrow>
           ok [(''IsOVN'', TBool True), (''NBConnection'', TStr nbEndpoint),
               (''SBConnection'', TStr sbEndpoint),
               (''OVNDB_TLS'', TBool (GenericEnabled (pod E) (Ovn (TLS (Spec i)))))])))))"

definition notifications_params ::
  "ext \<Rightarrow> string option \<Rightarrow> (rstate, goerror option, (string \<times> tval) list) prog" where
  "notifications_params E secretName =
     andthen (fcall (getTransportURL E secretName)) (\<lambda>r.
     case r of
       Inl e \<Rightarrow> if \<not> errors_Is e ErrTransportURLSecretNameNilOrEmpty then ret (Some e) else ok []
     | Inr (url, _) \<Rightarrow>
         ok (if url \<noteq> [] then [(''NotificationsTransportURL'', TStr url)] else []))"

definition mtls_params :: "ext \<Rightarrow> Memcached \<Rightarrow> (string \<times> tval) list" where
  "mtls_params E mc =
     (if McMTLSSecret mc \<noteq> []
      then [(''MemcachedAuthCert'', TStr (CertMountPath (ut E))),
            (''MemcachedAuthKey'', TStr (KeyMountPath (ut E))),
            (''MemcachedAuthCa'', TStr (CaMountPath (ut E)))]
      else [])"

text \<open>\<^verbatim>\<open>x, err := f(); if err != nil { return err }\<close>\<close>

definition try_sum :: "goerror + 'a \<Rightarrow> (rstate, goerror option, 'a) prog" where
  "try_sum r = (case r of Inl e \<Rightarrow> ret (Some e) | Inr x \<Rightarrow> ok x)"

section \<open>generateServiceSecrets\<close>

text \<open>Up to the base parameters: Keystone, transport URL, memcached, password.\<close>

definition base_params ::
  "ext \<Rightarrow> (string \<rightharpoonup> string) \<Rightarrow> (string \<rightharpoonup> string) \<Rightarrow> string
     \<Rightarrow> (rstate, goerror option, (string \<times> tval) list \<times> Memcached \<times> string) prog" where
  "base_params E serviceLabels serviceAnnotations transportURLSecretName =
     andthen the_inst (\<lambda>i.
     andthen (invoke (aKeystoneAPI (cl E)) (GetKeystoneAPI (Namespace i))) (\<lambda>r.
     andthen (try_sum r) (\<lambda>keystoneAPI.
     andthen (try_sum (KeystoneEndpointURL keystoneAPI EndpointInternal)) (\<lambda>keystoneInternalURL.
     andthen (try_sum (KeystoneEndpointURL keystoneAPI EndpointPublic)) (\<lambda>keystonePublicURL.
     andthen (fcall (getTransportURL E (Some transportURLSecretName))) (\<lambda>r.
     case r of
       Inl e \<Rightarrow>
         andthen (set_false E InputReadyCondition RequestedReason SeverityInfo
           (LibMsg ''InputReadyWaitingMessage'') []) (\<lambda>_. ret (Some e))
     | Inr (transportURL, quorumQueues) \<Rightarrow>
     andthen (invoke (aMemcached (cl E))
       (GetMemcachedByName (MemcachedInstance (Spec i)) (Namespace i))) (\<lambda>r.
     andthen (try_sum r) (\<lambda>mc.
     andthen (invoke (aSecret (cl E)) (GetSecret (Secret (Spec i)) (Namespace i))) (\<lambda>r.
     andthen (try_sum r) (\<lambda>ospSecret.
     andthen (fcall (IsWSGIEffective E serviceLabels serviceAnnotations)) (\<lambda>wsgi.
     ok ([(''ServiceUser'', TStr (ServiceUser (Spec i))),
          (''KeystoneInternalURL'', TStr keystoneInternalURL),
          (''KeystonePublicURL'', TStr keystonePublicURL),
          (''Region'', TStr (KeystoneRegion keystoneAPI)),
          (''TransportURL'', TStr transportURL),
          (''MemcachedServers'', TStr (McServers mc)),
          (''MemcachedServersWithInet'', TStr (McServersWithInet mc)),
          (''MemcachedTLS'', TBool (McTLS mc)),
          (''TimeOut'', TInt (APITimeout (Spec i))),
          (''QuorumQueues'', TBool quorumQueues),
          (''WSGI'', TBool wsgi)],
         mc,
         (case ospSecret (PasswordSelectorsService (Spec i)) of None \<Rightarrow> [] | Some v \<Rightarrow> v)))))))))))))"

definition generateServiceSecrets ::
  "ext \<Rightarrow> DB \<Rightarrow> (string \<rightharpoonup> string) \<Rightarrow> (string \<rightharpoonup> string) \<Rightarrow> string \<Rightarrow> string option \<Rightarrow> fallible" where
  "generateServiceSecrets E db serviceLabels serviceAnnotations transportURLSecretName
     notificationsTransportURLSecretName =
     andthen the_inst (\<lambda>i.
     andthen (base_params E serviceLabels serviceAnnotations transportURLSecretName)
       (\<lambda>(base, mc, servicePassword).
     andthen (notifications_params E notificationsTransportURLSecretName) (\<lambda>notifications.
     andthen (ac_params E) (\<lambda>ac.
     andthen (ovn_params E) (\<lambda>ovn.
     let cmLabels = GetLabels (ut E) (Name i) ServiceName;
         templateParameters =
           base @ notifications @ mtls_params E mc
           @ [(''ServicePassword'', TStr servicePassword)] @ ac
           @ [(''DbHost'', TStr (DatabaseHostname (Status i))),
              (''DbUser'', TStr (DBUserName db)),
              (''DbPassword'', TStr (case DBSecretData db (DatabasePasswordSelector (ut E)) of
                                       None \<Rightarrow> [] | Some v \<Rightarrow> v)),
              (''Db'', TStr Database),
              (''CorePlugin'', TStr (CorePlugin (Spec i))),
              (''Ml2MechanismDrivers'', TStr (Join (Ml2MechanismDrivers (Spec i)) '',''))]
           @ ovn @ [(''VHosts'', httpdVhostConfig E i)]
     in andthen (ensure_secrets E
       [\<lparr>TName = Name i @ ''-config'', TNamespace = Namespace i, TType = TemplateTypeConfig,
         TInstanceType = Kind i, TCustomData = customData i db, TLabels = cmLabels,
         TConfigOptions = templateParameters, TAdditionalTemplate = [], TCommonTemplates = []\<rparr>,
        \<lparr>TName = Name i @ ''-httpd-config'', TNamespace = Namespace i, TType = TemplateTypeNone,
         TInstanceType = Kind i, TCustomData = [], TLabels = cmLabels,
         TConfigOptions = templateParameters,
         TAdditionalTemplate =
           [(''httpd.conf'', ''/neutronapi/httpd/httpd.conf''),
            (''10-neutron-httpd.conf'', ''/neutronapi/httpd/10-neutron-httpd.conf'')],
         TCommonTemplates = [''ssl.conf'']\<rparr>]) (\<lambda>err. ret err))))))"

section \<open>The input hash\<close>

definition createHashOfInputHashes ::
  "ext \<Rightarrow> (rstate, goerror + bool, goerror + bool) prog" where
  "createHashOfInputHashes E =
     andthen (reads vars) (\<lambda>envVars.
     case ObjectHash (ut E) (MergeEnvs (pod E) [] envVars) of
       Inl e \<Rightarrow> ret (Inl e)
     | Inr hash \<Rightarrow>
         andthen the_inst (\<lambda>i.
         case SetHash (ut E) (Hash (Status i)) (InputHashName (ut E)) hash of
           (hashMap, changed) \<Rightarrow>
             andthen (if changed then set_status (\<lambda>st. st\<lparr>Hash := hashMap\<rparr>) else ok ()) (\<lambda>_.
             ret (Inr changed))))"

section \<open>The database\<close>

definition ensureDB :: "ext \<Rightarrow> (rstate, DB option \<times> answer, DB option \<times> answer) prog" where
  "ensureDB E =
     andthen the_inst (\<lambda>i.
     andthen (invoke (aErr (cl E))
       (EnsureMariaDBAccount (DatabaseAccount (Spec i)) (Namespace i) False
          DatabaseUsernamePrefix)) (\<lambda>err.
     case err of
       Some e \<Rightarrow>
         andthen (set_false E MariaDBAccountReadyCondition ErrorReason SeverityWarning
           (LibMsg ''MariaDBAccountNotReadyMessage'') (err_arg e)) (\<lambda>_.
         ret (None, NoResult, Some e))
     | None \<Rightarrow>
     andthen (mark_true E MariaDBAccountReadyCondition (LibMsg ''MariaDBAccountReadyMessage'')) (\<lambda>_.
     andthen (invoke (aDB (cl E))
       (CreateOrPatchDatabase (DatabaseInstance (Spec i)) Database DatabaseCRName
          (DatabaseAccount (Spec i)) (Namespace i))) (\<lambda>((ctrlResult, err), db).
     case err of
       Some e \<Rightarrow>
         andthen (set_false E DBReadyCondition ErrorReason SeverityWarning
           (LibMsg ''DBReadyErrorMessage'') (err_arg e)) (\<lambda>_.
         ret (Some db, NoResult, Some e))
     | None \<Rightarrow>
     if ctrlResult \<noteq> NoResult then
       andthen (set_false E DBReadyCondition RequestedReason SeverityInfo
         (LibMsg ''DBReadyRunningMessage'') []) (\<lambda>_.
       ret (Some db, ctrlResult, None))
     else
     andthen (invoke (aDB (cl E)) (WaitForDBCreated 5)) (\<lambda>((ctrlResult, err), db).
     case err of
       Some e \<Rightarrow>
         andthen (set_false E DBReadyCondition ErrorReason SeverityWarning
           (LibMsg ''DBReadyErrorMessage'') (err_arg e)) (\<lambda>_.
         ret (Some db, ctrlResult, Some e))
     | None \<Rightarrow>
     if ctrlResult \<noteq> NoResult then
       andthen (set_false E DBReadyCondition RequestedReason SeverityInfo
         (LibMsg ''DBReadyRunningMessage'') []) (\<lambda>_.
       ret (Some db, ctrlResult, None))
     else
     andthen (set_status (\<lambda>st. st\<lparr>DatabaseHostname := DBHostname db\<rparr>)) (\<lambda>_.
     andthen (mark_true E DBReadyCondition (LibMsg ''DBReadyMessage'')) (\<lambda>_.
     ret (Some db, ctrlResult, None))))))))"

end
