(* ===== verification/ReconcileInit.thy ===== *)
theory ReconcileInit
  imports ServiceConfig
begin

text \<open>
  \<^verbatim>\<open>reconcileInit\<close> of \<^verbatim>\<open>internal/controller/neutronapi_controller.go\<close>: database, configuration,
  TLS input, input hash, application credential finalizer, database sync, services and
  Keystone registration, each block of the function as one definition.
\<close>

section \<open>TLS input\<close>

text \<open>
  The end of each of the three checks: a missing Secret is reported in the condition and the
  function returns no error and no result.
\<close>

definition tls_failed ::
  "ext \<Rightarrow> goerror \<Rightarrow> reason \<Rightarrow> severity \<Rightarrow> arg list \<Rightarrow> 'a reconcile" where
  "tls_failed E e reason severity waiting =
     (if IsNotFound e then
        andthen (set_false E TLSInputReadyCondition reason severity
          (LibMsg ''TLSInputReadyWaitingMessage'') waiting) (\<lambda>_. ret (NoResult, None))
      else
        andthen (set_false E TLSInputReadyCondition ErrorReason SeverityWarning
          (LibMsg ''TLSInputErrorMessage'') (err_arg e)) (\<lambda>_. ret (NoResult, Some e)))"

definition validate_ca :: "ext \<Rightarrow> unit reconcile" where
  "validate_ca E =
     andthen the_inst (\<lambda>i.
     let ca = CaBundleSecretName (TLS (Spec i)) in
     if ca = [] then ok ()
     else
       andthen (invoke (aString (cl E)) (ValidateCACertSecret ca (Namespace i))) (\<lambda>r.
       case r of
         Inl e \<Rightarrow> tls_failed E e ErrorReason SeverityWarning [Str ca]
       | Inr caHash \<Rightarrow>
           if caHash \<noteq> [] then set_var (CABundleKey (ut E)) (SetValue (pod E) caHash) else ok ()))"

definition validate_api_certs :: "ext \<Rightarrow> unit reconcile" where
  "validate_api_certs E =
     andthen the_inst (\<lambda>i.
     andthen (invoke (aString (cl E))
       (ValidateCertSecrets (TLS_API (TLS (Spec i))) (Namespace i))) (\<lambda>r.
     case r of
       Inl e \<Rightarrow> tls_failed E e RequestedReason SeverityInfo (err_arg e)
     | Inr apiCertsHash \<Rightarrow>
         if apiCertsHash \<noteq> [] then set_var ''apiCertsHash'' (SetValue (pod E) apiCertsHash)
         else ok ()))"

definition validate_ovn_cert :: "ext \<Rightarrow> unit reconcile" where
  "validate_ovn_cert E =
     andthen the_inst (\<lambda>i.
     if \<not> GenericEnabled (pod E) (Ovn (TLS (Spec i))) then ok ()
     else
       andthen (invoke (aString (cl E))
         (ValidateCertSecret (Ovn (TLS (Spec i))) (Namespace i))) (\<lambda>r.
       case r of
         Inl e \<Rightarrow> tls_failed E e RequestedReason SeverityInfo (err_arg e)
       | Inr ovnCertsHash \<Rightarrow>
           if ovnCertsHash \<noteq> [] then set_var ''ovnCertsHash'' (SetValue (pod E) ovnCertsHash)
           else ok ()))"

section \<open>Configuration\<close>

definition config_failed :: "ext \<Rightarrow> goerror \<Rightarrow> 'a reconcile" where
  "config_failed E e =
     andthen (set_false E ServiceConfigReadyCondition ErrorReason SeverityWarning
       (LibMsg ''ServiceConfigReadyErrorMessage'') (err_arg e)) (\<lambda>_. ret (NoResult, Some e))"

definition init_database :: "ext \<Rightarrow> DB reconcile" where
  "init_database E =
     andthen (fcall (ensureDB E)) (\<lambda>(db, result, err).
     case err of
       Some e \<Rightarrow> ret (NoResult, Some e)
     | None \<Rightarrow>
         if result \<noteq> NoResult then ret (result, None)
         else (case db of None \<Rightarrow> panic ''nil database'' | Some db \<Rightarrow> ok db))"

definition init_config ::
  "ext \<Rightarrow> DB \<Rightarrow> (string \<rightharpoonup> string) \<Rightarrow> (string \<rightharpoonup> string) \<Rightarrow> string \<Rightarrow> string option \<Rightarrow> unit reconcile" where
  "init_config E db serviceLabels serviceAnnotations transportURLSecretName
     notificationsTransportURLSecretName =
     andthen (fcall (generateServiceSecrets E db serviceLabels serviceAnnotations
       transportURLSecretName notificationsTransportURLSecretName)) (\<lambda>err.
     case err of Some e \<Rightarrow> config_failed E e | None \<Rightarrow> ok ())"

definition init_tls :: "ext \<Rightarrow> unit reconcile" where
  "init_tls E =
     andthen (validate_ca E) (\<lambda>_.
     andthen (validate_api_certs E) (\<lambda>_.
     andthen (validate_ovn_cert E) (\<lambda>_.
     mark_true E TLSInputReadyCondition (LibMsg ''InputReadyMessage''))))"

definition init_hash :: "ext \<Rightarrow> unit reconcile" where
  "init_hash E =
     andthen (fcall (createHashOfInputHashes E)) (\<lambda>r.
     case r of Inl e \<Rightarrow> config_failed E e | Inr _ \<Rightarrow> ok ())"

definition init_credential :: "ext \<Rightarrow> unit reconcile" where
  "init_credential E =
     andthen the_inst (\<lambda>i.
     andthen
       (if AuthApplicationCredentialSecret (Spec i) \<noteq> [] then
          andthen (invoke (aErr (cl E))
            (ManageSecretConsumerFinalizer (Namespace i)
               (AuthApplicationCredentialSecret (Spec i)) ACConsumerFinalizer)) (\<lambda>err.
          case err of Some e \<Rightarrow> config_failed E e | None \<Rightarrow> ok ())
        else ok ()) (\<lambda>_.
     mark_true E ServiceConfigReadyCondition (LibMsg ''ServiceConfigReadyMessage'')))"

section \<open>Database sync\<close>

text \<open>A builder that has no error result.\<close>

definition must_build :: "'a res \<Rightarrow> (rstate, 'r, 'a) prog" where
  "must_build r = (case r of Ok x \<Rightarrow> ok x | Fail e \<Rightarrow> panic ''error'' | Crash m \<Rightarrow> panic m)"

definition init_dbsync ::
  "ext \<Rightarrow> (string \<rightharpoonup> string) \<Rightarrow> (string \<rightharpoonup> string) \<Rightarrow> unit reconcile" where
  "init_dbsync E serviceLabels serviceAnnotations =
     andthen the_inst (\<lambda>i.
     andthen (must_build (DbSyncJob (pod E) i serviceLabels serviceAnnotations)) (\<lambda>jobDef.
     andthen (invoke (aJob (cl E))
       (DoJob jobDef DbSyncHash (PreserveJobs (Spec i)) 5
          (case get_hash i DbSyncHash of None \<Rightarrow> [] | Some h \<Rightarrow> h)))
       (\<lambda>((ctrlResult, err), changed, hash).
     if ctrlResult \<noteq> NoResult then
       andthen (set_false E DBSyncReadyCondition RequestedReason SeverityInfo
         (LibMsg ''DBSyncReadyRunningMessage'') []) (\<lambda>_. ret (ctrlResult, None))
     else (case err of
       Some e \<Rightarrow>
         andthen (set_false E DBSyncReadyCondition ErrorReason SeverityWarning
           (LibMsg ''DBSyncReadyErrorMessage'') (err_arg e)) (\<lambda>_. ret (NoResult, Some e))
     | None \<Rightarrow>
         andthen (if changed then put_hash DbSyncHash hash else ok ()) (\<lambda>_.
         mark_true E DBSyncReadyCondition (LibMsg ''DBSyncReadyMessage''))))))"

section \<open>Services and Keystone\<close>

definition no_override :: RoutedOverrideSpec where
  "no_override = \<lparr>Override_Spec = \<lparr>EmbeddedLabelsAnnotations = None, OverrideRest = 0\<rparr>,
     EndpointURL = None\<rparr>" \<comment> \<open>the zero value of a missing map entry\<close>

definition svc_override :: "ext \<Rightarrow> NeutronAPI \<Rightarrow> endpoint \<Rightarrow> RoutedOverrideSpec" where
  "svc_override E i endpointType =
     (let o1 = (case OverrideService (Spec i) endpointType of None \<Rightarrow> no_override | Some x \<Rightarrow> x)
      in case EmbeddedLabelsAnnotations (Override_Spec o1) of
           None \<Rightarrow> o1\<lparr>Override_Spec := (Override_Spec o1)\<lparr>EmbeddedLabelsAnnotations :=
                     Some (EmptyEmbedded (ut E))\<rparr>\<rparr>
         | Some _ \<Rightarrow> o1)"

definition svc_annotations :: "ext \<Rightarrow> opaque \<Rightarrow> endpoint \<Rightarrow> (string \<times> string) list" where
  "svc_annotations E svc endpointType =
     [(AnnotationEndpointKey (ut E), endpointType)]
     @ (if endpointType = EndpointPublic \<and> GetServiceType (ut E) svc = ''ClusterIP''
        then [(AnnotationIngressCreateKey (ut E), ''true'')]
        else [(AnnotationIngressCreateKey (ut E), ''false'')]
             @ (if GetServiceType (ut E) svc = ''LoadBalancer''
                then [(AnnotationHostnameKey (ut E), GetServiceHostname (ut E) svc)] else []))"

definition service_failed :: "ext \<Rightarrow> Result \<Rightarrow> goerror \<Rightarrow> 'a reconcile" where
  "service_failed E r e =
     andthen (set_false E CreateServiceReadyCondition ErrorReason SeverityWarning
       (LibMsg ''CreateServiceReadyErrorMessage'') (err_arg e)) (\<lambda>_. ret (r, Some e))"

definition expose_endpoint ::
  "ext \<Rightarrow> (string \<rightharpoonup> string) \<Rightarrow> endpoint \<Rightarrow> (string \<times> string) reconcile" where
  "expose_endpoint E serviceLabels endpointType =
     andthen the_inst (\<lambda>i.
     let endpointName = ServiceName @ ''-'' @ endpointType;
         svcOverride = svc_override E i endpointType;
         exportLabels = MergeStringMaps (ut E) serviceLabels
                          [AnnotationEndpointKey (ut E) \<mapsto> endpointType];
         port = (if endpointType = EndpointPublic then NeutronPublicPort else NeutronInternalPort)
     in
     andthen (invoke (aService (cl E))
       (NewService \<lparr>SDName = endpointName, SDNamespace = Namespace i, SDLabels = exportLabels,
          SDSelector = serviceLabels, SDPortName = endpointName, SDPort = port\<rparr> 5
          (Override_Spec svcOverride))) (\<lambda>r.
     case r of
       Inl e \<Rightarrow> service_failed E NoResult e
     | Inr svc \<Rightarrow>
     andthen (invoke (aResult (cl E))
       (CreateOrPatchService svc (svc_annotations E svc endpointType))) (\<lambda>(ctrlResult, err).
     case err of
       Some e \<Rightarrow> service_failed E ctrlResult e
     | None \<Rightarrow>
     if ctrlResult \<noteq> NoResult then
       andthen (set_false E CreateServiceReadyCondition RequestedReason SeverityInfo
         (LibMsg ''CreateServiceReadyRunningMessage'') []) (\<lambda>_. ret (ctrlResult, None))
     else
     andthen (invoke (aString (cl E))
       (GetAPIEndpoint svc (EndpointURL svcOverride)
          (if APIEnabled (pod E) (TLS_API (TLS (Spec i))) endpointType then Some ''https'' else None)
          [])) (\<lambda>r.
     case r of
       Inl e \<Rightarrow> ret (NoResult, Some e)
     | Inr url \<Rightarrow> ok (endpointType, url)))))"

text \<open>The endpoint types sorted by name, and the loop that exposes them.\<close>

definition endpointTypes :: "endpoint list" where
  "endpointTypes = [EndpointInternal, EndpointPublic]"

fun expose_endpoints ::
  "ext \<Rightarrow> (string \<rightharpoonup> string) \<Rightarrow> endpoint list \<Rightarrow> (string \<times> string) list
     \<Rightarrow> (string \<times> string) list reconcile" where
  "expose_endpoints E serviceLabels [] apiEndpoints = ok apiEndpoints"
| "expose_endpoints E serviceLabels (endpointType # rest) apiEndpoints =
     andthen (expose_endpoint E serviceLabels endpointType) (\<lambda>(k, url).
     expose_endpoints E serviceLabels rest (AList.update k url apiEndpoints))"

definition init_expose :: "ext \<Rightarrow> (string \<rightharpoonup> string) \<Rightarrow> (string \<times> string) list reconcile" where
  "init_expose E serviceLabels =
     andthen (expose_endpoints E serviceLabels endpointTypes []) (\<lambda>apiEndpoints.
     andthen (mark_true E CreateServiceReadyCondition (LibMsg ''CreateServiceReadyMessage'')) (\<lambda>_.
     ok apiEndpoints))"

text \<open>The end of both Keystone registrations: mirror the condition, then look at the result.\<close>

definition mirror_into :: "ext \<Rightarrow> ctype \<Rightarrow> answer \<Rightarrow> Condition list \<Rightarrow> unit reconcile" where
  "mirror_into E t a cs =
     (case a of (ctrlResult, err) \<Rightarrow>
      (case err of
         Some e \<Rightarrow> ret (ctrlResult, Some e)
       | None \<Rightarrow>
           andthen (case CMirror (cnd E) cs t of None \<Rightarrow> ok () | Some c \<Rightarrow> set_cond E c) (\<lambda>_.
           if ctrlResult \<noteq> NoResult then ret (ctrlResult, None) else ok ())))"

definition init_keystone ::
  "ext \<Rightarrow> (string \<rightharpoonup> string) \<Rightarrow> (string \<times> string) list \<Rightarrow> unit reconcile" where
  "init_keystone E serviceLabels apiEndpoints =
     andthen the_inst (\<lambda>i.
     andthen (invoke (aKeystone (cl E))
       (CreateOrPatchKeystoneService
          \<lparr>KSServiceType = ServiceType, KSServiceName = ServiceName,
           KSServiceDescription = ''Openstack Networking'', KSEnabled = True,
           KSServiceUser = ServiceUser (Spec i), KSSecret = Secret (Spec i),
           KSPasswordSelector = PasswordSelectorsService (Spec i)\<rparr>
          (Namespace i) serviceLabels 10)) (\<lambda>(a, cs).
     andthen (mirror_into E KeystoneServiceReadyCondition a cs) (\<lambda>_.
     andthen (invoke (aKeystone (cl E))
       (CreateOrPatchKeystoneEndpoint ServiceName (Namespace i) ServiceName apiEndpoints
          serviceLabels 10)) (\<lambda>(a, cs).
     mirror_into E KeystoneEndpointReadyCondition a cs))))"

section \<open>The whole function\<close>

definition reconcileInit ::
  "ext \<Rightarrow> (string \<rightharpoonup> string) \<Rightarrow> (string \<rightharpoonup> string) \<Rightarrow> string \<Rightarrow> string option \<Rightarrow> answer reconcile" where
  "reconcileInit E serviceLabels serviceAnnotations transportURLSecretName
     notificationsTransportURLSecretName =
     andthen (init_database E) (\<lambda>db.
     andthen (init_config E db serviceLabels serviceAnnotations transportURLSecretName
       notificationsTransportURLSecretName) (\<lambda>_.
     andthen (init_tls E) (\<lambda>_.
     andthen (init_hash E) (\<lambda>_.
     andthen (init_credential E) (\<lambda>_.
     andthen (init_dbsync E serviceLabels serviceAnnotations) (\<lambda>_.
     andthen (init_expose E serviceLabels) (\<lambda>apiEndpoints.
     andthen (init_keystone E serviceLabels apiEndpoints) (\<lambda>_.
     ret (NoResult, None)))))))))"

end
