(* ===== verification/ReconcileNormal.thy ===== *)
theory ReconcileNormal
  imports ReconcileInit
begin

text \<open>
  \<^verbatim>\<open>reconcileNormal\<close> of \<^verbatim>\<open>internal/controller/neutronapi_controller.go\<close>, one definition per block
  of the function, in its order.
\<close>

section \<open>RBAC and messaging\<close>

definition rbacRules :: "PolicyRule list" where
  "rbacRules =
     [\<lparr>APIGroups = [''security.openshift.io''], ResourceNames = [''nonroot-v2''],
       PRResources = [''securitycontextconstraints''], Verbs = [''use'']\<rparr>]"

text \<open>\<^verbatim>\<open>ReconcileRbac\<close> reports its conditions through \<^verbatim>\<open>RbacConditionsSet\<close> of the instance.\<close>

definition rbac_phase :: "ext \<Rightarrow> unit reconcile" where
  "rbac_phase E =
     andthen the_inst (\<lambda>i.
     andthen (invoke (aRbac (cl E)) (ReconcileRbac (RbacResourceName i) (RbacNamespace i) rbacRules))
       (\<lambda>(cs, a).
     andthen (update (\<lambda>s. s\<lparr>inst := foldl (RbacConditionsSet (cnd E)) (inst s) cs\<rparr>)) (\<lambda>_.
     settle a)))"

definition transportURLCreateOrUpdate ::
  "ext \<Rightarrow> string \<Rightarrow> RabbitMqConfig \<Rightarrow> (rstate, 'r, goerror + TransportURL) prog" where
  "transportURLCreateOrUpdate E transporturlName rabbitMqConfig =
     andthen the_inst (\<lambda>i.
     invoke (aTransportURL (cl E))
       (CreateOrUpdateTransportURL (transporturlName @ ''-neutron-transport'') (Namespace i)
          rabbitMqConfig))"

definition transportURLDeleted :: "ext \<Rightarrow> string \<Rightarrow> fallible" where
  "transportURLDeleted E transportURLName =
     andthen the_inst (\<lambda>i.
     andthen (invoke (aErr (cl E)) (DeleteTransportURL transportURLName (Namespace i))) (\<lambda>err.
     case err of
       Some e \<Rightarrow> if IsNotFound e then ret None else ret (Some e)
     | None \<Rightarrow> ret None))"

text \<open>The messaging bus; gives the Secret of the current transport URL.\<close>

definition transport_phase :: "ext \<Rightarrow> string reconcile" where
  "transport_phase E =
     andthen the_inst (\<lambda>i.
     andthen (transportURLCreateOrUpdate E (Name i) (MessagingBus (Spec i))) (\<lambda>r.
     case r of
       Inl e \<Rightarrow>
         andthen (set_false E RabbitMqTransportURLReadyCondition ErrorReason SeverityWarning
           (LibMsg ''RabbitMqTransportURLReadyErrorMessage'') (err_arg e)) (\<lambda>_.
         ret (NoResult, Some e))
     | Inr transportURL \<Rightarrow>
     let currentTransportSecret = TUSecretName transportURL in
     if currentTransportSecret = [] then
       andthen (set_false E RabbitMqTransportURLReadyCondition RequestedReason SeverityInfo
         (LibMsg ''RabbitMqTransportURLReadyRunningMessage'') []) (\<lambda>_.
       ret (After 10, None))
     else
     andthen (set_status (\<lambda>st.
       if TransportURLSecret st = [] \<or> TransportURLSecret st = currentTransportSecret
       then st\<lparr>TransportURLSecret := currentTransportSecret\<rparr> else st)) (\<lambda>_.
     andthen (invoke (aErr (cl E))
       (ManageSecretConsumerFinalizer (Namespace i) currentTransportSecret
          TransportConsumerFinalizer)) (\<lambda>err.
     andthen (or_return err) (\<lambda>_.
     ok currentTransportSecret)))))"

text \<open>\<^verbatim>\<open>VerifySecretFields\<close> with its two failure branches; gives the hash.\<close>

definition verify_phase ::
  "ext \<Rightarrow> string \<Rightarrow> (string \<times> validator) list \<Rightarrow> reason \<Rightarrow> severity \<Rightarrow> string reconcile" where
  "verify_phase E secretName validateFields waitReason waitSeverity =
     andthen the_inst (\<lambda>i.
     andthen (invoke (aVerify (cl E)) (VerifySecretFields (Namespace i) secretName validateFields 10))
       (\<lambda>(hash, result, err).
     case err of
       Some e \<Rightarrow>
         andthen (set_false E InputReadyCondition ErrorReason SeverityWarning
           (LibMsg ''InputReadyErrorMessage'') (err_arg e)) (\<lambda>_. ret (result, Some e))
     | None \<Rightarrow>
         if result \<noteq> NoResult then
           andthen (set_false E InputReadyCondition waitReason waitSeverity
             (LibMsg ''InputReadyWaitingMessage'') []) (\<lambda>_. ret (result, None))
         else ok hash))"

definition transportValidateFields :: "(string \<times> validator) list" where
  "transportValidateFields = [(''transport_url'', NoOpValidator)]"

text \<open>The notifications bus; \<open>None\<close> when it is not configured.\<close>

definition notifications_phase :: "ext \<Rightarrow> TransportURL option reconcile" where
  "notifications_phase E =
     andthen the_inst (\<lambda>i.
     case NotificationsBus (Spec i) of
       None \<Rightarrow> andthen (remove_cond E NotificationBusInstanceReadyCondition) (\<lambda>_. ok None)
     | Some cfg \<Rightarrow>
     if Cluster cfg = []
     then andthen (remove_cond E NotificationBusInstanceReadyCondition) (\<lambda>_. ok None)
     else
     andthen (transportURLCreateOrUpdate E ''notifications'' cfg) (\<lambda>r.
     case r of
       Inl e \<Rightarrow>
         andthen (set_false E NotificationBusInstanceReadyCondition ErrorReason SeverityWarning
           (LibMsg ''NotificationBusInstanceReadyErrorMessage'') (err_arg e)) (\<lambda>_.
         ret (NoResult, Some e))
     | Inr tu \<Rightarrow>
     if \<not> TUReady tu then
       andthen (set_false E NotificationBusInstanceReadyCondition RequestedReason SeverityInfo
         (LibMsg ''NotificationBusInstanceReadyRunningMessage'') []) (\<lambda>_.
       ret (After 10, None))
     else
     andthen (verify_phase E (TUSecretName tu) transportValidateFields RequestedReason SeverityInfo)
       (\<lambda>hash.
     andthen (set_status (\<lambda>st.
       if NotificationsTransportURLSecret st = None \<or>
          NotificationsTransportURLSecret st = Some (TUSecretName tu)
       then st\<lparr>NotificationsTransportURLSecret := Some (TUSecretName tu)\<rparr> else st)) (\<lambda>_.
     andthen (invoke (aErr (cl E))
       (ManageSecretConsumerFinalizer (Namespace i) (TUSecretName tu)
          TransportConsumerFinalizer)) (\<lambda>err.
     andthen (or_return err) (\<lambda>_.
     andthen (set_var (TUSecretName tu) (SetValue (pod E) hash)) (\<lambda>_.
     andthen (mark_true E NotificationBusInstanceReadyCondition
       (LibMsg ''NotificationBusInstanceReadyMessage'')) (\<lambda>_.
     ok (Some tu)))))))))"

section \<open>Inputs\<close>

definition transport_verify_phase :: "ext \<Rightarrow> string \<Rightarrow> unit reconcile" where
  "transport_verify_phase E currentTransportSecret =
     andthen (verify_phase E currentTransportSecret transportValidateFields RequestedReason
       SeverityInfo) (\<lambda>hash.
     andthen (set_var currentTransportSecret (SetValue (pod E) hash)) (\<lambda>_.
     mark_true E RabbitMqTransportURLReadyCondition
       (LibMsg ''RabbitMqTransportURLReadyMessage'')))"

definition password_phase :: "ext \<Rightarrow> unit reconcile" where
  "password_phase E =
     andthen the_inst (\<lambda>i.
     andthen (verify_phase E (Secret (Spec i))
       [(PasswordSelectorsService (Spec i), PasswordValidator)] ErrorReason SeverityWarning) (\<lambda>hash.
     andthen (set_var (Secret (Spec i)) (SetValue (pod E) hash)) (\<lambda>_.
     mark_true E InputReadyCondition (LibMsg ''InputReadyMessage''))))"

definition memcached_phase :: "ext \<Rightarrow> Memcached reconcile" where
  "memcached_phase E =
     andthen the_inst (\<lambda>i.
     andthen (invoke (aMemcached (cl E))
       (GetMemcachedByName (MemcachedInstance (Spec i)) (Namespace i))) (\<lambda>r.
     case r of
       Inl e \<Rightarrow>
         if IsNotFound e then
           andthen (set_false E MemcachedReadyCondition ErrorReason SeverityWarning
             (LibMsg ''MemcachedReadyWaitingMessage'') []) (\<lambda>_. ret (After 10, None))
         else
           andthen (set_false E MemcachedReadyCondition ErrorReason SeverityWarning
             (LibMsg ''MemcachedReadyErrorMessage'') (err_arg e)) (\<lambda>_. ret (NoResult, Some e))
     | Inr mc \<Rightarrow>
         if \<not> McReady mc then
           andthen (set_false E MemcachedReadyCondition RequestedReason SeverityInfo
             (LibMsg ''MemcachedReadyWaitingMessage'') []) (\<lambda>_. ret (After 10, None))
         else
           andthen (mark_true E MemcachedReadyCondition (LibMsg ''MemcachedReadyMessage'')) (\<lambda>_.
           ok mc)))"

definition externals_failed :: "ext \<Rightarrow> string \<Rightarrow> goerror option \<Rightarrow> unit reconcile" where
  "externals_failed E what err =
     (case err of
        None \<Rightarrow> ok ()
      | Some e \<Rightarrow>
          andthen (set_false E NeutronExternalConfigsReady ErrorReason SeverityWarning
            (NeutronExternalConfigsErrorMessage what) (err_arg e)) (\<lambda>_. ret (NoResult, Some e)))"

definition external_phase :: "ext \<Rightarrow> string \<Rightarrow> unit reconcile" where
  "external_phase E currentTransportSecret =
     andthen (fcall (reconcileExternalSecrets E currentTransportSecret)) (\<lambda>err.
     andthen (externals_failed E ''failed to reconcile external Secrets'' err) (\<lambda>_.
     andthen (fcall (reconcileExternalOVNSecrets E)) (\<lambda>err.
     andthen (externals_failed E ''failed to reconcile external OVN Secrets'' err) (\<lambda>_.
     mark_true E NeutronExternalConfigsReady (LibMsg ''ServiceConfigReadyMessage'')))))"

section \<open>Networks, initialisation, topology\<close>

definition serviceLabels :: "ext \<Rightarrow> (string \<rightharpoonup> string)" where
  "serviceLabels E = [AppSelector (pod E) \<mapsto> ServiceName]"

fun nad_loop :: "ext \<Rightarrow> string \<Rightarrow> string list \<Rightarrow> opaque list \<Rightarrow> opaque list reconcile" where
  "nad_loop E namespace [] nadList = ok nadList"
| "nad_loop E namespace (netAtt # rest) nadList =
     andthen (invoke (aNAD (cl E)) (GetNADWithName netAtt namespace)) (\<lambda>r.
     case r of
       Inl e \<Rightarrow>
         if IsNotFound e then
           andthen (set_false E NetworkAttachmentsReadyCondition ErrorReason SeverityWarning
             (LibMsg ''NetworkAttachmentsReadyWaitingMessage'') [Str netAtt]) (\<lambda>_.
           ret (After 10, None))
         else
           andthen (set_false E NetworkAttachmentsReadyCondition ErrorReason SeverityWarning
             (LibMsg ''NetworkAttachmentsReadyErrorMessage'') (err_arg e)) (\<lambda>_.
           ret (NoResult, Some e))
     | Inr nad \<Rightarrow>
         nad_loop E namespace rest (case nad of None \<Rightarrow> nadList | Some x \<Rightarrow> nadList @ [x]))"

text \<open>\<^verbatim>\<open>%s\<close> of a string slice.\<close>

definition fmt_slice :: "string list \<Rightarrow> string" where
  "fmt_slice xs = ''['' @ Join xs '' '' @ '']''"

definition network_phase :: "ext \<Rightarrow> (string \<rightharpoonup> string) reconcile" where
  "network_phase E =
     andthen the_inst (\<lambda>i.
     andthen (nad_loop E (Namespace i) (NetworkAttachments (Spec i)) []) (\<lambda>nadList.
     andthen (invoke (aAnnotations (cl E)) (EnsureNetworksAnnotation nadList)) (\<lambda>r.
     case r of
       Inl e \<Rightarrow> ret (NoResult, Some (Errorf (''failed create network annotation from ''
                  @ fmt_slice (NetworkAttachments (Spec i)) @ '': '') e []))
     | Inr serviceAnnotations \<Rightarrow> ok serviceAnnotations)))"

definition reconcileUpdate :: "answer reconcile" where
  "reconcileUpdate = ret (NoResult, None)"

definition reconcileUpgrade :: "answer reconcile" where
  "reconcileUpgrade = ret (NoResult, None)"

definition init_phase ::
  "ext \<Rightarrow> (string \<rightharpoonup> string) \<Rightarrow> string \<Rightarrow> TransportURL option \<Rightarrow> unit reconcile" where
  "init_phase E serviceAnnotations currentTransportSecret notif =
     andthen (fcall (reconcileInit E (serviceLabels E) serviceAnnotations currentTransportSecret
       (map_option TUSecretName notif))) (\<lambda>a.
     andthen (settle a) (\<lambda>_.
     andthen (fcall reconcileUpdate) (\<lambda>a.
     andthen (settle a) (\<lambda>_.
     andthen (fcall reconcileUpgrade) (\<lambda>a.
     settle a)))))"

definition input_hash_phase :: "ext \<Rightarrow> string reconcile" where
  "input_hash_phase E =
     andthen the_inst (\<lambda>i.
     case get_hash i (InputHashName (ut E)) of
       None \<Rightarrow> ret (NoResult, Some (Errorf [] (LibSentinel ''util.ErrInvalidStatus'')
                 '' input hash for Neutron deployment''))
     | Some inputHash \<Rightarrow> ok inputHash)"

definition topology_phase :: "ext \<Rightarrow> opaque option reconcile" where
  "topology_phase E =
     andthen the_inst (\<lambda>i.
     andthen (invoke (aTopology (cl E))
       (EnsureServiceTopology (TopologyRef (Spec i)) (LastAppliedTopology (Status i)) (Name i)
          (GetLabelSelector (ut E) (serviceLabels E)))) (\<lambda>r.
     case r of
       Inl e \<Rightarrow>
         andthen (set_false E TopologyReadyCondition ErrorReason SeverityWarning
           (LibMsg ''TopologyReadyErrorMessage'') (err_arg e)) (\<lambda>_.
         ret (NoResult, Some (Errorf ''waiting for Topology requirements: '' e [])))
     | Inr topology \<Rightarrow>
         (case TopologyRef (Spec i) of
            Some ref \<Rightarrow>
              andthen (set_status (\<lambda>st. st\<lparr>LastAppliedTopology := Some ref\<rparr>)) (\<lambda>_.
              andthen (mark_true E TopologyReadyCondition (LibMsg ''TopologyReadyMessage'')) (\<lambda>_.
              ok topology))
          | None \<Rightarrow>
              andthen (set_status (\<lambda>st. st\<lparr>LastAppliedTopology := None\<rparr>)) (\<lambda>_. ok topology))))"

section \<open>Deployments\<close>

definition deployment_failed :: "ext \<Rightarrow> Result \<Rightarrow> goerror \<Rightarrow> 'a reconcile" where
  "deployment_failed E r e =
     andthen (set_false E DeploymentReadyCondition ErrorReason SeverityWarning
       (LibMsg ''DeploymentReadyErrorMessage'') (err_arg e)) (\<lambda>_. ret (r, Some e))"

definition deployment_running :: "ext \<Rightarrow> unit reconcile" where
  "deployment_running E =
     set_false E DeploymentReadyCondition RequestedReason SeverityInfo
       (LibMsg ''DeploymentReadyRunningMessage'') []"

text \<open>The observed Deployment of the current generation: networks, then readiness.\<close>

definition observe_deployment :: "ext \<Rightarrow> DeployState \<Rightarrow> string \<Rightarrow> unit reconcile" where
  "observe_deployment E deploy inputHash =
     andthen (set_status (\<lambda>st. st\<lparr>ReadyCount := DSReadyReplicas deploy\<rparr>)) (\<lambda>_.
     andthen the_inst (\<lambda>i.
     andthen (invoke (aNetwork (cl E))
       (VerifyNetworkStatusFromAnnotation (NetworkAttachments (Spec i)) (serviceLabels E)
          (ReadyCount (Status i)))) (\<lambda>r.
     case r of
       Inl e \<Rightarrow> ret (NoResult, Some e)
     | Inr (networkReady, networkAttachmentStatus) \<Rightarrow>
     andthen (set_status (\<lambda>st. st\<lparr>StatusNetworkAttachments := Some networkAttachmentStatus\<rparr>)) (\<lambda>_.
     if \<not> networkReady then
       (let e = Errorf [] (LibSentinel ''util.ErrPodsInterfaces'')
                  ('' with ips as configured in NetworkAttachments: ''
                     @ fmt_slice (NetworkAttachments (Spec i)))
        in andthen (set_false E NetworkAttachmentsReadyCondition ErrorReason SeverityWarning
             (LibMsg ''NetworkAttachmentsReadyErrorMessage'') (err_arg e)) (\<lambda>_.
           ret (NoResult, Some e)))
     else
     andthen (mark_true E NetworkAttachmentsReadyCondition
       (LibMsg ''NetworkAttachmentsReadyMessage'')) (\<lambda>_.
     andthen
       (if DSIsReady deploy then
          andthen (invoke (aBool (cl E))
            (IsReadyForInput (DSName deploy) (DSNamespace deploy) inputHash)) (\<lambda>r.
          case r of Inl e \<Rightarrow> ret (NoResult, Some e) | Inr ready \<Rightarrow> ok ready)
        else ok False) (\<lambda>ready.
     if ready then mark_true E DeploymentReadyCondition (LibMsg ''DeploymentReadyMessage'')
     else deployment_running E))))))"

definition deployment_phase ::
  "ext \<Rightarrow> (string \<rightharpoonup> string) \<Rightarrow> opaque option \<Rightarrow> Memcached \<Rightarrow> string \<Rightarrow> bool \<Rightarrow> unit reconcile" where
  "deployment_phase E serviceAnnotations topology memcached inputHash wsgi =
     andthen the_inst (\<lambda>i.
     case Deployment (pod E) i inputHash (serviceLabels E) serviceAnnotations topology memcached
            wsgi of
       Crash m \<Rightarrow> panic m
     | Fail e \<Rightarrow> deployment_failed E NoResult e
     | Ok deplDef \<Rightarrow>
     andthen (invoke (aDeployment (cl E)) (CreateOrPatchDeployment deplDef 5))
       (\<lambda>((ctrlResult, err), deploy).
     case err of
       Some e \<Rightarrow> deployment_failed E ctrlResult e
     | None \<Rightarrow>
     if ctrlResult \<noteq> NoResult then
       andthen (deployment_running E) (\<lambda>_. ret (ctrlResult, None))
     else if DSGeneration deploy = DSObservedGeneration deploy
     then observe_deployment E deploy inputHash
     else ok ()))"

text \<open>
  The two WSGI Deployments are rolled out by the same statements: seed the condition, create
  or patch, and mark the condition from \<^verbatim>\<open>IsReadyForInput\<close> once the generation is observed.
\<close>

definition roll_out ::
  "ext \<Rightarrow> ctype \<Rightarrow> message \<Rightarrow> message \<Rightarrow> message \<Rightarrow> DeploymentObj res
     \<Rightarrow> (int \<Rightarrow> NeutronAPIStatus \<Rightarrow> NeutronAPIStatus) \<Rightarrow> string \<Rightarrow> unit reconcile" where
  "roll_out E t readyMessage runningMessage errorMessage deplDef setCount inputHash =
     andthen (set_false E t RequestedReason SeverityInfo runningMessage []) (\<lambda>_.
     andthen (must_build deplDef) (\<lambda>depl.
     andthen (invoke (aDeployment (cl E)) (CreateOrPatchDeployment depl 5))
       (\<lambda>((ctrlResult, err), deploy).
     case err of
       Some e \<Rightarrow>
         andthen (set_false E t ErrorReason SeverityWarning errorMessage (err_arg e)) (\<lambda>_.
         ret (ctrlResult, Some e))
     | None \<Rightarrow>
     if ctrlResult \<noteq> NoResult then
       andthen (set_false E t RequestedReason SeverityInfo runningMessage []) (\<lambda>_.
       ret (ctrlResult, None))
     else if DSGeneration deploy = DSObservedGeneration deploy then
       andthen (set_status (setCount (DSReadyReplicas deploy))) (\<lambda>_.
       andthen (invoke (aBool (cl E))
         (IsReadyForInput (DSName deploy) (DSNamespace deploy) inputHash)) (\<lambda>r.
       case r of
         Inl e \<Rightarrow> ret (NoResult, Some e)
       | Inr ready \<Rightarrow>
           if ready then mark_true E t readyMessage
           else set_false E t RequestedReason SeverityInfo runningMessage []))
     else ok ())))"

definition rpcName :: string where
  "rpcName = ServiceName @ ''-'' @ RPCDeploymentSuffix"

definition workerName :: string where
  "workerName = ServiceName @ ''-'' @ WorkerDeploymentSuffix"

text \<open>Deleting a Deployment; one that is not there is fine.\<close>

definition delete_deployment :: "ext \<Rightarrow> string \<Rightarrow> unit reconcile" where
  "delete_deployment E name =
     andthen the_inst (\<lambda>i.
     andthen (invoke (aErr (cl E)) (DeleteDeployment name (Namespace i))) (\<lambda>err.
     if err \<noteq> None \<and> \<not> notFound err then or_return err else ok ()))"

definition rpc_phase ::
  "ext \<Rightarrow> (string \<rightharpoonup> string) \<Rightarrow> opaque option \<Rightarrow> Memcached \<Rightarrow> string \<Rightarrow> unit reconcile" where
  "rpc_phase E serviceAnnotations topology memcached inputHash =
     andthen the_inst (\<lambda>i.
     if GetRPCWorkers (CustomServiceConfig (Spec i)) \<noteq> 0 then
       roll_out E NeutronRPCReadyCondition NeutronRPCReadyMessage NeutronRPCReadyRunningMessage
         NeutronRPCReadyErrorMessage
         (RPCDeployment (pod E) i inputHash [AppSelector (pod E) \<mapsto> rpcName] serviceAnnotations
            topology memcached)
         (\<lambda>n st. st\<lparr>RPCReadyCount := n\<rparr>) inputHash
     else
       andthen (delete_deployment E rpcName) (\<lambda>_.
       andthen (set_status (\<lambda>st. st\<lparr>RPCReadyCount := 0\<rparr>)) (\<lambda>_.
       mark_true E NeutronRPCReadyCondition NeutronRPCDisabledMessage)))"

definition worker_phase ::
  "ext \<Rightarrow> (string \<rightharpoonup> string) \<Rightarrow> opaque option \<Rightarrow> Memcached \<Rightarrow> string \<Rightarrow> unit reconcile" where
  "worker_phase E serviceAnnotations topology memcached inputHash =
     andthen the_inst (\<lambda>i.
     roll_out E NeutronWorkerReadyCondition NeutronWorkerReadyMessage
       NeutronWorkerReadyRunningMessage NeutronWorkerReadyErrorMessage
       (WorkerDeployment (pod E) i inputHash [AppSelector (pod E) \<mapsto> workerName]
          serviceAnnotations topology memcached)
       (\<lambda>n st. st\<lparr>WorkerReadyCount := n\<rparr>) inputHash)"

definition eventlet_phase :: "ext \<Rightarrow> unit reconcile" where
  "eventlet_phase E =
     andthen (foreach (delete_deployment E) [rpcName, workerName]) (\<lambda>_.
     andthen (set_status (\<lambda>st. st\<lparr>RPCReadyCount := 0\<rparr>)) (\<lambda>_.
     andthen (set_status (\<lambda>st. st\<lparr>WorkerReadyCount := 0\<rparr>)) (\<lambda>_.
     andthen (remove_cond E NeutronRPCReadyCondition) (\<lambda>_.
     remove_cond E NeutronWorkerReadyCondition))))"

definition workers_phase ::
  "ext \<Rightarrow> (string \<rightharpoonup> string) \<Rightarrow> opaque option \<Rightarrow> Memcached \<Rightarrow> string \<Rightarrow> bool \<Rightarrow> unit reconcile" where
  "workers_phase E serviceAnnotations topology memcached inputHash wsgi =
     (if wsgi then
        andthen (rpc_phase E serviceAnnotations topology memcached inputHash) (\<lambda>_.
        worker_phase E serviceAnnotations topology memcached inputHash)
      else eventlet_phase E)"

section \<open>Rotation of credentials and the end\<close>

definition accounts_phase :: "ext \<Rightarrow> unit reconcile" where
  "accounts_phase E =
     andthen the_inst (\<lambda>i.
     if ReadyCount (Status i) > 0 then
       andthen (invoke (aErr (cl E))
         (DeleteUnusedMariaDBAccountFinalizers DatabaseCRName (DatabaseAccount (Spec i))
            (Namespace i))) or_return
     else ok ())"

definition guard_ready :: "ext \<Rightarrow> bool reconcile" where
  "guard_ready E = reads (\<lambda>s. CredentialRotationGuardReady (cnd E) True (conds (Status (inst s))))"

text \<open>\<^verbatim>\<open>FinalizeSecretRotation\<close>; gives the Secret to track from now on.\<close>

definition finalize_rotation ::
  "ext \<Rightarrow> string \<Rightarrow> string \<Rightarrow> string \<Rightarrow> bool \<Rightarrow> string reconcile" where
  "finalize_rotation E old current finalizer guardReady =
     andthen the_inst (\<lambda>i.
     andthen (invoke (aString (cl E))
       (FinalizeSecretRotation (Namespace i) old current finalizer guardReady)) (\<lambda>r.
     case r of Inl e \<Rightarrow> ret (NoResult, Some e) | Inr name \<Rightarrow> ok name))"

definition rotate_transport :: "ext \<Rightarrow> string \<Rightarrow> bool \<Rightarrow> unit reconcile" where
  "rotate_transport E currentTransportSecret guardReady =
     andthen the_inst (\<lambda>i.
     andthen (finalize_rotation E (TransportURLSecret (Status i)) currentTransportSecret
       TransportConsumerFinalizer guardReady) (\<lambda>name.
     set_status (\<lambda>st. st\<lparr>TransportURLSecret := name\<rparr>)))"

definition rotate_notifications :: "ext \<Rightarrow> TransportURL option \<Rightarrow> bool \<Rightarrow> unit reconcile" where
  "rotate_notifications E notif guardReady =
     andthen the_inst (\<lambda>i.
     case notif of
       Some tu \<Rightarrow>
         andthen (finalize_rotation E
           (case NotificationsTransportURLSecret (Status i) of None \<Rightarrow> [] | Some x \<Rightarrow> x)
           (TUSecretName tu) TransportConsumerFinalizer guardReady) (\<lambda>name.
         set_status (\<lambda>st. st\<lparr>NotificationsTransportURLSecret := Some name\<rparr>))
     | None \<Rightarrow>
         (case NotificationsTransportURLSecret (Status i) of
            None \<Rightarrow> ok ()
          | Some old \<Rightarrow>
              if old \<noteq> [] \<and> guardReady then
                andthen (invoke (aErr (cl E))
                  (RemoveSecretConsumerFinalizer (Namespace i) old TransportConsumerFinalizer)) (\<lambda>err.
                andthen (or_return err) (\<lambda>_.
                andthen (fcall (transportURLDeleted E ''notifications-neutron-transport'')) (\<lambda>err.
                andthen (or_return err) (\<lambda>_.
                set_status (\<lambda>st. st\<lparr>NotificationsTransportURLSecret := None\<rparr>)))))
              else ok ()))"

definition rotate_credential :: "ext \<Rightarrow> bool \<Rightarrow> unit reconcile" where
  "rotate_credential E guardReady =
     andthen the_inst (\<lambda>i.
     andthen (finalize_rotation E (ApplicationCredentialSecret (Status i))
       (AuthApplicationCredentialSecret (Spec i)) ACConsumerFinalizer guardReady) (\<lambda>name.
     set_status (\<lambda>st. st\<lparr>ApplicationCredentialSecret := name\<rparr>)))"

definition prune_phase :: "ext \<Rightarrow> string \<Rightarrow> TransportURL option \<Rightarrow> unit reconcile" where
  "prune_phase E currentTransportSecret notif =
     andthen the_inst (\<lambda>i.
     andthen (invoke (aErr (cl E))
       (PruneSecretConsumerFinalizers (Namespace i) TransportConsumerFinalizer
          [TransportURLSecret (Status i), currentTransportSecret,
           (case NotificationsTransportURLSecret (Status i) of None \<Rightarrow> [] | Some x \<Rightarrow> x),
           (case notif of None \<Rightarrow> [] | Some tu \<Rightarrow> TUSecretName tu)])) (\<lambda>err.
     andthen (or_return err) (\<lambda>_.
     andthen (invoke (aErr (cl E))
       (PruneSecretConsumerFinalizers (Namespace i) ACConsumerFinalizer
          [ApplicationCredentialSecret (Status i), AuthApplicationCredentialSecret (Spec i)])) (\<lambda>err.
     or_return err))))"

definition ready_phase :: "ext \<Rightarrow> answer reconcile" where
  "ready_phase E =
     andthen the_inst (\<lambda>i.
     andthen (if AllSubConditionIsTrue (cnd E) (conds (Status i))
              then mark_true E ReadyCondition (LibMsg ''ReadyMessage'') else ok ()) (\<lambda>_.
     ret (NoResult, None)))"

section \<open>The whole function\<close>

text \<open>The part before the Deployments, and what it hands over.\<close>

definition prepare ::
  "ext \<Rightarrow> (string \<times> TransportURL option \<times> Memcached \<times> (string \<rightharpoonup> string)) reconcile" where
  "prepare E =
     andthen (rbac_phase E) (\<lambda>_.
     andthen (update (\<lambda>s. s\<lparr>vars := []\<rparr>)) (\<lambda>_.
     andthen (transport_phase E) (\<lambda>currentTransportSecret.
     andthen (notifications_phase E) (\<lambda>notif.
     andthen (transport_verify_phase E currentTransportSecret) (\<lambda>_.
     andthen (password_phase E) (\<lambda>_.
     andthen (memcached_phase E) (\<lambda>memcached.
     andthen (external_phase E currentTransportSecret) (\<lambda>_.
     andthen (network_phase E) (\<lambda>serviceAnnotations.
     andthen (init_phase E serviceAnnotations currentTransportSecret notif) (\<lambda>_.
     ok (currentTransportSecret, notif, memcached, serviceAnnotations)))))))))))"

definition deploy ::
  "ext \<Rightarrow> Memcached \<Rightarrow> (string \<rightharpoonup> string) \<Rightarrow> unit reconcile" where
  "deploy E memcached serviceAnnotations =
     andthen (input_hash_phase E) (\<lambda>inputHash.
     andthen (topology_phase E) (\<lambda>topology.
     andthen (fcall (IsWSGIEffective E (serviceLabels E) serviceAnnotations)) (\<lambda>wsgi.
     andthen (deployment_phase E serviceAnnotations topology memcached inputHash wsgi) (\<lambda>_.
     workers_phase E serviceAnnotations topology memcached inputHash wsgi))))"

definition conclude :: "ext \<Rightarrow> string \<Rightarrow> TransportURL option \<Rightarrow> answer reconcile" where
  "conclude E currentTransportSecret notif =
     andthen (accounts_phase E) (\<lambda>_.
     andthen (guard_ready E) (\<lambda>guardReady.
     andthen (rotate_transport E currentTransportSecret guardReady) (\<lambda>_.
     andthen (rotate_notifications E notif guardReady) (\<lambda>_.
     andthen (rotate_credential E guardReady) (\<lambda>_.
     andthen (prune_phase E currentTransportSecret notif) (\<lambda>_.
     ready_phase E))))))"

definition reconcileNormal :: "ext \<Rightarrow> answer reconcile" where
  "reconcileNormal E =
     andthen (prepare E) (\<lambda>(currentTransportSecret, notif, memcached, serviceAnnotations).
     andthen (deploy E memcached serviceAnnotations) (\<lambda>_.
     conclude E currentTransportSecret notif))"

end
