(* ===== verification/Reconcile.thy ===== *)
theory Reconcile
  imports ReconcileNormal
begin

text \<open>
  The entry point of the controller: \<^verbatim>\<open>Reconcile\<close> with its deferred patch, and
  \<^verbatim>\<open>reconcileDelete\<close>, from \<^verbatim>\<open>internal/controller/neutronapi_controller.go\<close>.
\<close>

section \<open>reconcileDelete\<close>

definition release_database :: "ext \<Rightarrow> unit reconcile" where
  "release_database E =
     andthen the_inst (\<lambda>i.
     andthen (invoke (aErr (cl E))
       (GetDatabaseByNameAndAccount DatabaseCRName (DatabaseAccount (Spec i)) (Namespace i))) (\<lambda>err.
     if err \<noteq> None \<and> \<not> notFound err then or_return err
     else if \<not> notFound err then
       andthen (invoke (aErr (cl E)) DatabaseDeleteFinalizer) or_return
     else ok ()))"

text \<open>The finalizer of a Keystone object: fetched with \<open>get\<close>, written back with \<open>put\<close>.\<close>

definition release_keystone ::
  "ext \<Rightarrow> (string \<Rightarrow> string \<Rightarrow> call) \<Rightarrow> (KeystoneObj \<Rightarrow> call) \<Rightarrow> unit reconcile" where
  "release_keystone E get put =
     andthen the_inst (\<lambda>i.
     andthen (invoke (aKeystoneObj (cl E)) (get ServiceName (Namespace i))) (\<lambda>r.
     case r of
       Inl e \<Rightarrow> if \<not> IsNotFound e then ret (NoResult, Some e) else ok ()
     | Inr obj \<Rightarrow>
         (case RemoveFinalizer (ut E) (KFinalizers obj) (HelperFinalizer (ut E)) of
            (fs, removed) \<Rightarrow>
              if removed then
                andthen (invoke (aErr (cl E)) (put (obj\<lparr>KFinalizers := fs\<rparr>))) (\<lambda>err.
                if err \<noteq> None \<and> \<not> notFound err then or_return err else ok ())
              else ok ())))"

definition release_topology :: "ext \<Rightarrow> unit reconcile" where
  "release_topology E =
     andthen the_inst (\<lambda>i.
     andthen (invoke (aResult (cl E))
       (EnsureDeletedTopologyRef (LastAppliedTopology (Status i)) (Name i))) (\<lambda>(ctrlResult, err).
     case err of Some e \<Rightarrow> ret (ctrlResult, Some e) | None \<Rightarrow> ok ()))"

text \<open>The loop that adds the Secret of each live TransportURL.\<close>

fun live_secrets :: "ext \<Rightarrow> string \<Rightarrow> string list \<Rightarrow> string list \<Rightarrow> string list reconcile" where
  "live_secrets E namespace [] transportSecrets = ok transportSecrets"
| "live_secrets E namespace (tuName # rest) transportSecrets =
     andthen (invoke (aTransportURL (cl E)) (GetTransportURL tuName namespace)) (\<lambda>r.
     case r of
       Inl e \<Rightarrow> if \<not> IsNotFound e then ret (NoResult, Some e)
                else live_secrets E namespace rest transportSecrets
     | Inr tu \<Rightarrow> live_secrets E namespace rest (transportSecrets @ [TUSecretName tu]))"

definition remove_consumer :: "ext \<Rightarrow> string \<Rightarrow> string \<Rightarrow> unit reconcile" where
  "remove_consumer E finalizer secretName =
     andthen the_inst (\<lambda>i.
     andthen (invoke (aErr (cl E))
       (RemoveSecretConsumerFinalizer (Namespace i) secretName finalizer)) or_return)"

definition release_transport :: "ext \<Rightarrow> unit reconcile" where
  "release_transport E =
     andthen the_inst (\<lambda>i.
     andthen (live_secrets E (Namespace i)
       [Name i @ ''-neutron-transport'', ''notifications-neutron-transport'']
       [TransportURLSecret (Status i)]) (\<lambda>transportSecrets.
     foreach (remove_consumer E TransportConsumerFinalizer)
       (transportSecrets @
        (case NotificationsTransportURLSecret (Status i) of None \<Rightarrow> [] | Some x \<Rightarrow> [x]))))"

definition prune_all :: "ext \<Rightarrow> string \<Rightarrow> unit reconcile" where
  "prune_all E finalizer =
     andthen the_inst (\<lambda>i.
     andthen (invoke (aErr (cl E)) (PruneSecretConsumerFinalizers (Namespace i) finalizer []))
       or_return)"

definition release_credential :: "ext \<Rightarrow> unit reconcile" where
  "release_credential E =
     andthen the_inst (\<lambda>i.
     foreach (remove_consumer E ACConsumerFinalizer)
       [ApplicationCredentialSecret (Status i), AuthApplicationCredentialSecret (Spec i)])"

definition set_finalizers :: "string list \<Rightarrow> (rstate, 'r, unit) prog" where
  "set_finalizers fs = update (\<lambda>s. s\<lparr>inst := (inst s)\<lparr>Finalizers := fs\<rparr>\<rparr>)"

definition release_all :: "ext \<Rightarrow> unit reconcile" where
  "release_all E =
     andthen (release_database E) (\<lambda>_.
     andthen (release_keystone E GetKeystoneEndpointWithName UpdateKeystoneEndpoint) (\<lambda>_.
     andthen (release_keystone E GetKeystoneServiceWithName UpdateKeystoneService) (\<lambda>_.
     andthen (release_topology E) (\<lambda>_.
     andthen (release_transport E) (\<lambda>_.
     andthen (prune_all E TransportConsumerFinalizer) (\<lambda>_.
     andthen (prune_all E ACConsumerFinalizer) (\<lambda>_.
     release_credential E)))))))"

definition reconcileDelete :: "ext \<Rightarrow> answer reconcile" where
  "reconcileDelete E =
     andthen (release_all E) (\<lambda>_.
     andthen the_inst (\<lambda>i.
     andthen (set_finalizers
       (fst (RemoveFinalizer (ut E) (Finalizers i) (HelperFinalizer (ut E))))) (\<lambda>_.
     ret (NoResult, None))))"

section \<open>Reconcile\<close>

text \<open>The conditions every reconcile starts from.\<close>

definition init_messages :: "(ctype \<times> message) list" where
  "init_messages =
     [(ReadyCondition, LibMsg ''ReadyInitMessage''),
      (DBReadyCondition, LibMsg ''DBReadyInitMessage''),
      (DBSyncReadyCondition, LibMsg ''DBSyncReadyInitMessage''),
      (CreateServiceReadyCondition, LibMsg ''CreateServiceReadyInitMessage''),
      (RabbitMqTransportURLReadyCondition, LibMsg ''RabbitMqTransportURLReadyInitMessage''),
      (MemcachedReadyCondition, LibMsg ''MemcachedReadyInitMessage''),
      (InputReadyCondition, LibMsg ''InputReadyInitMessage''),
      (ServiceConfigReadyCondition, LibMsg ''ServiceConfigReadyInitMessage''),
      (DeploymentReadyCondition, LibMsg ''DeploymentReadyInitMessage''),
      (KeystoneServiceReadyCondition, Text []),
      (KeystoneEndpointReadyCondition, Text []),
      (NetworkAttachmentsReadyCondition, LibMsg ''NetworkAttachmentsReadyInitMessage''),
      (ServiceAccountReadyCondition, LibMsg ''ServiceAccountReadyInitMessage''),
      (RoleReadyCondition, LibMsg ''RoleReadyInitMessage''),
      (RoleBindingReadyCondition, LibMsg ''RoleBindingReadyInitMessage''),
      (NotificationBusInstanceReadyCondition, LibMsg ''NotificationBusInstanceReadyInitMessage''),
      (NeutronExternalConfigsReady, NeutronExternalConfigsInitMessage)]"

definition init_conditions :: "ext \<Rightarrow> Condition list" where
  "init_conditions E =
     CreateList (cnd E) (map (\<lambda>(t, m). UnknownCondition (cnd E) t InitReason m) init_messages)"

text \<open>
  \<^verbatim>\<open>DeletionTimestamp.IsZero() && AddFinalizer(\<dots>) || isNewInstance\<close>: gives whether the
  function returns here. The finalizer is added only to an object that is not being deleted.
\<close>

definition first_pass :: "ext \<Rightarrow> bool \<Rightarrow> bool reconcile" where
  "first_pass E isNewInstance =
     andthen the_inst (\<lambda>i.
     if DeletionTimestamp i = None then
       (case AddFinalizer (ut E) (Finalizers i) (HelperFinalizer (ut E)) of
          (fs, added) \<Rightarrow> andthen (set_finalizers fs) (\<lambda>_. ok (added \<or> isNewInstance)))
     else ok isNewInstance)"

text \<open>
  The body after the deferred function is registered. The Topology condition is set on the
  local list \<^verbatim>\<open>cl\<close>, which is not used any more; the statement has no effect.
\<close>

definition reconcile_body :: "ext \<Rightarrow> bool \<Rightarrow> answer reconcile" where
  "reconcile_body E isNewInstance =
     andthen (on_conds (\<lambda>cs. CInit (cnd E) cs (init_conditions E))) (\<lambda>_.
     andthen the_inst (\<lambda>i.
     andthen (set_status (\<lambda>st. st\<lparr>ObservedGeneration := Generation i\<rparr>)) (\<lambda>_.
     andthen (first_pass E isNewInstance) (\<lambda>done.
     if done then ret (NoResult, None)
     else
     andthen (set_status (\<lambda>st. if Hash st = None then st\<lparr>Hash := Some Map.empty\<rparr> else st)) (\<lambda>_.
     andthen (set_status (\<lambda>st. if StatusNetworkAttachments st = None
       then st\<lparr>StatusNetworkAttachments := Some Map.empty\<rparr> else st)) (\<lambda>_.
     if DeletionTimestamp i \<noteq> None then reconcileDelete E
     else reconcileNormal E))))))"

text \<open>
  The deferred function: restore the transition times, mirror a Ready condition that is
  unknown (\<^verbatim>\<open>Set\<close> of nil does nothing), and patch the instance; an error of the patch replaces
  the error returned.
\<close>

definition deferred :: "ext \<Rightarrow> Condition list \<Rightarrow> answer \<Rightarrow> answer reconcile" where
  "deferred E savedConditions a =
     andthen (on_conds (\<lambda>cs. RestoreLastTransitionTimes (cnd E) cs savedConditions)) (\<lambda>_.
     andthen the_inst (\<lambda>i.
     andthen
       (if CIsUnknown (cnd E) (conds (Status i)) ReadyCondition then
          (case CMirror (cnd E) (conds (Status i)) ReadyCondition of
             None \<Rightarrow> ok () | Some c \<Rightarrow> set_cond E c)
        else ok ()) (\<lambda>_.
     andthen the_inst (\<lambda>i.
     andthen (invoke (aErr (cl E)) (PatchInstance i)) (\<lambda>err.
     case err of Some e \<Rightarrow> ret (fst a, Some e) | None \<Rightarrow> ret a)))))"

text \<open>A panic of the body is raised again and nothing is patched.\<close>

definition with_deferred ::
  "ext \<Rightarrow> Condition list \<Rightarrow> answer reconcile \<Rightarrow> answer reconcile" where
  "with_deferred E savedConditions m = andthen (fcall m) (deferred E savedConditions)"

definition Reconcile :: "ext \<Rightarrow> string \<Rightarrow> string \<Rightarrow> answer reconcile" where
  "Reconcile E name namespace =
     andthen (invoke (aInstance (cl E)) (GetNeutronAPI name namespace)) (\<lambda>r.
     case r of
       Inl e \<Rightarrow> if IsNotFound e then ret (NoResult, None) else ret (NoResult, Some e)
     | Inr i \<Rightarrow>
     andthen (update (\<lambda>s. s\<lparr>inst := i\<rparr>)) (\<lambda>_.
     andthen (invoke (aErr (cl E)) NewHelper) (\<lambda>err.
     andthen (or_return err) (\<lambda>_.
     andthen (if StatusConditions (Status i) = None
              then set_status (\<lambda>st. st\<lparr>StatusConditions := Some []\<rparr>) else ok ()) (\<lambda>_.
     with_deferred E (conds (Status i))
       (reconcile_body E (StatusConditions (Status i) = None)))))))"

end
