(* ===== verification/PhaseFrames.thy ===== *)
theory PhaseFrames
  imports Reconcile
begin

text \<open>
  The frames of the reconciler's phases: everything between the RBAC step and the Deployments
  leaves the conditions of the RBAC objects and of the Deployments and the Ready condition alone
  and makes only routine calls, that is calls that neither release a credential nor touch a
  Deployment or the RBAC objects.
\<close>

definition rbac_types :: "ctype set" where
  "rbac_types = {ServiceAccountReadyCondition, RoleReadyCondition, RoleBindingReadyCondition}"

definition late :: "ctype set" where
  "late = {ReadyCondition, DeploymentReadyCondition, NeutronRPCReadyCondition,
     NeutronWorkerReadyCondition} \<union> rbac_types"

fun routine :: "call \<Rightarrow> bool" where
  "routine (PatchInstance i) = False"
| "routine (DeleteTransportURL n ns) = False"
| "routine (RemoveSecretConsumerFinalizer ns n f) = False"
| "routine (PruneSecretConsumerFinalizers ns f keep) = False"
| "routine (FinalizeSecretRotation ns old cur f g) = False"
| "routine (CreateOrPatchDeployment d n) = False"
| "routine (IsReadyForInput n ns h) = False"
| "routine (DeleteDeployment n ns) = False"
| "routine (ReconcileRbac n ns rules) = False"
| "routine c = True"

lemma late_simps [simp]:
  "InputReadyCondition \<notin> late" "MariaDBAccountReadyCondition \<notin> late" "DBReadyCondition \<notin> late"
  "TLSInputReadyCondition \<notin> late" "ServiceConfigReadyCondition \<notin> late"
  "DBSyncReadyCondition \<notin> late" "CreateServiceReadyCondition \<notin> late"
  "KeystoneServiceReadyCondition \<notin> late" "KeystoneEndpointReadyCondition \<notin> late"
  "RabbitMqTransportURLReadyCondition \<notin> late" "NotificationBusInstanceReadyCondition \<notin> late"
  "MemcachedReadyCondition \<notin> late" "NeutronExternalConfigsReady \<notin> late"
  "NetworkAttachmentsReadyCondition \<notin> late" "TopologyReadyCondition \<notin> late"
  "ServiceAccountReadyCondition \<in> late" "RoleReadyCondition \<in> late" "RoleBindingReadyCondition \<in> late"
  "DeploymentReadyCondition \<in> late" "NeutronRPCReadyCondition \<in> late"
  "NeutronWorkerReadyCondition \<in> late" "ReadyCondition \<in> late"
  by (simp_all add: late_def rbac_types_def)

section \<open>External Secrets and configuration\<close>

lemma calm_ensure_secrets: "always (calm T routine) (ensure_secrets E ts)"
  unfolding ensure_secrets_def by (intro calm_rules) simp

lemma calm_ensureExternalSecret: "always (calm T routine) (ensureExternalSecret E n ts ps)"
  unfolding ensureExternalSecret_def by (intro calm_rules calm_ensure_secrets)

lemma calm_deleteExternalSecret: "always (calm T routine) (deleteExternalSecret E n)"
  unfolding deleteExternalSecret_def by (intro calm_rules) simp

lemma calm_withdraw: "always (calm T routine) (withdraw E w n)"
  unfolding withdraw_def by (intro calm_rules calm_deleteExternalSecret)

lemma calm_publish: "always (calm T routine) m \<Longrightarrow> always (calm T routine) (publish w m)"
  unfolding publish_def by (intro calm_rules)

lemma calm_getTransportURL: "always (calm T routine) (getTransportURL E x)"
  unfolding getTransportURL_def by (intro calm_rules) simp

lemma calm_agents:
  "always (calm T routine) (reconcileExternalOVNMetadataAgentSecret E)"
  "always (calm T routine) (reconcileExternalOVNAgentSecret E)"
  "always (calm T routine) (reconcileExternalSriovAgentSecret E tu)"
  "always (calm T routine) (reconcileExternalDhcpAgentSecret E tu)"
  unfolding reconcileExternalOVNMetadataAgentSecret_def reconcileExternalOVNAgentSecret_def
    reconcileExternalSriovAgentSecret_def reconcileExternalDhcpAgentSecret_def
    ensureExternalOVNMetadataAgentSecret_def ensureExternalOVNAgentSecret_def
    ensureExternalSriovAgentSecret_def ensureExternalDhcpAgentSecret_def
  by (intro calm_rules calm_withdraw calm_publish calm_ensureExternalSecret calm_getTransportURL; simp)+

lemma calm_externals:
  "always (calm T routine) (reconcileExternalSecrets E tu)"
  "always (calm T routine) (reconcileExternalOVNSecrets E)"
  unfolding reconcileExternalSecrets_def reconcileExternalOVNSecrets_def try_agent_def
  by (intro calm_rules calm_agents)+

lemma calm_params:
  "always (calm T routine) (ac_params E)" "always (calm T routine) (ovn_params E)"
  "always (calm T routine) (notifications_params E n)" "always (calm T routine) (try_sum r)"
  unfolding ac_params_def ovn_params_def notifications_params_def try_sum_def
  by (intro calm_rules calm_getTransportURL; simp)+

lemma calm_base_params:
  assumes "condition_laws (cnd E)" and "InputReadyCondition \<notin> T"
  shows "always (calm T routine) (base_params E ls an tu)"
  unfolding base_params_def
  by (intro calm_rules calm_getTransportURL calm_params(4) calm_IsWSGIEffective assms; simp)

lemma calm_generateServiceSecrets:
  assumes "condition_laws (cnd E)" and "InputReadyCondition \<notin> T"
  shows "always (calm T routine) (generateServiceSecrets E db ls an tu n)"
  unfolding generateServiceSecrets_def
  by (intro calm_rules calm_base_params calm_params calm_ensure_secrets assms)

lemma calm_createHash: "always (calm T routine) (createHashOfInputHashes E)"
  unfolding createHashOfInputHashes_def by (intro calm_rules calm_status; simp)

section \<open>reconcileInit\<close>

lemma calm_ensureDB:
  assumes "condition_laws (cnd E)"
  shows "always (calm late routine) (ensureDB E)"
  unfolding ensureDB_def
  by (intro calm_rules calm_status assms; simp add: tracked_def conds_def)

lemma calm_init_tls:
  assumes "condition_laws (cnd E)"
  shows "always (calm late routine) (init_tls E)"
  unfolding init_tls_def validate_ca_def validate_api_certs_def validate_ovn_cert_def tls_failed_def
  by (intro calm_rules assms; simp)

lemma calm_config_failed:
  assumes "condition_laws (cnd E)"
  shows "always (calm late routine) (config_failed E e)"
  unfolding config_failed_def by (intro calm_rules assms; simp)

lemma calm_init_config:
  assumes "condition_laws (cnd E)"
  shows "always (calm late routine) (init_database E)"
    and "always (calm late routine) (init_config E db ls an tu n)"
    and "always (calm late routine) (init_hash E)"
    and "always (calm late routine) (init_credential E)"
  unfolding init_database_def init_config_def init_hash_def init_credential_def
  by (intro calm_rules calm_ensureDB calm_generateServiceSecrets calm_createHash
      calm_config_failed assms; simp)+

lemma calm_must_build: "always (calm T P) (must_build r)"
  unfolding must_build_def by (cases r) (auto intro: calm_rules)

lemma calm_init_dbsync:
  assumes "condition_laws (cnd E)"
  shows "always (calm late routine) (init_dbsync E ls an)"
  unfolding init_dbsync_def by (intro calm_rules calm_must_build assms; simp)

lemma calm_expose_endpoint:
  assumes "condition_laws (cnd E)"
  shows "always (calm late routine) (expose_endpoint E ls e)"
  unfolding expose_endpoint_def service_failed_def by (intro calm_rules assms; simp)

lemma calm_expose_endpoints:
  assumes "condition_laws (cnd E)"
  shows "always (calm late routine) (expose_endpoints E ls es acc)"
  by (induction es arbitrary: acc) (auto intro!: calm_rules calm_expose_endpoint assms)

lemma calm_mirror_into:
  assumes "condition_laws (cnd E)" and "t \<notin> late"
  shows "always (calm late routine) (mirror_into E t a cs)"
proof -
  have "always (calm late routine) (case CMirror (cnd E) cs t of None \<Rightarrow> ok () | Some c \<Rightarrow> set_cond E c)"
    using assms by (auto intro!: calm_rules dest: Mirror_type split: option.split)
  then have "always (calm late routine) (mirror_into E t (r, None) cs)" for r
    by (simp add: mirror_into_def)
       (intro calm.frame_andthen calm.frame_ret calm.frame_ok conjI impI; assumption)
  then show ?thesis
    by (cases a; cases "snd a") (auto simp: mirror_into_def intro: calm.frame_ret)
qed

lemma calm_reconcileInit:
  assumes "condition_laws (cnd E)"
  shows "always (calm late routine) (reconcileInit E ls an tu n)"
  unfolding reconcileInit_def init_expose_def init_keystone_def
  by (intro calm_rules calm_init_config calm_init_tls calm_init_dbsync calm_expose_endpoints
      calm_mirror_into assms; simp)

section \<open>reconcileNormal before the Deployments\<close>

lemma calm_verify_phase:
  assumes "condition_laws (cnd E)"
  shows "always (calm late routine) (verify_phase E n fs r v)"
  unfolding verify_phase_def by (intro calm_rules assms; simp)

lemma conds_tracked_update [simp]:
  "conds (st\<lparr>TransportURLSecret := x\<rparr>) = conds st"
  "conds (st\<lparr>NotificationsTransportURLSecret := y\<rparr>) = conds st"
  "conds (st\<lparr>ApplicationCredentialSecret := x\<rparr>) = conds st"
  "conds (st\<lparr>RPCReadyCount := n\<rparr>) = conds st" "conds (st\<lparr>WorkerReadyCount := n\<rparr>) = conds st"
  "conds (st\<lparr>ReadyCount := n\<rparr>) = conds st" "conds (st\<lparr>StatusNetworkAttachments := a\<rparr>) = conds st"
  "conds (st\<lparr>LastAppliedTopology := t\<rparr>) = conds st"
  by (simp_all add: conds_def)

lemma tracked_other_update [simp]:
  "tracked (st\<lparr>RPCReadyCount := n\<rparr>) = tracked st" "tracked (st\<lparr>WorkerReadyCount := n\<rparr>) = tracked st"
  "tracked (st\<lparr>ReadyCount := n\<rparr>) = tracked st"
  "tracked (st\<lparr>StatusNetworkAttachments := a\<rparr>) = tracked st"
  "tracked (st\<lparr>LastAppliedTopology := t\<rparr>) = tracked st"
  by (simp_all add: tracked_def)

lemma cool_transport_phase:
  assumes "condition_laws (cnd E)"
  shows "always (cool late routine) (transport_phase E)"
  unfolding transport_phase_def transportURLCreateOrUpdate_def
  by (intro cool_rules assms; simp)

lemma cool_notifications_phase:
  assumes "condition_laws (cnd E)"
  shows "always (cool late routine) (notifications_phase E)"
  unfolding notifications_phase_def transportURLCreateOrUpdate_def
  by (intro cool_rules cool_of_calm [OF calm_verify_phase] assms; simp)

lemma calm_input_phases:
  assumes "condition_laws (cnd E)"
  shows "always (calm late routine) (transport_verify_phase E c)"
    and "always (calm late routine) (password_phase E)"
    and "always (calm late routine) (memcached_phase E)"
    and "always (calm late routine) (external_phase E c)"
  unfolding transport_verify_phase_def password_phase_def memcached_phase_def external_phase_def
    externals_failed_def
  by (intro calm_rules calm_verify_phase calm_externals assms; simp)+

lemma calm_nad_loop:
  assumes "condition_laws (cnd E)"
  shows "always (calm late routine) (nad_loop E ns nads acc)"
  by (induction nads arbitrary: acc) (auto intro!: calm_rules assms)

lemma calm_init_phases:
  assumes "condition_laws (cnd E)"
  shows "always (calm late routine) (network_phase E)"
    and "always (calm late routine) (init_phase E an c n)"
    and "always (calm late routine) (input_hash_phase E)"
    and "always (calm late routine) (topology_phase E)"
  unfolding network_phase_def init_phase_def input_hash_phase_def topology_phase_def
    reconcileUpdate_def reconcileUpgrade_def
  by (intro calm_rules calm_nad_loop calm_reconcileInit calm_status assms; simp)+

text \<open>The preparation after the RBAC step.\<close>

lemma cool_prepare_rest:
  assumes "condition_laws (cnd E)"
  shows "always (cool late routine)
     (andthen (update (\<lambda>s. s\<lparr>vars := []\<rparr>)) (\<lambda>_.
      andthen (transport_phase E) (\<lambda>currentTransportSecret.
      andthen (notifications_phase E) (\<lambda>notif.
      andthen (transport_verify_phase E currentTransportSecret) (\<lambda>_.
      andthen (password_phase E) (\<lambda>_.
      andthen (memcached_phase E) (\<lambda>memcached.
      andthen (external_phase E currentTransportSecret) (\<lambda>_.
      andthen (network_phase E) (\<lambda>serviceAnnotations.
      andthen (init_phase E serviceAnnotations currentTransportSecret notif) (\<lambda>_.
      ok (currentTransportSecret, notif, memcached, serviceAnnotations)))))))))))"
  by (intro cool.frame_rules cool_transport_phase cool_notifications_phase
      cool_of_calm [OF calm_vars] calm_input_phases [THEN cool_of_calm]
      calm_init_phases [THEN cool_of_calm] assms)

end
