(* ===== verification/Rotation.thy ===== *)
theory Rotation
  imports PhaseFrames
begin

text \<open>
  Rotation of credentials: an old transport URL, notifications or application credential
  Secret is released only when every Deployment the reconcile created or patched is known to
  run the configuration with the current credentials; nothing is released or pruned before all
  three Deployments have been dealt with.
\<close>

section \<open>What it means for the rollout to be complete\<close>

text \<open>The Deployment carries the configuration hash \<open>h\<close> in every container.\<close>

definition carries :: "DeploymentObj \<Rightarrow> string \<Rightarrow> bool" where
  "carries d h \<longleftrightarrow> Containers (pod_of d) \<noteq> [] \<and>
     list_all (\<lambda>c. \<lparr>EnvName = ''CONFIG_HASH'', EnvValue = h\<rparr> \<in> set (Env c)) (Containers (pod_of d))"

fun confirms :: "call \<Rightarrow> DeploymentObj \<Rightarrow> bool" where
  "confirms (IsReadyForInput n ns h) d = (n = DeplName d \<and> ns = DeplNamespace d \<and> carries d h)"
| "confirms c d = False"

text \<open>
  The Deployments written so far whose rollout the cluster has not yet confirmed for the hash
  they carry.
\<close>

fun pending_step :: "ext \<Rightarrow> call list \<Rightarrow> call \<Rightarrow> DeploymentObj list \<Rightarrow> DeploymentObj list" where
  "pending_step E pre (CreateOrPatchDeployment d n) ds = ds @ [d]"
| "pending_step E pre (IsReadyForInput n ns h) ds =
     (if aBool (cl E) (pre @ [IsReadyForInput n ns h]) = Inr True
      then filter (\<lambda>d. \<not> confirms (IsReadyForInput n ns h) d) ds else ds)"
| "pending_step E pre c ds = ds"

fun pending_from ::
  "ext \<Rightarrow> call list \<Rightarrow> DeploymentObj list \<Rightarrow> call list \<Rightarrow> DeploymentObj list" where
  "pending_from E pre ds [] = ds"
| "pending_from E pre ds (c # cs) = pending_from E (pre @ [c]) (pending_step E pre c ds) cs"

definition pending :: "ext \<Rightarrow> call list \<Rightarrow> DeploymentObj list" where
  "pending E cs = pending_from E [] [] cs"

text \<open>Calls that give up a credential, and the histories in which that is safe.\<close>

fun releases :: "call \<Rightarrow> bool" where
  "releases (FinalizeSecretRotation ns old cur f g) = g"
| "releases (RemoveSecretConsumerFinalizer ns n f) = True"
| "releases (DeleteTransportURL n ns) = True"
| "releases c = False"

fun is_prune :: "call \<Rightarrow> bool" where
  "is_prune (PruneSecretConsumerFinalizers ns f keep) = True"
| "is_prune c = False"

fun rolls_out :: "call \<Rightarrow> bool" where
  "rolls_out (CreateOrPatchDeployment d n) = True"
| "rolls_out (DeleteDeployment n ns) = True"
| "rolls_out c = False"

text \<open>
  The Deployment \<open>n\<close> has been dealt with: written, or deleted (or found not
  to be there) where the strategy has none. The
  API Deployment is never deleted.
\<close>

definition gone :: "ext \<Rightarrow> call list \<Rightarrow> string \<Rightarrow> bool" where
  "gone E cs n \<longleftrightarrow> (\<exists>p q ns. cs = p @ DeleteDeployment n ns # q \<and>
     (let err = aErr (cl E) (p @ [DeleteDeployment n ns]) in err = None \<or> notFound err))"

definition dealt :: "ext \<Rightarrow> call list \<Rightarrow> string \<Rightarrow> bool" where
  "dealt E cs n \<longleftrightarrow> (\<exists>d t. CreateOrPatchDeployment d t \<in> set cs \<and> DeplName d = n) \<or>
     n \<noteq> ServiceName \<and> gone E cs n"

definition deployed :: "ext \<Rightarrow> string set \<Rightarrow> call list \<Rightarrow> bool" where
  "deployed E M cs \<longleftrightarrow> (\<forall>n \<in> M. dealt E cs n)"

abbreviation all_deployments :: "string set" where
  "all_deployments \<equiv> {ServiceName, rpcName, workerName}"

definition cleared :: "ext \<Rightarrow> call list \<Rightarrow> bool" where
  "cleared E cs \<longleftrightarrow> deployed E all_deployments cs \<and> pending E cs = []"

text \<open>
  A release comes after the whole rollout has been confirmed; a prune, which the rotation guard
  does not hold back, comes like a release after every Deployment has been dealt with, and
  after either no Deployment is touched again.
\<close>

definition safe :: "ext \<Rightarrow> call list \<Rightarrow> bool" where
  "safe E cs \<longleftrightarrow> (\<forall>p c q. cs = p @ c # q \<longrightarrow> releases c \<or> is_prune c \<longrightarrow>
     deployed E all_deployments p \<and> \<not> list_ex rolls_out q \<and> (releases c \<longrightarrow> pending E p = []))"

definition unreleased :: "call list \<Rightarrow> bool" where
  "unreleased cs \<longleftrightarrow> \<not> list_ex (\<lambda>c. releases c \<or> is_prune c) cs"

lemma pending_from_append:
  "pending_from E pre ds (cs @ es) = pending_from E (pre @ cs) (pending_from E pre ds cs) es"
  by (induction cs arbitrary: pre ds) simp_all

lemma pending_snoc [simp]: "pending E (cs @ [c]) = pending_step E cs c (pending E cs)"
  by (simp add: pending_def pending_from_append)

lemma pending_routine_step: "routine c \<Longrightarrow> pending_step E cs c ds = ds"
  by (cases c) simp_all

lemma pending_routine: "list_all routine es \<Longrightarrow> pending E (cs @ es) = pending E cs"
  by (induction es rule: rev_induct)
     (simp_all add: append_assoc [symmetric] pending_routine_step del: append_assoc)

lemma safe_Nil [simp]: "safe E []"
  by (simp add: safe_def)

lemma safe_snoc [simp]:
  "safe E (cs @ [c]) \<longleftrightarrow> safe E cs \<and>
     (releases c \<or> is_prune c \<longrightarrow> deployed E all_deployments cs \<and> (releases c \<longrightarrow> pending E cs = [])) \<and>
     (rolls_out c \<longrightarrow> unreleased cs)" (is "?l \<longleftrightarrow> ?r")
proof
  let ?ok = "\<lambda>p c. deployed E all_deployments p \<and> (releases c \<longrightarrow> pending E p = [])"
  assume s: ?l
  have before: "?ok p d \<and> \<not> list_ex rolls_out q \<and> \<not> rolls_out c" if "cs = p @ d # q" "releases d \<or> is_prune d" for p d q
    using s [unfolded safe_def, rule_format, of p d "q @ [c]"] that by auto
  then have "safe E cs" by (simp add: safe_def)
  moreover have "rolls_out c \<longrightarrow> unreleased cs"
    unfolding unreleased_def list_ex_iff using before split_list by metis
  moreover have "releases c \<or> is_prune c \<longrightarrow> ?ok cs c"
    using s [unfolded safe_def, rule_format, of cs c "[]"] by simp
  ultimately show ?r by simp
next
  assume r: ?r
  show ?l
    unfolding safe_def
  proof (intro allI impI)
    fix p d q assume eq: "cs @ [c] = p @ d # q" and d: "releases d \<or> is_prune d"
    show "deployed E all_deployments p \<and> \<not> list_ex rolls_out q \<and> (releases d \<longrightarrow> pending E p = [])"
    proof (cases q rule: rev_cases)
      case Nil
      with eq r d show ?thesis by auto
    next
      case (snoc q' e)
      with eq have cs: "cs = p @ d # q'" "e = c" by simp_all
      with r d have "\<not> rolls_out c" by (auto simp: unreleased_def)
      with cs snoc r d show ?thesis by (auto simp: safe_def)
    qed
  qed
qed

lemma routine_plain: "routine c \<Longrightarrow> \<not> releases c \<and> \<not> is_prune c \<and> \<not> rolls_out c"
  by (cases c) simp_all

lemma safe_routine: "list_all routine es \<Longrightarrow> safe E (cs @ es) = safe E cs"
  by (induction es rule: rev_induct)
     (auto simp: append_assoc [symmetric] routine_plain simp del: append_assoc)

lemma unreleased_append [simp]: "unreleased (cs @ es) \<longleftrightarrow> unreleased cs \<and> unreleased es"
  by (simp add: unreleased_def)

lemma unreleased_single [simp]: "unreleased [c] \<longleftrightarrow> \<not> releases c \<and> \<not> is_prune c" "unreleased []"
  by (simp_all add: unreleased_def)

lemma unreleased_routine: "list_all routine es \<Longrightarrow> unreleased es"
  by (auto simp: unreleased_def list_ex_iff list_all_iff dest: routine_plain)

lemma unreleased_safe: "unreleased cs \<Longrightarrow> safe E cs"
  by (auto simp: safe_def unreleased_def)

lemma gone_append: "gone E cs n \<Longrightarrow> gone E (cs @ es) n"
  unfolding gone_def by fastforce

lemma dealt_append [intro]: "dealt E cs n \<Longrightarrow> dealt E (cs @ es) n"
  unfolding dealt_def set_append using gone_append by blast

lemma deployed_append [intro]: "deployed E M cs \<Longrightarrow> deployed E M (cs @ es)"
  by (auto simp: deployed_def)

lemma deployed_mono: "deployed E M cs \<Longrightarrow> M' \<subseteq> M \<Longrightarrow> deployed E M' cs"
  by (auto simp: deployed_def)

lemma deployed_insert [simp]: "deployed E (insert n M) cs \<longleftrightarrow> dealt E cs n \<and> deployed E M cs" "deployed E {} cs"
  by (simp_all add: deployed_def)

lemma dealt_last [simp]:
  "dealt E (cs @ [CreateOrPatchDeployment d t]) (DeplName d)"
  "n \<noteq> ServiceName \<Longrightarrow> aErr (cl E) (cs @ [DeleteDeployment n ns]) = err \<Longrightarrow> err = None \<or> notFound err \<Longrightarrow>
     dealt E (cs @ [DeleteDeployment n ns]) n"
proof -
  assume "n \<noteq> ServiceName" "aErr (cl E) (cs @ [DeleteDeployment n ns]) = err" "err = None \<or> notFound err"
  then show "dealt E (cs @ [DeleteDeployment n ns]) n"
    unfolding dealt_def gone_def by (intro disjI2 conjI exI [of _ cs] exI [of _ "[]"] exI [of _ ns]) auto
qed (auto simp: dealt_def)

section \<open>The invariant\<close>

text \<open>
  Every unconfirmed Deployment is flagged: the condition that stands for it is present and
  not True. \<open>flag\<close> says which condition that is. While the Deployments \<open>M\<close> have been dealt with
  and those still to be confirmed are among \<open>N\<close>, nothing is released or pruned.
\<close>

definition flag :: "string \<Rightarrow> ctype" where
  "flag n = (if n = ServiceName then DeploymentReadyCondition
             else if n = rpcName then NeutronRPCReadyCondition
             else NeutronWorkerReadyCondition)"

definition flagged :: "ctype \<Rightarrow> rstate \<Rightarrow> bool" where
  "flagged t s \<longleftrightarrow> cond_status s t \<noteq> None \<and> cond_status s t \<noteq> Some CondTrue"

definition owed :: "string set \<Rightarrow> rstate \<Rightarrow> DeploymentObj list \<Rightarrow> bool" where
  "owed N s ds \<longleftrightarrow> (\<forall>d \<in> set ds. DeplName d \<in> N \<and> flagged (flag (DeplName d)) s)"

definition rolling :: "ext \<Rightarrow> string set \<Rightarrow> string set \<Rightarrow> rstate \<Rightarrow> bool" where
  "rolling E M N s \<longleftrightarrow> unreleased (trace s) \<and> deployed E M (trace s) \<and> owed N s (pending E (trace s))"

text \<open>What holds however the reconcile ends: no early release, and every unconfirmed one flagged.\<close>

definition honest :: "ext \<Rightarrow> rstate \<Rightarrow> bool" where
  "honest E s \<longleftrightarrow> safe E (trace s) \<and> owed UNIV s (pending E (trace s))"

text \<open>In between: \<open>d\<close> was written and is flagged, the others are owed as before.\<close>

definition rolling_one :: "ext \<Rightarrow> string set \<Rightarrow> string set \<Rightarrow> DeploymentObj \<Rightarrow> rstate \<Rightarrow> bool" where
  "rolling_one E M N d s \<longleftrightarrow> unreleased (trace s) \<and> deployed E (insert (DeplName d) M) (trace s) \<and> flagged (flag (DeplName d)) s \<and>
     (\<exists>old. pending E (trace s) = old @ [d] \<and> owed N s old)"

lemma flag_names:
  "flag ServiceName = DeploymentReadyCondition" "flag rpcName = NeutronRPCReadyCondition"
  "flag workerName = NeutronWorkerReadyCondition" "ServiceName \<noteq> rpcName"
  "ServiceName \<noteq> workerName" "rpcName \<noteq> workerName" "flag n \<noteq> ReadyCondition"
  by (simp_all add: flag_def ServiceName_def rpcName_def workerName_def RPCDeploymentSuffix_def
      WorkerDeploymentSuffix_def)

lemma flag_late: "flag n \<in> late"
  by (simp add: flag_def)

lemma owed_cong:
  "(\<And>n. cond_status s' (flag n) = cond_status s (flag n)) \<Longrightarrow> owed N s' ds = owed N s ds"
  by (simp add: owed_def flagged_def)

lemma owed_mono: "owed N s ds \<Longrightarrow> N \<subseteq> M \<Longrightarrow> set es \<subseteq> set ds \<Longrightarrow> owed M s es"
  by (auto simp: owed_def)

lemma rolling_mono: "rolling E M N s \<Longrightarrow> M' \<subseteq> M \<Longrightarrow> N \<subseteq> N' \<Longrightarrow> rolling E M' N' s"
  by (auto simp: rolling_def intro: owed_mono deployed_mono)

lemma rolling_one_rolling: "rolling_one E M N d s \<Longrightarrow> rolling E (insert (DeplName d) M) (insert (DeplName d) N) s"
  by (auto simp: rolling_one_def rolling_def owed_def)

lemma rolling_honest: "rolling E M N s \<Longrightarrow> honest E s"
  by (auto simp: rolling_def honest_def intro: owed_mono unreleased_safe)

lemma cool_rolling:
  assumes "cool late routine s t" and "rolling E M N s"
  shows "rolling E M N t"
proof -
  from assms(1) obtain cs where "trace t = trace s @ cs" "list_all routine cs"
    by (auto simp: cool_def grown_def)
  with assms show ?thesis
    using owed_cong [of t s N] by (auto simp: rolling_def cool_def flag_late unreleased_routine pending_routine)
qed

lemma cool_flagged: "cool late routine s t \<Longrightarrow> t' \<in> late \<Longrightarrow> flagged t' t = flagged t' s"
  by (simp add: cool_def flagged_def)

section \<open>The rules for single statements\<close>

lemma guarded_invoke:
  "(\<And>s. P s \<Longrightarrow> Q (f (trace s @ [c])) (s\<lparr>trace := trace s @ [c]\<rparr>)) \<Longrightarrow> guarded P (invoke f c) Q R"
  by (simp add: guarded_def invoke_def)

lemma guarded_the_inst:
  "(\<And>i. guarded (\<lambda>s. P s \<and> inst s = i) (f i) Q R) \<Longrightarrow> guarded P (andthen the_inst f) Q R"
  unfolding guarded_def the_inst_def by (simp add: prog_defs)

lemma guarded_set_status:
  assumes "\<And>s s'. P s \<Longrightarrow> trace s' = trace s \<Longrightarrow> conds (st_of s') = conds (f (st_of s)) \<Longrightarrow> Q () s'"
  shows "guarded P (set_status f) Q R"
  unfolding set_status_def by (rule guarded_update) (erule assms; simp)

lemma guarded_set_false:
  assumes "condition_laws (cnd E)"
    and "\<And>s s'. P s \<Longrightarrow> trace s' = trace s \<Longrightarrow>
      (\<And>t'. cond_status s' t' = (if t' = t then Some CondFalse else cond_status s t')) \<Longrightarrow> Q () s'"
  shows "guarded P (set_false E t r v m a) Q R"
  unfolding set_false_def set_cond_def on_conds_def
  by (rule guarded_set_status) (erule assms(2); simp add: condition_simps [OF assms(1)])

lemma guarded_mark_true:
  assumes "condition_laws (cnd E)"
    and "\<And>s s'. P s \<Longrightarrow> trace s' = trace s \<Longrightarrow>
      (\<And>t'. cond_status s' t' = (if t' = t then Some CondTrue else cond_status s t')) \<Longrightarrow> Q () s'"
  shows "guarded P (mark_true E t m) Q R"
  unfolding mark_true_def on_conds_def
  by (rule guarded_set_status) (erule assms(2); simp add: condition_simps [OF assms(1)])

lemma guarded_remove_cond:
  assumes "condition_laws (cnd E)"
    and "\<And>s s'. P s \<Longrightarrow> trace s' = trace s \<Longrightarrow>
      (\<And>t'. cond_status s' t' = (if t' = t then None else cond_status s t')) \<Longrightarrow> Q () s'"
  shows "guarded P (remove_cond E t) Q R"
  unfolding remove_cond_def on_conds_def
  by (rule guarded_set_status) (erule assms(2); simp add: condition_simps [OF assms(1)])

text \<open>A condition set to False keeps every flag; one set to True drops only its own.\<close>

lemma rolling_set_false:
  assumes "condition_laws (cnd E)"
  shows "guarded (rolling E M N) (set_false E t r v m a) (\<lambda>_ s. rolling E M N s \<and> flagged t s) R"
  by (rule guarded_set_false [OF assms]) (auto simp: rolling_def owed_def flagged_def)

lemma rolling_one_set_false:
  assumes "condition_laws (cnd E)"
  shows "guarded (rolling_one E M N d) (set_false E t r v m a) (\<lambda>_. rolling_one E M N d) R"
  by (rule guarded_set_false [OF assms]) (auto simp: rolling_one_def owed_def flagged_def)

lemma rolling_mark_true:
  assumes "condition_laws (cnd E)" and "\<forall>n \<in> N. flag n \<noteq> t"
  shows "guarded (rolling E M N) (mark_true E t m) (\<lambda>_. rolling E M N) R"
  by (rule guarded_mark_true [OF assms(1)]) (use assms(2) in \<open>auto simp: rolling_def owed_def flagged_def\<close>)

text \<open>What the operator relies on: the Deployment handed back is the one handed over.\<close>

definition deploy_laws :: "cluster \<Rightarrow> bool" where
  "deploy_laws c \<longleftrightarrow> (\<forall>cs d n. let ds = snd (aDeployment c (cs @ [CreateOrPatchDeployment d n]))
     in DSName ds = DeplName d \<and> DSNamespace ds = DeplNamespace d)"

lemma guarded_create:
  assumes "deploy_laws (cl E)"
  shows "guarded (\<lambda>s. rolling E M N s \<and> flagged (flag (DeplName d)) s)
     (invoke (aDeployment (cl E)) (CreateOrPatchDeployment d n))
     (\<lambda>x s. rolling_one E M N d s \<and> DSName (snd x) = DeplName d \<and> DSNamespace (snd x) = DeplNamespace d) R"
  by (rule guarded_invoke)
     (use assms in \<open>auto simp: rolling_def rolling_one_def deploy_laws_def Let_def deployed_def
        flagged_def owed_def\<close>)

lemma guarded_confirm:
  assumes "carries d h"
  shows "guarded (rolling_one E M N d)
     (invoke (aBool (cl E)) (IsReadyForInput (DeplName d) (DeplNamespace d) h))
     (\<lambda>r s. if r = Inr True then rolling E (insert (DeplName d) M) N s else rolling_one E M N d s) R"
proof (rule guarded_invoke)
  fix s assume s: "rolling_one E M N d s"
  let ?c = "IsReadyForInput (DeplName d) (DeplNamespace d) h"
  let ?s = "s\<lparr>trace := trace s @ [?c]\<rparr>"
  from s obtain old where old: "pending E (trace s) = old @ [d]" "owed N s old"
    and rest: "unreleased (trace s)" "deployed E (insert (DeplName d) M) (trace s)" "flagged (flag (DeplName d)) s"
    by (auto simp: rolling_one_def)
  have "flagged t ?s = flagged t s" for t by (simp add: flagged_def)
  then have "owed N ?s old" using old(2) by (simp add: owed_def)
  then show "if aBool (cl E) (trace s @ [?c]) = Inr True then rolling E (insert (DeplName d) M) N ?s
      else rolling_one E M N d ?s"
    using old rest assms
    by (auto simp: rolling_def rolling_one_def flagged_def intro: owed_mono)
qed

section \<open>The two worker Deployments\<close>

lemma guarded_must_build:
  assumes "\<And>s. P s \<Longrightarrow> R s"
  shows "guarded P (must_build r) (\<lambda>d s. P s \<and> r = Ok d) R"
  using assms by (cases r) (auto simp: must_build_def intro: guarded_ok guarded_panic)

lemma rolling_one_exit:
  assumes "rolling_one E M N d s"
  shows "rolling E (insert (DeplName d) M) (insert (DeplName d) N) s" and "honest E s"
  using rolling_one_rolling [OF assms] by (auto intro: rolling_honest)

lemma rolling_one_status:
  assumes "\<And>st. conds (f st) = conds st"
  shows "guarded (rolling_one E M N d) (set_status f) (\<lambda>_. rolling_one E M N d) R"
  by (rule guarded_set_status) (simp add: assms rolling_one_def owed_def flagged_def)

text \<open>The end of a rollout: the answer of \<^verbatim>\<open>IsReadyForInput\<close> and the condition set from it.\<close>

lemma confirm_guarded:
  assumes C: "condition_laws (cnd E)" and N: "\<forall>n \<in> N. flag n \<noteq> flag (DeplName d)"
    and h: "carries d h"
  shows "guarded (rolling_one E M N d)
    (andthen (invoke (aBool (cl E)) (IsReadyForInput (DeplName d) (DeplNamespace d) h)) (\<lambda>r.
     case r of
       Inl e \<Rightarrow> ret (NoResult, Some e)
     | Inr ready \<Rightarrow>
         if ready then mark_true E (flag (DeplName d)) m1
         else set_false E (flag (DeplName d)) a b m2 []))
    (\<lambda>_. rolling E (insert (DeplName d) M) (insert (DeplName d) N)) (honest E)"
proof (rule guarded_andthen [OF guarded_confirm [OF h]], intro guarded_sum guarded_if)
  fix r :: "goerror + bool" and ready assume "r = Inr ready" and ready
  then show "guarded (\<lambda>s. if r = Inr True then rolling E (insert (DeplName d) M) N s else rolling_one E M N d s)
      (mark_true E (flag (DeplName d)) m1) (\<lambda>_. rolling E (insert (DeplName d) M) (insert (DeplName d) N))
      (honest E)"
    by simp (rule guarded_post [OF rolling_mark_true [OF C N]], auto intro: rolling_mono)
next
  fix r :: "goerror + bool" and ready assume "r = Inr ready" and "\<not> ready"
  then show "guarded (\<lambda>s. if r = Inr True then rolling E (insert (DeplName d) M) N s else rolling_one E M N d s)
      (set_false E (flag (DeplName d)) a b m2 []) (\<lambda>_. rolling E (insert (DeplName d) M) (insert (DeplName d) N))
      (honest E)"
    by simp (rule guarded_post [OF rolling_one_set_false [OF C]], auto intro: rolling_one_exit)
qed (auto intro!: guarded_ret dest: rolling_one_exit(2))

lemma after_create_guarded:
  assumes C: "condition_laws (cnd E)" and N: "\<forall>n \<in> N. flag n \<noteq> flag (DeplName d)"
    and h: "carries d h" and ds: "DSName ds = DeplName d" "DSNamespace ds = DeplNamespace d"
    and count: "\<And>n st. conds (setCount n st) = conds st"
  shows "guarded (rolling_one E M N d)
    (case err of
       Some e \<Rightarrow>
         andthen (set_false E (flag (DeplName d)) ErrorReason SeverityWarning m3 (err_arg e)) (\<lambda>_.
         ret (r, Some e))
     | None \<Rightarrow>
     if r \<noteq> NoResult then
       andthen (set_false E (flag (DeplName d)) RequestedReason SeverityInfo m2 []) (\<lambda>_. ret (r, None))
     else if DSGeneration ds = DSObservedGeneration ds then
       andthen (set_status (setCount (DSReadyReplicas ds))) (\<lambda>_.
       andthen (invoke (aBool (cl E)) (IsReadyForInput (DSName ds) (DSNamespace ds) h)) (\<lambda>r.
       case r of
         Inl e \<Rightarrow> ret (NoResult, Some e)
       | Inr ready \<Rightarrow>
           if ready then mark_true E (flag (DeplName d)) m1
           else set_false E (flag (DeplName d)) RequestedReason SeverityInfo m2 []))
     else ok ())
    (\<lambda>_. rolling E (insert (DeplName d) M) (insert (DeplName d) N)) (honest E)"
proof -
  have fails: "guarded (rolling_one E M N d) (andthen (set_false E t a v m b) (\<lambda>_. ret x))
      (\<lambda>_. rolling E (insert (DeplName d) M) (insert (DeplName d) N)) (honest E)" for t a v m b x
    by (rule guarded_andthen [OF rolling_one_set_false [OF C]]) (rule guarded_ret, rule rolling_one_exit)
  show ?thesis
    unfolding ds
    by (intro guarded_option guarded_if fails guarded_ok rolling_one_exit(1)
        guarded_andthen [OF rolling_one_status [OF count] confirm_guarded [OF C N h]])
qed

lemma roll_out_guarded:
  assumes C: "condition_laws (cnd E)" and D: "deploy_laws (cl E)"
    and N: "\<forall>n \<in> N. flag n \<noteq> flag nm"
    and build: "\<And>d. deplDef = Ok d \<Longrightarrow> DeplName d = nm \<and> carries d h"
    and count: "\<And>n st. conds (setCount n st) = conds st"
  shows "guarded (rolling E M N) (roll_out E (flag nm) m1 m2 m3 deplDef setCount h)
    (\<lambda>_. rolling E (insert nm M) (insert nm N)) (honest E)"
  unfolding roll_out_def
proof (rule guarded_andthen [OF rolling_set_false [OF C]], rule guarded_andthen [OF guarded_must_build])
  fix d
  show "guarded (\<lambda>s. (rolling E M N s \<and> flagged (flag nm) s) \<and> deplDef = Ok d)
    (andthen (invoke (aDeployment (cl E)) (CreateOrPatchDeployment d 5)) (\<lambda>((r, err), ds).
     case err of
       Some e \<Rightarrow> andthen (set_false E (flag nm) ErrorReason SeverityWarning m3 (err_arg e)) (\<lambda>_.
         ret (r, Some e))
     | None \<Rightarrow>
     if r \<noteq> NoResult then
       andthen (set_false E (flag nm) RequestedReason SeverityInfo m2 []) (\<lambda>_. ret (r, None))
     else if DSGeneration ds = DSObservedGeneration ds then
       andthen (set_status (setCount (DSReadyReplicas ds))) (\<lambda>_.
       andthen (invoke (aBool (cl E)) (IsReadyForInput (DSName ds) (DSNamespace ds) h)) (\<lambda>r.
       case r of
         Inl e \<Rightarrow> ret (NoResult, Some e)
       | Inr ready \<Rightarrow>
           if ready then mark_true E (flag nm) m1
           else set_false E (flag nm) RequestedReason SeverityInfo m2 []))
     else ok ()))
    (\<lambda>_. rolling E (insert nm M) (insert nm N)) (honest E)"
  proof (cases "deplDef = Ok d")
    case True
    then have nm: "nm = DeplName d" and h: "carries d h" using build by auto
    note tail = after_create_guarded [OF C N [unfolded nm] h _ _ count]
    show ?thesis
      unfolding nm
      apply (rule guarded_pre, rule guarded_andthen [OF guarded_create [OF D, where M = M]])
       apply (simp only: split_paired_all prod.case snd_conv)
       apply (rule guarded_assume, elim conjE, rule tail, assumption, assumption)
      apply simp
      done
  qed (simp add: guarded_def)
qed (auto dest: rolling_honest)

section \<open>The API Deployment\<close>

lemma cool_rolling_one:
  assumes "cool late routine s t" and "rolling_one E M N d s"
  shows "rolling_one E M N d t"
proof -
  from assms(1) obtain cs where "trace t = trace s @ cs" "list_all routine cs"
    by (auto simp: cool_def grown_def)
  with assms show ?thesis
    using owed_cong [of t s N] cool_flagged [OF assms(1) flag_late]
    by (auto simp: rolling_one_def cool_def flag_late unreleased_routine pending_routine)
qed

text \<open>A routine statement keeps the state of the rollout.\<close>

lemma routine_guarded:
  assumes "always (calm late routine) m"
  shows "guarded (rolling_one E M N d) m (\<lambda>_. rolling_one E M N d) (honest E)"
  by (rule guarded_frame [OF cool_of_calm [OF assms]])
     (auto intro: cool_rolling_one rolling_one_exit(2))

lemma ready_guarded:
  assumes "carries d h"
  shows "guarded (rolling_one E M N d)
    (if r then andthen (invoke (aBool (cl E)) (IsReadyForInput (DeplName d) (DeplNamespace d) h)) (\<lambda>r.
       case r of Inl e \<Rightarrow> ret (NoResult, Some e) | Inr ready \<Rightarrow> ok ready)
     else ok False)
    (\<lambda>ready s. if ready then rolling E (insert (DeplName d) M) N s else rolling_one E M N d s) (honest E)"
  by (intro guarded_if guarded_ok guarded_andthen [OF guarded_confirm [OF assms]] guarded_sum guarded_ret)
     (auto dest: rolling_one_exit(2))

lemma observe_guarded:
  assumes C: "condition_laws (cnd E)" and h: "carries d h" and d: "DeplName d = ServiceName"
    and ds: "DSName ds = DeplName d" "DSNamespace ds = DeplNamespace d"
  shows "guarded (rolling_one E M {} d) (observe_deployment E ds h)
    (\<lambda>_. rolling E (insert ServiceName M) {ServiceName}) (honest E)"
proof -
  let ?R = "honest E"
  have final: "guarded (\<lambda>s. if ready then rolling E (insert (DeplName d) M) {} s else rolling_one E M {} d s)
      (if ready then mark_true E DeploymentReadyCondition (LibMsg ''DeploymentReadyMessage'')
       else deployment_running E) (\<lambda>_. rolling E (insert ServiceName M) {ServiceName}) ?R" for ready
  proof (cases ready)
    case True
    then show ?thesis
      by simp (rule guarded_post [OF rolling_mark_true [OF C]], auto simp: d intro: rolling_mono)
  next
    case False
    then show ?thesis
      unfolding deployment_running_def
      by simp (rule guarded_post [OF rolling_one_set_false [OF C]], auto dest: rolling_one_exit(1) simp: d)
  qed
  have status: "always (calm late routine) (set_status f)"
    if "\<And>st. tracked (f st) = tracked st" "\<And>st. conds (f st) = conds st" for f
    by (rule calm_status) (simp_all add: that)
  show ?thesis
    unfolding observe_deployment_def ds Let_def
    by (intro guarded_andthen [OF routine_guarded] guarded_andthen [OF ready_guarded [OF h] final]
        guarded_cases guarded_ret calm_rules status C)
       (auto dest: rolling_one_exit(2))
qed

end
