(* ===== verification/RotationSafety.thy ===== *)
theory RotationSafety
  imports Rotation
begin

text \<open>
  The rotation invariant of \<^verbatim>\<open>Rotation\<close> carried through the Deployments and the end of
  \<^verbatim>\<open>reconcileNormal\<close> up to \<^verbatim>\<open>Reconcile\<close>.
\<close>

section \<open>The API Deployment phase\<close>

lemma carries_builders:
  assumes "pod_laws L"
  shows "Deployment L i h ls an t mc w = Ok d \<Longrightarrow> DeplName d = ServiceName \<and> carries d h"
    and "RPCDeployment L i h ls an t mc = Ok d \<Longrightarrow> DeplName d = rpcName \<and> carries d h"
    and "WorkerDeployment L i h ls an t mc = Ok d \<Longrightarrow> DeplName d = workerName \<and> carries d h"
  using api.identity api.runs [OF assms] api.config_hash_in_env [OF assms]
    rpc.identity rpc.runs [OF assms] rpc.config_hash_in_env [OF assms]
    worker.identity worker.runs [OF assms] worker.config_hash_in_env [OF assms]
  by (simp_all add: carries_def list_all_iff rpcName_def workerName_def)

lemma deployment_guarded:
  assumes C: "condition_laws (cnd E)" and D: "deploy_laws (cl E)" and L: "pod_laws (pod E)"
  shows "guarded (\<lambda>s. rolling E M {} s \<and> flagged DeploymentReadyCondition s)
    (deployment_phase E an tp mc h w) (\<lambda>_. rolling E (insert ServiceName M) {ServiceName}) (honest E)"
  unfolding deployment_phase_def
proof (rule guarded_the_inst)
  fix i
  let ?P = "\<lambda>s. (rolling E M {} s \<and> flagged DeploymentReadyCondition s) \<and> inst s = i"
  let ?Q = "\<lambda>_. rolling E (insert ServiceName M) {ServiceName}" and ?R = "honest E"
  let ?d = "Deployment (pod E) i h (serviceLabels E) an tp mc w"
  have failed: "guarded (rolling_one E M {} d) (deployment_failed E r e) ?Q ?R" for d r e
    unfolding deployment_failed_def
    by (rule guarded_andthen [OF rolling_one_set_false [OF C]]) (rule guarded_ret, rule rolling_one_exit)
  have running: "guarded (rolling_one E M {} d) (andthen (deployment_running E) (\<lambda>_. ret x)) ?Q ?R" for d x
    unfolding deployment_running_def
    by (rule guarded_andthen [OF rolling_one_set_false [OF C]]) (rule guarded_ret, rule rolling_one_exit)
  show "guarded ?P
     (case ?d of
        Crash m \<Rightarrow> panic m
      | Fail e \<Rightarrow> deployment_failed E NoResult e
      | Ok deplDef \<Rightarrow>
      andthen (invoke (aDeployment (cl E)) (CreateOrPatchDeployment deplDef 5)) (\<lambda>((ctrlResult, err), deploy).
      case err of
        Some e \<Rightarrow> deployment_failed E ctrlResult e
      | None \<Rightarrow>
      if ctrlResult \<noteq> NoResult then andthen (deployment_running E) (\<lambda>_. ret (ctrlResult, None))
      else if DSGeneration deploy = DSObservedGeneration deploy then observe_deployment E deploy h
      else ok ())) ?Q ?R"
  proof (cases ?d)
    case (Crash m)
    then show ?thesis by (auto intro!: guarded_panic dest: rolling_honest)
  next
    case (Fail e)
    have "guarded ?P (deployment_failed E NoResult e) ?Q ?R"
      unfolding deployment_failed_def
      by (rule guarded_pre, rule guarded_andthen [OF rolling_set_false [OF C]])
         (auto intro!: guarded_ret dest: rolling_honest)
    with Fail show ?thesis by simp
  next
    case (Ok d)
    from carries_builders(1) [OF L Ok] have d: "DeplName d = ServiceName" and h: "carries d h" by auto
    have tail: "guarded (rolling_one E M {} d)
      (case err of
        Some e \<Rightarrow> deployment_failed E r e
      | None \<Rightarrow>
      if r \<noteq> NoResult then andthen (deployment_running E) (\<lambda>_. ret (r, None))
      else if DSGeneration ds = DSObservedGeneration ds then observe_deployment E ds h
      else ok ()) ?Q ?R" if "DSName ds = DeplName d" "DSNamespace ds = DeplNamespace d" for r err ds
      by (intro guarded_cases failed running observe_guarded [OF C h d that] guarded_ok)
         (auto dest: rolling_one_exit(1) simp: d)
    show ?thesis
      unfolding Ok res.case
      apply (rule guarded_pre, rule guarded_andthen [OF guarded_create [OF D, where M = M]])
       apply (simp only: split_paired_all prod.case snd_conv)
       apply (rule guarded_assume, elim conjE, rule tail, assumption, assumption)
      apply (simp add: d flag_names)
      done
  qed
qed

section \<open>From the Deployments to the end\<close>

lemma status_guarded:
  assumes "\<And>st. conds (f st) = conds st"
  shows "guarded (rolling E M N) (set_status f) (\<lambda>_. rolling E M N) R"
  by (rule guarded_set_status) (simp add: assms rolling_def owed_def flagged_def)

lemma cool_guarded:
  assumes "always (cool late routine) m"
  shows "guarded (rolling E M N) m (\<lambda>_. rolling E M N) (honest E)"
  by (rule guarded_frame [OF assms]) (auto intro: cool_rolling dest: rolling_honest)

lemmas other_names = flag_names(4,5) [symmetric]

lemma delete_deployment_guarded:
  assumes "n \<noteq> ServiceName"
  shows "guarded (rolling E M N) (delete_deployment E n) (\<lambda>_. rolling E (insert n M) N) (honest E)"
proof -
  have call: "guarded (rolling E M N) (invoke (aErr (cl E)) (DeleteDeployment n ns))
      (\<lambda>err s. rolling E M N s \<and> (err = None \<or> notFound err \<longrightarrow> rolling E (insert n M) N s)) (honest E)" for ns
    by (rule guarded_invoke) (use assms in \<open>auto simp: rolling_def owed_def flagged_def\<close>)
  show ?thesis
    unfolding delete_deployment_def or_return_def
    by (rule guarded_the_inst, rule guarded_pre, rule guarded_andthen [OF call],
        intro guarded_cases guarded_ret guarded_ok)
       (auto dest: rolling_honest)
qed

lemma guarded_conseq:
  assumes "guarded P m Q R" and "\<And>s. P' s \<Longrightarrow> P s" and "\<And>x s. Q x s \<Longrightarrow> Q' x s"
  shows "guarded P' m Q' R"
  by (rule guarded_pre, rule guarded_post, rule assms(1)) (auto intro: assms(2,3))

lemma rpc_guarded:
  assumes C: "condition_laws (cnd E)" and D: "deploy_laws (cl E)" and L: "pod_laws (pod E)"
  shows "guarded (rolling E {ServiceName} {ServiceName}) (rpc_phase E an tp mc h)
      (\<lambda>_. rolling E {ServiceName, rpcName} {ServiceName, rpcName}) (honest E)"
proof -
  let ?R = "honest E"
  have "guarded (rolling E {ServiceName} {ServiceName})
      (andthen (delete_deployment E rpcName) (\<lambda>_.
       andthen (set_status (\<lambda>st. st\<lparr>RPCReadyCount := 0\<rparr>)) (\<lambda>_.
       mark_true E NeutronRPCReadyCondition NeutronRPCDisabledMessage)))
      (\<lambda>_. rolling E {rpcName, ServiceName} {ServiceName}) ?R"
    by (intro guarded_andthen [OF delete_deployment_guarded] guarded_andthen [OF status_guarded]
        rolling_mark_true C) (simp_all add: flag_names other_names)
  note off = guarded_conseq [OF this]
  have "guarded (rolling E {ServiceName} {ServiceName})
      (roll_out E NeutronRPCReadyCondition m1 m2 m3
         (RPCDeployment (pod E) i h ls an tp mc) (\<lambda>n st. st\<lparr>RPCReadyCount := n\<rparr>) h)
      (\<lambda>_. rolling E (insert rpcName {ServiceName}) (insert rpcName {ServiceName})) ?R" for m1 m2 m3 i ls
    using roll_out_guarded [OF C D, where N = "{ServiceName}" and M = "{ServiceName}" and nm = rpcName] carries_builders(2) [OF L]
    by (simp add: flag_names)
  note on = guarded_conseq [OF this]
  show ?thesis
    unfolding rpc_phase_def
    by (intro guarded_the_inst guarded_if on off) (auto intro: rolling_mono simp: insert_commute)
qed

lemma worker_guarded:
  assumes C: "condition_laws (cnd E)" and D: "deploy_laws (cl E)" and L: "pod_laws (pod E)"
  shows "guarded (rolling E {ServiceName, rpcName} {ServiceName, rpcName}) (worker_phase E an tp mc h)
      (\<lambda>_. rolling E all_deployments all_deployments) (honest E)"
proof -
  have "guarded (rolling E {ServiceName, rpcName} {ServiceName, rpcName})
      (roll_out E NeutronWorkerReadyCondition m1 m2 m3
         (WorkerDeployment (pod E) i h ls an tp mc) (\<lambda>n st. st\<lparr>WorkerReadyCount := n\<rparr>) h)
      (\<lambda>_. rolling E (insert workerName {ServiceName, rpcName}) (insert workerName {ServiceName, rpcName})) (honest E)"
    for m1 m2 m3 i ls
    using roll_out_guarded [OF C D, where N = "{ServiceName, rpcName}" and M = "{ServiceName, rpcName}" and nm = workerName] carries_builders(3) [OF L]
    by (simp add: flag_names)
  note on = guarded_conseq [OF this]
  show ?thesis
    unfolding worker_phase_def
    by (intro guarded_the_inst on) (auto simp: insert_commute)
qed

lemma eventlet_guarded:
  assumes C: "condition_laws (cnd E)"
  shows "guarded (rolling E {ServiceName} {ServiceName}) (eventlet_phase E)
      (\<lambda>_. rolling E all_deployments all_deployments) (honest E)"
proof -
  let ?P = "rolling E {workerName, rpcName, ServiceName} {ServiceName}"
  have drop: "guarded ?P (remove_cond E t) (\<lambda>_. ?P) (honest E)" if "t \<noteq> DeploymentReadyCondition" for t
    by (rule guarded_remove_cond [OF C])
       (use that in \<open>auto simp: rolling_def owed_def flagged_def flag_names\<close>)
  have delete: "guarded (rolling E {ServiceName} {ServiceName})
      (foreach (delete_deployment E) [rpcName, workerName]) (\<lambda>_. ?P) (honest E)"
    unfolding foreach.simps
    by (intro guarded_andthen [OF delete_deployment_guarded] guarded_ok)
       (simp_all add: other_names)
  have "guarded (rolling E {ServiceName} {ServiceName}) (eventlet_phase E) (\<lambda>_. ?P) (honest E)"
    unfolding eventlet_phase_def
    by (intro guarded_andthen [OF delete] guarded_andthen [OF status_guarded] guarded_andthen [OF drop] drop)
       simp_all
  then show ?thesis by (rule guarded_conseq) (auto elim!: rolling_mono)
qed

lemma workers_guarded:
  assumes C: "condition_laws (cnd E)" and D: "deploy_laws (cl E)" and L: "pod_laws (pod E)"
  shows "guarded (rolling E {ServiceName} {ServiceName}) (workers_phase E an tp mc h w)
    (\<lambda>_. rolling E all_deployments all_deployments) (honest E)"
  unfolding workers_phase_def
  by (intro guarded_if guarded_andthen [OF rpc_guarded] worker_guarded eventlet_guarded assms)

section \<open>The end of reconcileNormal\<close>

text \<open>
  Once the guard has been read, a release needs it; \<open>freed\<close> is what holds then.
\<close>

definition freed :: "ext \<Rightarrow> bool \<Rightarrow> rstate \<Rightarrow> bool" where
  "freed E g s \<longleftrightarrow> honest E s \<and> deployed E all_deployments (trace s) \<and> (g \<longrightarrow> cleared E (trace s))"

lemma rolling_deployed: "rolling E M N s \<Longrightarrow> deployed E M (trace s)"
  by (simp add: rolling_def)

lemma guard_clears:
  assumes C: "condition_laws (cnd E)" and s: "rolling E all_deployments N s"
    and g: "CredentialRotationGuardReady (cnd E) b (conds (st_of s))"
  shows "cleared E (trace s)"
proof -
  have "pending E (trace s) = []"
  proof (rule ccontr)
    assume "pending E (trace s) \<noteq> []"
    then obtain d where "d \<in> set (pending E (trace s))" by (meson last_in_set)
    with s have "flagged (flag (DeplName d)) s" by (simp add: rolling_def owed_def)
    then show False
      using AllSub_status [OF C Guard_AllSub [OF C g] flag_names(7)] by (auto simp: flagged_def)
  qed
  with s show ?thesis by (simp add: cleared_def rolling_def)
qed

text \<open>Calls that are no Deployment calls keep \<open>freed\<close>, if a releasing one is made under the guard.\<close>

fun deployment_call :: "call \<Rightarrow> bool" where
  "deployment_call (CreateOrPatchDeployment d n) = True"
| "deployment_call (DeleteDeployment n ns) = True"
| "deployment_call (IsReadyForInput n ns h) = True"
| "deployment_call c = False"

lemma pending_other: "\<not> deployment_call c \<Longrightarrow> pending_step E cs c ds = ds"
  and rolls_out_other: "\<not> deployment_call c \<Longrightarrow> \<not> rolls_out c"
  by (cases c; simp)+

lemma cleared_other: "\<not> deployment_call c \<Longrightarrow> cleared E cs \<Longrightarrow> cleared E (cs @ [c])"
  by (auto simp: cleared_def pending_other simp del: deployed_insert)

lemma freed_invoke:
  assumes "\<not> deployment_call c" and "releases c \<Longrightarrow> g"
  shows "guarded (freed E g) (invoke f c) (\<lambda>_. freed E g) R"
  by (rule guarded_invoke)
     (use assms cleared_other in \<open>auto simp: freed_def honest_def pending_other rolls_out_other cleared_def
        owed_def flagged_def simp del: deployed_insert\<close>)

lemma freed_status:
  assumes "\<And>st. conds (f st) = conds st"
  shows "guarded (freed E g) (set_status f) (\<lambda>_. freed E g) R"
  by (rule guarded_set_status) (simp add: assms freed_def honest_def owed_def flagged_def)

lemma freed_exit: "freed E g s \<Longrightarrow> honest E s"
  by (simp add: freed_def)

lemma freed_or_return: "guarded (freed E g) (or_return e) (\<lambda>_. freed E g) (freed E g)"
  unfolding or_return_def
  by (intro guarded_cases guarded_ret guarded_ok) auto

lemma freed_the_inst:
  "(\<And>i. guarded (freed E g) (f i) Q R) \<Longrightarrow> guarded (freed E g) (andthen the_inst f) Q R"
  by (rule guarded_the_inst) (auto intro: guarded_pre)

lemma freed_rotation:
  "guarded (freed E g) (finalize_rotation E old cur f g) (\<lambda>_. freed E g) (freed E g)"
  unfolding finalize_rotation_def
  by (intro freed_the_inst guarded_andthen [OF freed_invoke] guarded_cases guarded_ret guarded_ok)
     auto

lemma freed_delete_url:
  assumes g
  shows "guarded (freed E g) (fcall (transportURLDeleted E n)) (\<lambda>_. freed E g) (freed E g)"
proof -
  have "guarded (freed E g) (transportURLDeleted E n) (\<lambda>_. freed E g) (freed E g)"
    unfolding transportURLDeleted_def
    by (intro freed_the_inst guarded_andthen [OF freed_invoke] guarded_cases guarded_ret)
       (use assms in auto)
  from guarded_fcall [OF this] show ?thesis .
qed

lemma freed_rotate:
  "guarded (freed E g) (rotate_transport E c g) (\<lambda>_. freed E g) (freed E g)"
  "guarded (freed E g) (rotate_credential E g) (\<lambda>_. freed E g) (freed E g)"
  unfolding rotate_transport_def rotate_credential_def
  by (intro freed_the_inst guarded_andthen [OF freed_rotation] freed_status; simp)+

lemma freed_notifications:
  "guarded (freed E g) (rotate_notifications E n g) (\<lambda>_. freed E g) (freed E g)"
  unfolding rotate_notifications_def
  by (intro freed_the_inst guarded_cases guarded_andthen [OF freed_rotation] freed_status guarded_ok
      guarded_andthen [OF freed_invoke] guarded_andthen [OF freed_or_return]
      guarded_andthen [OF freed_delete_url]) auto

lemma freed_prune:
  "guarded (freed E g) (prune_phase E c n) (\<lambda>_. freed E g) (freed E g)"
  unfolding prune_phase_def
  by (intro freed_the_inst guarded_andthen [OF freed_invoke] guarded_andthen [OF freed_or_return]
      freed_or_return) auto

lemma freed_ready:
  assumes C: "condition_laws (cnd E)"
  shows "guarded (freed E g) (ready_phase E) (\<lambda>_. freed E g) (freed E g)"
proof -
  have "guarded (freed E g) (mark_true E ReadyCondition m) (\<lambda>_. freed E g) R" for m R
    by (rule guarded_mark_true [OF C])
       (simp add: freed_def honest_def owed_def flagged_def flag_names)
  then show ?thesis
    unfolding ready_phase_def
    by (intro freed_the_inst guarded_andthen [where Q = "\<lambda>_. freed E g"] guarded_cases guarded_ret guarded_ok)
       auto
qed

lemma accounts_calm: "always (calm late routine) (accounts_phase E)"
  unfolding accounts_phase_def by (intro calm_rules; simp)

text \<open>The end of the reconcile after the guard \<open>g\<close> was read.\<close>

lemma freed_finish:
  assumes "condition_laws (cnd E)"
  shows "guarded (freed E g)
    (andthen (rotate_transport E c g) (\<lambda>_.
     andthen (rotate_notifications E n g) (\<lambda>_.
     andthen (rotate_credential E g) (\<lambda>_.
     andthen (prune_phase E c n) (\<lambda>_.
     ready_phase E))))) (\<lambda>_. freed E g) (freed E g)"
  by (intro guarded_andthen [OF freed_rotate(1)] guarded_andthen [OF freed_notifications]
      guarded_andthen [OF freed_rotate(2)] guarded_andthen [OF freed_prune] freed_ready assms)

lemma guard_guarded:
  assumes "condition_laws (cnd E)"
  shows "guarded (rolling E all_deployments N) (guard_ready E) (\<lambda>g. freed E g) R"
  unfolding guard_ready_def
  by (rule guarded_reads)
     (auto simp: freed_def simp del: deployed_insert dest: rolling_honest rolling_deployed guard_clears [OF assms])

lemma conclude_guarded:
  assumes C: "condition_laws (cnd E)"
  shows "guarded (rolling E all_deployments N) (conclude E c n) (\<lambda>_. honest E) (honest E)"
  unfolding conclude_def
  by (intro guarded_andthen [OF cool_guarded [OF cool_of_calm [OF accounts_calm]]]
      guarded_andthen [OF guard_guarded [OF C]] guarded_post [OF freed_finish [OF C]])
     (auto dest: freed_exit)

section \<open>reconcileNormal\<close>

text \<open>What the operator relies on: \<^verbatim>\<open>ReconcileRbac\<close> reports the conditions of its own three types.\<close>

definition rbac_laws :: "cluster \<Rightarrow> bool" where
  "rbac_laws c \<longleftrightarrow> (\<forall>cs. CondType ` set (fst (aRbac c cs)) \<subseteq> rbac_types)"

definition rbac_present :: "NeutronAPI \<Rightarrow> bool" where
  "rbac_present i \<longleftrightarrow> StatusConditions (Status i) \<noteq> None \<and>
     (\<forall>t \<in> rbac_types. status_of (conds (Status i)) t \<noteq> None)"

lemma RbacConditionsSet_keeps:
  assumes "condition_laws C" and "CondType c \<in> rbac_types" and "rbac_present i"
  shows "rbac_present (RbacConditionsSet C i c)"
    and "t \<notin> rbac_types \<Longrightarrow>
      status_of (conds (Status (RbacConditionsSet C i c))) t = status_of (conds (Status i)) t"
  using assms
  by (auto simp: rbac_present_def RbacConditionsSet_def conds_def status_of_SetOnCopy)

lemma RbacConditionsSet_fold:
  assumes "condition_laws C" and "CondType ` set cs \<subseteq> rbac_types" and "rbac_present i"
    and "t \<notin> rbac_types"
  shows "status_of (conds (Status (foldl (RbacConditionsSet C) i cs))) t = status_of (conds (Status i)) t"
  using assms(2,3)
proof (induction cs arbitrary: i)
  case (Cons c cs)
  then have c: "CondType c \<in> rbac_types" by simp
  show ?case
    using Cons.IH [of "RbacConditionsSet C i c"] Cons.prems
      RbacConditionsSet_keeps [OF assms(1) c Cons.prems(2)] assms(4) by simp
qed simp

text \<open>The state a reconcile starts its work in.\<close>

definition started :: "ext \<Rightarrow> rstate \<Rightarrow> bool" where
  "started E s \<longleftrightarrow> rolling E {} {} s \<and> flagged DeploymentReadyCondition s"

lemma started_exit: "started E s \<Longrightarrow> honest E s"
  by (auto simp: started_def dest: rolling_honest)

lemma started_cool:
  assumes "always (cool late routine) m"
  shows "guarded (started E) m (\<lambda>_. started E) (honest E)"
  by (rule guarded_frame [OF assms])
     (auto simp: started_def cool_flagged intro: cool_rolling dest: rolling_honest)

lemma rbac_guarded:
  assumes C: "condition_laws (cnd E)" and B: "rbac_laws (cl E)"
  shows "guarded (\<lambda>s. started E s \<and> rbac_present (inst s)) (rbac_phase E) (\<lambda>_. started E)
    (honest E)"
proof -
  have call: "guarded (\<lambda>s. started E s \<and> rbac_present (inst s)) (invoke (aRbac (cl E)) (ReconcileRbac a b c))
      (\<lambda>x s. (started E s \<and> rbac_present (inst s)) \<and> CondType ` set (fst x) \<subseteq> rbac_types)
      (honest E)" for a b c
    by (rule guarded_invoke)
       (use B in \<open>auto simp: started_def rolling_def owed_def flagged_def rbac_laws_def\<close>)
  have fold: "guarded (\<lambda>s. started E s \<and> rbac_present (inst s))
      (update (\<lambda>s. s\<lparr>inst := foldl (RbacConditionsSet (cnd E)) (inst s) cs\<rparr>)) (\<lambda>_. started E)
      (honest E)" if cs: "CondType ` set cs \<subseteq> rbac_types" for cs
  proof (rule guarded_update)
    fix s assume s: "started E s \<and> rbac_present (inst s)"
    let ?s = "s\<lparr>inst := foldl (RbacConditionsSet (cnd E)) (inst s) cs\<rparr>"
    have "cond_status ?s t = cond_status s t" if "t \<notin> rbac_types" for t
      using RbacConditionsSet_fold [OF C cs] s that by simp
    moreover have "flag n \<notin> rbac_types" "DeploymentReadyCondition \<notin> rbac_types" for n
      by (simp_all add: flag_def rbac_types_def)
    ultimately show "started E ?s"
      using s owed_cong [of ?s s "{}"] by (simp add: started_def rolling_def flagged_def)
  qed
  show ?thesis
    unfolding rbac_phase_def
    apply (rule guarded_the_inst, rule guarded_pre, rule guarded_andthen [OF call])
     apply (simp only: split_paired_all prod.case fst_conv)
     apply (rule guarded_assume, rule guarded_andthen [OF fold], assumption)
     apply (rule started_cool [OF cool_of_calm [OF calm_basic(3)]])
    apply simp
    done
qed

lemma deploy_guarded:
  assumes C: "condition_laws (cnd E)" and D: "deploy_laws (cl E)" and L: "pod_laws (pod E)"
  shows "guarded (started E) (deploy E mc an)
    (\<lambda>_. rolling E all_deployments all_deployments) (honest E)"
proof -
  have wsgi: "always (calm late routine) (fcall (IsWSGIEffective E ls an))" for ls
    by (intro calm.frame_fcall calm_IsWSGIEffective) simp_all
  have depl: "guarded (started E) (deployment_phase E an tp mc h w)
      (\<lambda>_. rolling E {ServiceName} {ServiceName}) (honest E)" for tp h w
    by (rule guarded_pre [OF deployment_guarded [OF C D L]]) (simp add: started_def)
  show ?thesis
    unfolding deploy_def
    by (intro guarded_andthen [OF started_cool] guarded_andthen [OF depl] workers_guarded
        calm_init_phases [THEN cool_of_calm] wsgi [THEN cool_of_calm] assms)
qed

lemma prepare_guarded:
  assumes C: "condition_laws (cnd E)" and B: "rbac_laws (cl E)"
  shows "guarded (\<lambda>s. started E s \<and> rbac_present (inst s)) (prepare E) (\<lambda>_. started E) (honest E)"
  unfolding prepare_def
  by (rule guarded_andthen [OF rbac_guarded [OF C B]]) (rule started_cool [OF cool_prepare_rest [OF C]])

lemma reconcileNormal_guarded:
  assumes C: "condition_laws (cnd E)" and D: "deploy_laws (cl E)" and L: "pod_laws (pod E)"
    and B: "rbac_laws (cl E)"
  shows "guarded (\<lambda>s. started E s \<and> rbac_present (inst s)) (reconcileNormal E) (\<lambda>_. honest E) (honest E)"
  unfolding reconcileNormal_def
  by (rule guarded_andthen [OF prepare_guarded [OF C B]])
     (auto intro!: guarded_andthen [OF deploy_guarded [OF C D L]] conclude_guarded [OF C]
       split: prod.split)

section \<open>Reconcile\<close>

lemma status_of_unknowns:
  assumes "condition_laws C"
  shows "t \<in> fst ` set l \<Longrightarrow>
    status_of (map (\<lambda>(t, m). UnknownCondition C t r m) l) t = Some CondUnknown"
  by (induction l) (auto simp: status_of_def get_cond_def condition_simps [OF assms])

lemma types_of_unknowns:
  assumes "condition_laws C"
  shows "map CondType (map (\<lambda>(t, m). UnknownCondition C t r m) l) = map fst l"
  by (induction l) (auto simp: condition_simps [OF assms])

lemma init_messages_distinct: "distinct (map fst init_messages)"
  by (simp add: init_messages_def)

lemma init_conditions_unknown:
  assumes C: "condition_laws (cnd E)" and t: "t \<in> fst ` set init_messages"
  shows "status_of (CInit (cnd E) cs (init_conditions E)) t = Some CondUnknown"
  unfolding init_conditions_def
  by (rule status_of_Init [OF C distinct_CreateList [OF C]])
     (simp_all only: types_of_unknowns [OF C] init_messages_distinct status_of_CreateList [OF C]
        status_of_unknowns [OF C t])

lemma init_types:
  "DeploymentReadyCondition \<in> fst ` set init_messages" "rbac_types \<subseteq> fst ` set init_messages"
  "ReadyCondition \<in> fst ` set init_messages"
  by (simp_all add: init_messages_def rbac_types_def)

text \<open>Before the conditions are initialised: nothing is pending, and the object is not being deleted.\<close>

definition fetched :: "ext \<Rightarrow> rstate \<Rightarrow> bool" where
  "fetched E s \<longleftrightarrow> unreleased (trace s) \<and> pending E (trace s) = [] \<and> DeletionTimestamp (inst s) = None"

definition ready_to_work :: "ext \<Rightarrow> rstate \<Rightarrow> bool" where
  "ready_to_work E s \<longleftrightarrow> fetched E s \<and> started E s \<and> rbac_present (inst s)"

lemma guarded_live_inst:
  assumes live: "\<And>s. P s \<Longrightarrow> DeletionTimestamp (inst s) = None"
    and g: "\<And>i. DeletionTimestamp i = None \<Longrightarrow> guarded P (g i) Q R"
  shows "guarded P (andthen the_inst g) Q R"
proof (rule guarded_the_inst)
  fix i
  show "guarded (\<lambda>s. P s \<and> inst s = i) (g i) Q R"
  proof (cases "DeletionTimestamp i = None")
    case True
    show ?thesis by (rule guarded_pre [OF g [OF True]]) simp
  next
    case False
    then show ?thesis using live by (auto simp: guarded_def)
  qed
qed

text \<open>
  The body of \<^verbatim>\<open>Reconcile\<close> for a resource that is not being deleted: an invariant that the
  bookkeeping statements keep carries to \<^verbatim>\<open>reconcileNormal\<close>.
\<close>

lemma live_body_guarded:
  assumes init: "guarded P0 (on_conds (\<lambda>cs. CInit (cnd E) cs (init_conditions E)) :: unit reconcile)
      (\<lambda>_. P) R"
    and status: "\<And>f. (\<And>st. StatusConditions (f st) = StatusConditions st) \<Longrightarrow>
      (\<And>st. tracked (f st) = tracked st) \<Longrightarrow>
      guarded P (set_status f :: unit reconcile) (\<lambda>_. P) R"
    and fin: "\<And>fs. guarded P (set_finalizers fs :: unit reconcile) (\<lambda>_. P) R"
    and live: "\<And>s. P s \<Longrightarrow> DeletionTimestamp (inst s) = None"
    and exit: "\<And>s. P s \<Longrightarrow> R s"
    and normal: "guarded P (reconcileNormal E) (\<lambda>_. R) R"
  shows "guarded P0 (reconcile_body E isNew) (\<lambda>_. R) R"
proof -
  note any = guarded_live_inst [of P, OF live]
  have first: "guarded P (first_pass E isNew) (\<lambda>_. P) R"
    unfolding first_pass_def by (intro any guarded_cases guarded_andthen [OF fin] guarded_ok)
  show ?thesis
    unfolding reconcile_body_def
    by (intro guarded_andthen [OF init] any guarded_andthen [OF status] guarded_andthen [OF first]
        guarded_if guarded_ret normal) (auto simp: tracked_def intro: exit)
qed

lemma work_status:
  assumes "\<And>st. StatusConditions (f st) = StatusConditions st"
  shows "guarded (ready_to_work E) (set_status f) (\<lambda>_. ready_to_work E) R"
  unfolding set_status_def
  by (rule guarded_update)
     (simp add: ready_to_work_def fetched_def started_def rolling_def owed_def flagged_def
        rbac_present_def conds_def assms)

lemma work_exit: "ready_to_work E s \<Longrightarrow> honest E s"
  by (simp add: ready_to_work_def started_exit)

lemma work_finalizers: "guarded (ready_to_work E) (set_finalizers fs) (\<lambda>_. ready_to_work E) R"
  unfolding set_finalizers_def
  by (rule guarded_update)
     (simp add: ready_to_work_def fetched_def started_def rolling_def owed_def flagged_def
        rbac_present_def)

lemma init_guarded:
  assumes C: "condition_laws (cnd E)"
  shows "guarded (fetched E) (on_conds (\<lambda>cs. CInit (cnd E) cs (init_conditions E)))
    (\<lambda>_. ready_to_work E) R"
  unfolding on_conds_def set_status_def
proof (rule guarded_update)
  fix s assume s: "fetched E s"
  note unknown = init_conditions_unknown [OF C]
  show "ready_to_work E (s\<lparr>inst := (inst s)\<lparr>Status := (st_of s)\<lparr>StatusConditions :=
      Some (CInit (cnd E) (conds (st_of s)) (init_conditions E))\<rparr>\<rparr>\<rparr>)"
    using s unknown [OF init_types(1)] unknown [OF subsetD [OF init_types(2)]]
    by (simp add: ready_to_work_def fetched_def started_def rolling_def owed_def flagged_def
        rbac_present_def)
qed

lemma reconcile_body_guarded:
  assumes C: "condition_laws (cnd E)" and D: "deploy_laws (cl E)" and L: "pod_laws (pod E)"
    and B: "rbac_laws (cl E)"
  shows "guarded (fetched E) (reconcile_body E isNew) (\<lambda>_. honest E) (honest E)"
proof (rule live_body_guarded [OF init_guarded [OF C]])
  show "guarded (ready_to_work E) (reconcileNormal E) (\<lambda>_. honest E) (honest E)"
    by (rule guarded_pre [OF reconcileNormal_guarded [OF C D L B]]) (simp add: ready_to_work_def)
qed (auto intro: work_status work_finalizers work_exit simp: ready_to_work_def fetched_def)

text \<open>The deferred function changes no condition but Ready, and calls only the patch.\<close>

lemma deferred_guarded:
  assumes C: "condition_laws (cnd E)"
  shows "guarded (honest E) (deferred E saved a) (\<lambda>_. honest E) (honest E)"
proof -
  have keep: "honest E s'" if "honest E s" "trace s' = trace s"
      "\<And>t. t \<noteq> ReadyCondition \<Longrightarrow> cond_status s' t = cond_status s t" for s s'
    using that flag_names(7) by (simp add: honest_def owed_def flagged_def)
  have restore: "guarded (honest E) (on_conds (\<lambda>cs. RestoreLastTransitionTimes (cnd E) cs saved))
      (\<lambda>_. honest E) (honest E)"
    unfolding on_conds_def
    by (rule guarded_set_status) (erule keep; simp add: condition_simps [OF C])
  have mirror: "guarded (honest E)
      (case CMirror (cnd E) cs ReadyCondition of None \<Rightarrow> ok () | Some c \<Rightarrow> set_cond E c)
      (\<lambda>_. honest E) (honest E)" for cs
    unfolding set_cond_def on_conds_def
    by (intro guarded_option guarded_ok guarded_set_status)
       (auto elim!: keep simp: condition_simps [OF C] dest: Mirror_type [OF C])
  have inst: "(\<And>i. guarded (honest E) (f i) Q (honest E)) \<Longrightarrow>
      guarded (honest E) (andthen the_inst f) Q (honest E)" for f and Q :: "'a \<Rightarrow> _"
    by (rule guarded_the_inst) (auto intro: guarded_pre)
  have patch: "guarded (honest E) (invoke g (PatchInstance i)) (\<lambda>_. honest E) (honest E)"
    for g :: "call list \<Rightarrow> goerror option" and i
    by (rule guarded_invoke) (simp add: honest_def owed_def flagged_def)
  show ?thesis
    unfolding deferred_def
    by (intro guarded_andthen [OF restore] inst guarded_andthen [OF patch] guarded_cases mirror
        guarded_andthen [where Q = "\<lambda>_. honest E"] guarded_ok guarded_ret)
qed

text \<open>
  The entry point: what the body and the deferred function establish, \<open>Reconcile\<close>
  establishes; \<open>entered\<close> is the state the body starts in.
\<close>

definition entered :: "string \<Rightarrow> string \<Rightarrow> NeutronAPI \<Rightarrow> rstate \<Rightarrow> bool" where
  "entered name ns i s \<longleftrightarrow> trace s = [GetNeutronAPI name ns, NewHelper] \<and>
     inst s = i\<lparr>Status := (Status i)\<lparr>StatusConditions := Some (conds (Status i))\<rparr>\<rparr>"

lemma Reconcile_guarded:
  assumes body: "\<And>i isNew. aInstance (cl E) [GetNeutronAPI name ns] = Inr i \<Longrightarrow>
      guarded (entered name ns i) (reconcile_body E isNew) (\<lambda>_. R) R"
    and final: "\<And>saved a. guarded R (deferred E saved a) (\<lambda>_. R') R'"
    and early: "\<And>s. set (trace s) \<subseteq> {GetNeutronAPI name ns, NewHelper} \<Longrightarrow>
      length (trace s) \<le> 2 \<Longrightarrow> R' s"
    and weak: "\<And>s. R s \<Longrightarrow> R' s"
  shows "guarded (\<lambda>s. trace s = []) (Reconcile E name ns) (\<lambda>_. R') R'"
proof -
  let ?g = "GetNeutronAPI name ns"
  let ?P = "\<lambda>s. trace s = [?g]"
  have get: "guarded (\<lambda>s. trace s = []) (invoke (aInstance (cl E)) ?g)
      (\<lambda>r s. ?P s \<and> r = aInstance (cl E) [?g]) R'"
    by (rule guarded_invoke) simp
  have rest: "guarded ?P
     (andthen (update (\<lambda>s. s\<lparr>inst := i\<rparr>)) (\<lambda>_.
      andthen (invoke (aErr (cl E)) NewHelper) (\<lambda>err.
      andthen (or_return err) (\<lambda>_.
      andthen (if StatusConditions (Status i) = None
               then set_status (\<lambda>st. st\<lparr>StatusConditions := Some []\<rparr>) else ok ()) (\<lambda>_.
      with_deferred E (conds (Status i)) (reconcile_body E (StatusConditions (Status i) = None)))))))
     (\<lambda>_. R') R'" if i: "aInstance (cl E) [?g] = Inr i" for i
  proof -
    let ?I = "\<lambda>s. trace s = [?g, NewHelper] \<and> inst s = i"
    have 1: "guarded ?P (update (\<lambda>s. s\<lparr>inst := i\<rparr>)) (\<lambda>_ s. ?P s \<and> inst s = i) R'"
      by (rule guarded_update) simp
    have 2: "guarded (\<lambda>s. ?P s \<and> inst s = i) (invoke (aErr (cl E)) NewHelper) (\<lambda>_. ?I) R'"
      by (rule guarded_invoke) simp
    have 3: "guarded ?I (or_return err) (\<lambda>_. ?I) R'" for err
      unfolding or_return_def by (intro guarded_cases guarded_ret guarded_ok) (auto intro: early)
    have 4: "guarded ?I (if StatusConditions (Status i) = None
        then set_status (\<lambda>st. st\<lparr>StatusConditions := Some []\<rparr>) else ok ()) (\<lambda>_. entered name ns i) R'"
      unfolding set_status_def
      by (intro guarded_if guarded_update guarded_ok) (auto simp: entered_def conds_def)
    show ?thesis
      unfolding with_deferred_def
      by (intro guarded_andthen [OF 1] guarded_andthen [OF 2] guarded_andthen [OF 3]
          guarded_andthen [OF 4] final guarded_andthen
            [OF guarded_post [OF guarded_fcall [OF body [OF i]], where Q' = "\<lambda>_. R"]])
         (auto intro: weak)
  qed
  have exit: "guarded ?P (ret x) (\<lambda>_. R') R'" for x
    by (rule guarded_ret) (auto intro: early)
  show ?thesis
    unfolding Reconcile_def
    by (rule guarded_andthen [OF get], rule guarded_assume)
       (intro guarded_cases exit rest; simp)
qed

lemma calls_before_work:
  assumes "set cs \<subseteq> {GetNeutronAPI name ns, NewHelper}"
  shows "unreleased cs" and "pending E cs = []"
proof -
  have r: "list_all routine cs" using assms by (auto simp: list_all_iff)
  show "unreleased cs" and "pending E cs = []"
    using unreleased_routine [OF r] pending_routine [OF r, of E "[]"]
    by (simp_all add: pending_def)
qed

lemma Reconcile_honest:
  assumes C: "condition_laws (cnd E)" and D: "deploy_laws (cl E)" and L: "pod_laws (pod E)"
    and B: "rbac_laws (cl E)"
    and live: "\<And>i. aInstance (cl E) [GetNeutronAPI name ns] = Inr i \<Longrightarrow> DeletionTimestamp i = None"
  shows "guarded (\<lambda>s. trace s = []) (Reconcile E name ns) (\<lambda>_. honest E) (honest E)"
proof (rule Reconcile_guarded)
  fix i isNew assume i: "aInstance (cl E) [GetNeutronAPI name ns] = Inr i"
  show "guarded (entered name ns i) (reconcile_body E isNew) (\<lambda>_. honest E) (honest E)"
    by (rule guarded_pre [OF reconcile_body_guarded [OF C D L B]])
       (auto simp: entered_def fetched_def live [OF i] calls_before_work [of _ name ns])
qed (auto simp: honest_def owed_def calls_before_work [of _ name ns] intro: deferred_guarded [OF C] unreleased_safe)

section \<open>A live cluster\<close>

text \<open>
  The parameters instantiated: a resource that tracks an old transport URL Secret, on a
  cluster where everything is in place.
\<close>

definition live_api :: NeutronAPI where
  "live_api = blank_api\<lparr>Finalizers := [''openstack.org/neutronapi''],
     Status := blank_status\<lparr>StatusConditions := Some [], TransportURLSecret := ''old''\<rparr>\<rparr>"

definition live_cluster :: cluster where
  "live_cluster = plain_cluster\<lparr>aInstance := \<lambda>_. Inr live_api,
     aKeystone := \<lambda>_. ((NoResult, None), [list_true ReadyCondition (Text [])]),
     aString := (\<lambda>cs. case last cs of
        FinalizeSecretRotation ns old cur f g \<Rightarrow> Inr (if g \<or> old = [] then cur else old)
      | _ \<Rightarrow> Inr []),
     aRbac := \<lambda>_. (map (\<lambda>t. list_true t (Text []))
       [ServiceAccountReadyCondition, RoleReadyCondition, RoleBindingReadyCondition], NoResult, None)\<rparr>"

lemma live_cluster_laws:
  "deploy_laws live_cluster" "rbac_laws live_cluster"
  "aInstance live_cluster cs = Inr i \<Longrightarrow> DeletionTimestamp i = None"
  by (auto simp: live_cluster_def plain_cluster_def deploy_laws_def rbac_laws_def rbac_types_def
      list_true_def live_api_def blank_api_def)

text \<open>
  C1. No credential is released early: in every reconcile of a resource that is not being
  deleted, whatever the cluster answers and however the reconcile ends, before a call that
  releases a Secret (a rotation finalised with the guard set, a consumer finalizer removed,
  the notifications TransportURL deleted) all three Deployments have been dealt with in this
  reconcile, the API one written and the rpc and worker ones written or, with success or not
  found, deleted, and each one written has been confirmed by the cluster to be fully rolled out
  with the configuration hash it carries. Pruning stale consumer finalizers is not held back by the rotation guard, but it
  too comes only after all three Deployments have been dealt with. After either no Deployment
  is touched again.
\<close>

theorem no_early_release:
  assumes C: "condition_laws (cnd E)" and D: "deploy_laws (cl E)" and L: "pod_laws (pod E)"
    and B: "rbac_laws (cl E)"
    and live: "\<And>i. aInstance (cl E) [GetNeutronAPI name ns] = Inr i \<Longrightarrow> DeletionTimestamp i = None"
    and start: "trace s = []"
  shows "safe E (trace (snd (Reconcile E name ns s)))"
  using guarded_final [OF Reconcile_honest [OF C D L B live] start] by (simp add: honest_def)

theorem no_early_release_witness:
  "safe (plain_ext live_cluster)
     (trace (snd (Reconcile (plain_ext live_cluster) ''neutron'' ''openstack'' fresh_state)))"
  by (rule no_early_release)
     (simp_all add: list_conditions_laws plain_pod_laws live_cluster_laws fresh_fields)

end
