(* ===== verification/Readiness.thy ===== *)
theory Readiness
  imports RotationSafety
begin

text \<open>
  The Ready condition of the patched resource: it is True only when every other condition is,
  and when the rollout of every Deployment written in the reconcile is confirmed. The instance
  is patched once, at the end.
\<close>

section \<open>What the phases leave alone\<close>

fun unpatched :: "call \<Rightarrow> bool" where
  "unpatched (PatchInstance i) = False"
| "unpatched c = True"

text \<open>After the RBAC step only the last phase touches Ready, and none the RBAC objects.\<close>

definition reserved :: "ctype set" where
  "reserved = insert ReadyCondition rbac_types"

fun plain :: "call \<Rightarrow> bool" where
  "plain (PatchInstance i) = False"
| "plain (ReconcileRbac n ns rules) = False"
| "plain c = True"

lemma plain_unpatched: "plain c \<Longrightarrow> unpatched c"
  by (cases c) simp_all

lemma plain_routine: "routine c \<Longrightarrow> plain c"
  by (cases c) simp_all

lemma reserved_simps [simp]:
  "ReadyCondition \<in> reserved" "DeploymentReadyCondition \<notin> reserved" "NeutronRPCReadyCondition \<notin> reserved"
  "NeutronWorkerReadyCondition \<notin> reserved" "NetworkAttachmentsReadyCondition \<notin> reserved"
  by (simp_all add: reserved_def rbac_types_def)

abbreviation untouched :: "rstate \<Rightarrow> rstate \<Rightarrow> bool" where
  "untouched \<equiv> cool reserved plain"

lemma untouched_cool: "always (cool late routine) m \<Longrightarrow> always untouched m"
  by (erule always_weaken)
     (auto simp: cool_def grown_def list_all_iff late_def reserved_def intro: plain_routine)

lemmas untouched_calm = untouched_cool [OF cool_of_calm]

lemma untouched_delete: "always untouched (delete_deployment E n)"
  unfolding delete_deployment_def by (intro cool_rules) simp

lemma untouched_status: "(\<And>st. conds (f st) = conds st) \<Longrightarrow> always untouched (set_status f)"
  by (rule cool_status) simp

lemma untouched_roll_out:
  assumes "condition_laws (cnd E)" and "t \<notin> reserved" and "\<And>n st. conds (setCount n st) = conds st"
  shows "always untouched (roll_out E t m1 m2 m3 d setCount h)"
  unfolding roll_out_def
  by (intro cool_rules cool_of_calm [OF calm_must_build] untouched_status assms; simp add: assms)

lemma always_res:
  assumes "\<And>x. always R (f x)" and "\<And>e. always R (g e)" and "\<And>m. always R (h m)"
  shows "always R (case z of Ok x \<Rightarrow> f x | Fail e \<Rightarrow> g e | Crash m \<Rightarrow> h m)"
  using assms by (cases z) auto

lemma untouched_deployment:
  assumes "condition_laws (cnd E)"
  shows "always untouched (deployment_phase E an tp mc h w)"
  unfolding deployment_phase_def deployment_failed_def deployment_running_def observe_deployment_def
  by (intro cool_rules untouched_status assms always_res; simp)

lemma untouched_workers:
  assumes "condition_laws (cnd E)"
  shows "always untouched (workers_phase E an tp mc h w)"
  unfolding workers_phase_def rpc_phase_def worker_phase_def eventlet_phase_def
  by (intro cool_rules untouched_status untouched_delete untouched_roll_out assms; simp)

lemma untouched_rotation:
  "always untouched (rotate_transport E c g)" "always untouched (rotate_credential E g)"
  "always untouched (rotate_notifications E n g)"
  unfolding rotate_transport_def rotate_credential_def rotate_notifications_def
    finalize_rotation_def transportURLDeleted_def
  by (intro cool_rules untouched_status; simp)+

lemma untouched_prune: "always untouched (prune_phase E c n)"
  unfolding prune_phase_def by (intro cool_rules; simp)

lemma untouched_deploy:
  assumes "condition_laws (cnd E)"
  shows "always untouched (deploy E mc an)"
proof -
  have "always (calm late routine) (fcall (IsWSGIEffective E ls an))" for ls
    by (intro calm.frame_fcall calm_IsWSGIEffective) simp_all
  then show ?thesis
    unfolding deploy_def
    by (intro cool.frame_andthen untouched_deployment untouched_workers untouched_calm
        calm_init_phases assms)
qed

section \<open>Ready is earned\<close>

definition all_others_true :: "Condition list \<Rightarrow> bool" where
  "all_others_true cs \<longleftrightarrow>
     (\<forall>t. t \<noteq> ReadyCondition \<longrightarrow> status_of cs t \<noteq> None \<longrightarrow> status_of cs t = Some CondTrue)"

text \<open>Before the end Ready is not True; at the end it is True only if it is earned.\<close>

definition unready :: "rstate \<Rightarrow> bool" where
  "unready s \<longleftrightarrow> list_all unpatched (trace s) \<and> cond_status s ReadyCondition \<noteq> Some CondTrue"

definition earned :: "rstate \<Rightarrow> bool" where
  "earned s \<longleftrightarrow> list_all unpatched (trace s) \<and>
     (cond_status s ReadyCondition = Some CondTrue \<longrightarrow> all_others_true (conds (st_of s)))"

lemma unready_earned: "unready s \<Longrightarrow> earned s"
  by (simp add: unready_def earned_def)

lemma unready_untouched: "unready s \<Longrightarrow> untouched s t \<Longrightarrow> unready t"
  by (auto simp: unready_def cool_def grown_def list_all_iff dest: plain_unpatched)

lemma unready_frame: "always untouched m \<Longrightarrow> guarded unready m (\<lambda>_. unready) earned"
  by (erule guarded_frame) (auto intro: unready_untouched unready_earned)

lemma ready_phase_earned:
  assumes C: "condition_laws (cnd E)"
  shows "guarded unready (ready_phase E) (\<lambda>_. earned) earned"
proof -
  have "guarded (\<lambda>s. unready s \<and> inst s = i) (mark_true E ReadyCondition m) (\<lambda>_. earned) earned"
    if "AllSubConditionIsTrue (cnd E) (conds (Status i))" for i m
    by (rule guarded_mark_true [OF C])
       (use AllSub_status [OF C that] in \<open>auto simp: unready_def earned_def all_others_true_def\<close>)
  then show ?thesis
    unfolding ready_phase_def
    by (intro guarded_the_inst guarded_andthen [where Q = "\<lambda>_. earned"] guarded_if guarded_ok guarded_ret)
       (auto intro: unready_earned)
qed

lemma conclude_earned:
  assumes C: "condition_laws (cnd E)"
  shows "guarded unready (conclude E c n) (\<lambda>_. earned) earned"
  unfolding conclude_def guard_ready_def
  by (intro guarded_andthen [OF unready_frame] ready_phase_earned C untouched_rotation untouched_prune
      untouched_calm accounts_calm cool.frame_reads)

lemma rbac_earned:
  assumes C: "condition_laws (cnd E)" and B: "rbac_laws (cl E)"
  shows "guarded (\<lambda>s. unready s \<and> rbac_present (inst s)) (rbac_phase E) (\<lambda>_. unready) earned"
proof -
  let ?P = "\<lambda>s. unready s \<and> rbac_present (inst s)"
  have call: "guarded ?P (invoke (aRbac (cl E)) (ReconcileRbac a b c))
      (\<lambda>x s. ?P s \<and> CondType ` set (fst x) \<subseteq> rbac_types) earned" for a b c
    by (rule guarded_invoke) (use B in \<open>auto simp: unready_def rbac_laws_def\<close>)
  have fold: "guarded ?P (update (\<lambda>s. s\<lparr>inst := foldl (RbacConditionsSet (cnd E)) (inst s) cs\<rparr>))
      (\<lambda>_. unready) earned" if cs: "CondType ` set cs \<subseteq> rbac_types" for cs
    by (rule guarded_update)
       (use RbacConditionsSet_fold [OF C cs, of _ ReadyCondition] in
         \<open>auto simp: unready_def rbac_types_def\<close>)
  show ?thesis
    unfolding rbac_phase_def
    apply (rule guarded_the_inst, rule guarded_pre, rule guarded_andthen [OF call])
     apply (simp only: split_paired_all prod.case fst_conv)
     apply (rule guarded_assume, rule guarded_andthen [OF fold], assumption)
     apply (rule unready_frame [OF untouched_calm [OF calm_basic(3)]])
    apply simp
    done
qed

lemma reconcileNormal_earned:
  assumes C: "condition_laws (cnd E)" and B: "rbac_laws (cl E)"
  shows "guarded (\<lambda>s. unready s \<and> rbac_present (inst s)) (reconcileNormal E) (\<lambda>_. earned) earned"
proof -
  have prep: "guarded (\<lambda>s. unready s \<and> rbac_present (inst s)) (prepare E) (\<lambda>_. unready) earned"
    unfolding prepare_def
    by (rule guarded_andthen [OF rbac_earned [OF C B]])
       (rule unready_frame [OF untouched_cool [OF cool_prepare_rest [OF C]]])
  show ?thesis
    unfolding reconcileNormal_def
    by (rule guarded_andthen [OF prep])
       (auto intro!: guarded_andthen [OF unready_frame [OF untouched_deploy [OF C]]]
         conclude_earned [OF C] split: prod.split)
qed

section \<open>Deletion and the body of Reconcile\<close>

lemma untouched_live_secrets: "always untouched (live_secrets E ns tus acc)"
  by (induction tus arbitrary: acc) (auto intro!: cool_rules)

lemma untouched_release_all: "always untouched (release_all E)"
  unfolding release_all_def release_database_def release_keystone_def release_topology_def
    release_transport_def remove_consumer_def prune_all_def release_credential_def
  by (intro cool_rules untouched_live_secrets; simp)

definition working :: "rstate \<Rightarrow> bool" where
  "working s \<longleftrightarrow> unready s \<and> rbac_present (inst s)"

lemma working_earned: "working s \<Longrightarrow> earned s"
  by (simp add: working_def unready_earned)

lemma working_status:
  assumes "\<And>st. StatusConditions (f st) = StatusConditions st"
  shows "guarded working (set_status f) (\<lambda>_. working) R"
  unfolding set_status_def
  by (rule guarded_update) (simp add: working_def unready_def rbac_present_def conds_def assms)

lemma working_set_finalizers: "guarded working (set_finalizers fs) (\<lambda>_. working) R"
  unfolding set_finalizers_def
  by (rule guarded_update) (simp add: working_def unready_def rbac_present_def)

lemma guarded_any_inst:
  "(\<And>i. guarded P (f i) Q R) \<Longrightarrow> guarded P (andthen the_inst f) Q R"
  by (rule guarded_the_inst) (auto intro: guarded_pre)

lemma working_first_pass: "guarded working (first_pass E b) (\<lambda>_. working) R"
  unfolding first_pass_def
  by (intro guarded_any_inst guarded_cases guarded_andthen [OF working_set_finalizers] guarded_ok)

lemma reconcileDelete_earned: "guarded working (reconcileDelete E) (\<lambda>_. earned) earned"
proof -
  have release: "guarded working (release_all E) (\<lambda>_. unready) earned"
    by (rule guarded_pre [OF unready_frame [OF untouched_release_all]]) (simp add: working_def)
  have last: "guarded unready (set_finalizers fs) (\<lambda>_. unready) earned" for fs
    unfolding set_finalizers_def by (rule guarded_update) (simp add: unready_def)
  show ?thesis
    unfolding reconcileDelete_def
    by (intro guarded_andthen [OF release] guarded_any_inst guarded_andthen [OF last] guarded_ret)
       (rule unready_earned)
qed

lemma reconcile_body_earned:
  assumes C: "condition_laws (cnd E)" and B: "rbac_laws (cl E)"
  shows "guarded (entered name ns i) (reconcile_body E isNew) (\<lambda>_. earned) earned"
proof -
  have init: "guarded (entered name ns i) (on_conds (\<lambda>cs. CInit (cnd E) cs (init_conditions E)))
      (\<lambda>_. working) earned"
    unfolding on_conds_def set_status_def
    by (rule guarded_update)
       (use init_conditions_unknown [OF C init_types(3)]
          init_conditions_unknown [OF C subsetD [OF init_types(2)]] in
        \<open>auto simp: working_def unready_def entered_def rbac_present_def\<close>)
  have normal: "guarded working (reconcileNormal E) (\<lambda>_. earned) earned"
    by (rule guarded_pre [OF reconcileNormal_earned [OF C B]]) (simp add: working_def)
  show ?thesis
    unfolding reconcile_body_def
    by (intro guarded_andthen [OF init] guarded_any_inst guarded_andthen [OF working_status]
        guarded_andthen [OF working_first_pass] guarded_if guarded_ret normal reconcileDelete_earned)
       (auto intro: working_earned)
qed

section \<open>The patch\<close>

definition patched :: "rstate \<Rightarrow> bool" where
  "patched s \<longleftrightarrow> (\<exists>cs. trace s = cs @ [PatchInstance (inst s)] \<and> list_all unpatched cs) \<and>
     (cond_status s ReadyCondition = Some CondTrue \<longrightarrow> all_others_true (conds (st_of s)))"

lemma deferred_earned:
  assumes C: "condition_laws (cnd E)"
  shows "guarded earned (deferred E saved a) (\<lambda>_. patched) patched"
proof -
  have restore: "guarded earned (on_conds (\<lambda>cs. RestoreLastTransitionTimes (cnd E) cs saved))
      (\<lambda>_. earned) patched"
    unfolding on_conds_def
    by (rule guarded_set_status)
       (simp add: earned_def all_others_true_def condition_simps [OF C])
  have set: "guarded (\<lambda>s. earned s \<and> inst s = i) (set_cond E c) (\<lambda>_. earned) patched"
    if "CMirror (cnd E) (conds (Status i)) ReadyCondition = Some c" for i c
    unfolding set_cond_def on_conds_def
    by (rule guarded_set_status)
       (use Mirror_type [OF C that] Mirror_true [OF C that] in
        \<open>auto simp: earned_def all_others_true_def condition_simps [OF C]\<close>)
  have mirror: "guarded (\<lambda>s. earned s \<and> inst s = i)
     (if CIsUnknown (cnd E) (conds (Status i)) ReadyCondition then
        (case CMirror (cnd E) (conds (Status i)) ReadyCondition of
           None \<Rightarrow> ok () | Some c \<Rightarrow> set_cond E c)
      else ok ()) (\<lambda>_. earned) patched" for i
    by (intro guarded_cases guarded_ok set) auto
  have patch: "guarded (\<lambda>s. earned s \<and> inst s = i) (invoke (aErr (cl E)) (PatchInstance i))
      (\<lambda>_. patched) patched" for i
    by (rule guarded_invoke) (auto simp: earned_def patched_def)
  show ?thesis
    unfolding deferred_def
    by (intro guarded_andthen [OF restore] guarded_the_inst guarded_andthen [OF mirror]
        guarded_andthen [OF patch] guarded_cases guarded_ret)
qed

lemma Reconcile_patched:
  assumes C: "condition_laws (cnd E)" and B: "rbac_laws (cl E)"
  shows "guarded (\<lambda>s. trace s = []) (Reconcile E name ns)
     (\<lambda>_ s. list_all unpatched (trace s) \<or> patched s) (\<lambda>s. list_all unpatched (trace s) \<or> patched s)"
proof (rule Reconcile_guarded)
  show "guarded (entered name ns i) (reconcile_body E isNew) (\<lambda>_. earned) earned" for i isNew
    by (rule reconcile_body_earned [OF C B])
  show "guarded earned (deferred E saved a) (\<lambda>_ s. list_all unpatched (trace s) \<or> patched s)
      (\<lambda>s. list_all unpatched (trace s) \<or> patched s)" for saved a
    by (rule guarded_post [OF deferred_earned [OF C]]) auto
qed (auto simp: earned_def list_all_iff)

lemma unpatched_only: "list_all unpatched cs \<Longrightarrow> PatchInstance i \<notin> set cs"
  by (auto simp: list_all_iff)

text \<open>What a reconcile writes back, given the calls it made.\<close>

definition writes_earned :: "ext \<Rightarrow> call list \<Rightarrow> bool" where
  "writes_earned E cs \<longleftrightarrow> (\<forall>i. PatchInstance i \<in> set cs \<longrightarrow>
     status_of (conds (Status i)) ReadyCondition = Some CondTrue \<longrightarrow>
     all_others_true (conds (Status i)) \<and> pending E cs = [])"

definition writes_flags :: "ext \<Rightarrow> call list \<Rightarrow> bool" where
  "writes_flags E cs \<longleftrightarrow> (\<forall>i d. PatchInstance i \<in> set cs \<longrightarrow> d \<in> set (pending E cs) \<longrightarrow>
     (case status_of (conds (Status i)) (flag (DeplName d)) of
        None \<Rightarrow> False | Some v \<Rightarrow> v \<noteq> CondTrue))"

lemma Reconcile_writes:
  assumes C: "condition_laws (cnd E)" and D: "deploy_laws (cl E)" and L: "pod_laws (pod E)"
    and B: "rbac_laws (cl E)"
    and live: "\<And>i. aInstance (cl E) [GetNeutronAPI name ns] = Inr i \<Longrightarrow> DeletionTimestamp i = None"
    and start: "trace s = []" and i: "PatchInstance i \<in> set (trace (snd (Reconcile E name ns s)))"
  shows "patched (snd (Reconcile E name ns s))" and "honest E (snd (Reconcile E name ns s))"
    and "i = inst (snd (Reconcile E name ns s))"
proof -
  let ?t = "snd (Reconcile E name ns s)"
  show "honest E ?t" by (rule guarded_final [OF Reconcile_honest [OF C D L B live] start])
  have "list_all unpatched (trace ?t) \<or> patched ?t"
    by (rule guarded_final [OF Reconcile_patched [OF C B] start])
  then show p: "patched ?t" using i unpatched_only by blast
  then show "i = inst ?t" using i unpatched_only by (auto simp: patched_def)
qed

text \<open>
  C2. The Ready condition is earned: when the reconcile of a resource that is not being
  deleted writes the resource back with Ready True, every other condition present in it is True
  and every Deployment written in this reconcile has been confirmed by the cluster to be
  rolled out with the configuration hash it carries.
\<close>

theorem ready_is_earned:
  assumes "condition_laws (cnd E)" and "deploy_laws (cl E)" and "pod_laws (pod E)"
    and "rbac_laws (cl E)"
    and "\<And>i. aInstance (cl E) [GetNeutronAPI name ns] = Inr i \<Longrightarrow> DeletionTimestamp i = None"
    and "trace s = []"
  shows "writes_earned E (trace (snd (Reconcile E name ns s)))"
  unfolding writes_earned_def
proof (intro allI impI)
  let ?t = "snd (Reconcile E name ns s)"
  fix i assume i: "PatchInstance i \<in> set (trace ?t)"
    and ready: "status_of (conds (Status i)) ReadyCondition = Some CondTrue"
  note writes = Reconcile_writes [OF assms i]
  with ready have all: "all_others_true (conds (st_of ?t))" by (simp add: patched_def)
  have "pending E (trace ?t) = []"
  proof (rule ccontr)
    assume "pending E (trace ?t) \<noteq> []"
    then obtain d where "d \<in> set (pending E (trace ?t))" by (meson last_in_set)
    with writes(2) have "flagged (flag (DeplName d)) ?t" by (simp add: honest_def owed_def)
    with all flag_names(7) show False by (auto simp: flagged_def all_others_true_def)
  qed
  with all writes(3) show "all_others_true (conds (Status i)) \<and> pending E (trace ?t) = []" by simp
qed

theorem ready_is_earned_witness:
  "writes_earned (plain_ext live_cluster)
     (trace (snd (Reconcile (plain_ext live_cluster) ''neutron'' ''openstack'' fresh_state)))"
  by (rule ready_is_earned)
     (simp_all add: list_conditions_laws plain_pod_laws live_cluster_laws fresh_fields)

text \<open>
  C3. A rollout in progress shows in the status: in the resource that the reconcile of a
  resource not being deleted writes back, for each Deployment it wrote and the cluster has not
  confirmed for the hash it carries, the condition of that Deployment is present and not True.
\<close>

theorem unconfirmed_rollout_shows:
  assumes "condition_laws (cnd E)" and "deploy_laws (cl E)" and "pod_laws (pod E)"
    and "rbac_laws (cl E)"
    and "\<And>i. aInstance (cl E) [GetNeutronAPI name ns] = Inr i \<Longrightarrow> DeletionTimestamp i = None"
    and "trace s = []"
  shows "writes_flags E (trace (snd (Reconcile E name ns s)))"
  unfolding writes_flags_def
proof (intro allI impI)
  fix i d assume i: "PatchInstance i \<in> set (trace (snd (Reconcile E name ns s)))"
    and d: "d \<in> set (pending E (trace (snd (Reconcile E name ns s))))"
  note writes = Reconcile_writes [OF assms i]
  with d have "flagged (flag (DeplName d)) (snd (Reconcile E name ns s))"
    by (simp add: honest_def owed_def)
  with writes(3) show "case status_of (conds (Status i)) (flag (DeplName d)) of
      None \<Rightarrow> False | Some v \<Rightarrow> v \<noteq> CondTrue"
    by (auto simp: flagged_def split: option.splits)
qed

theorem unconfirmed_rollout_shows_witness:
  "writes_flags (plain_ext live_cluster)
     (trace (snd (Reconcile (plain_ext live_cluster) ''neutron'' ''openstack'' fresh_state)))"
  by (rule unconfirmed_rollout_shows)
     (simp_all add: list_conditions_laws plain_pod_laws live_cluster_laws fresh_fields)

end
