(* ===== verification/Patching.thy ===== *)
theory Patching
  imports Readiness
begin

text \<open>
  The single write of the resource: \<^verbatim>\<open>Reconcile\<close> patches it exactly once, as its last call, on
  every way out but a panic, and what it patches differs from what it fetched only in the status
  and in the list of finalizers.
\<close>

section \<open>The deferred function\<close>

lemma deferred_run:
  "\<exists>b. fst (deferred E saved a s) = Return b"
  "\<exists>i. PatchInstance i \<in> set (trace (snd (deferred E saved a s)))"
  by (auto simp: deferred_def prog_defs the_inst_def invoke_def set_cond_def on_conds_def
      set_status_def split: option.split)

lemma deferred_returns:
  obtains b i t where "deferred E saved a s = (Return b, t)" and "PatchInstance i \<in> set (trace t)"
  using deferred_run [of E saved a s] that by (metis prod.collapse)

lemma with_deferred_outcome:
  "case with_deferred E saved m s of
     (Return b, t) \<Rightarrow> (\<exists>i. PatchInstance i \<in> set (trace t))
   | (Panic p, t) \<Rightarrow> (\<exists>q. m s = (Panic q, t))
   | (Next x, t) \<Rightarrow> False"
proof (cases "m s" rule: outcome_prod_cases)
  case (Next a t)
  obtain b i u where "deferred E saved a t = (Return b, u)" "PatchInstance i \<in> set (trace u)"
    by (rule deferred_returns)
  with Next show ?thesis by (auto simp: with_deferred_def andthen_def fcall_def)
next
  case (Return a t)
  obtain b i u where "deferred E saved a t = (Return b, u)" "PatchInstance i \<in> set (trace u)"
    by (rule deferred_returns)
  with Return show ?thesis by (auto simp: with_deferred_def andthen_def fcall_def)
qed (simp add: with_deferred_def andthen_def fcall_def)

section \<open>One patch\<close>

lemma conditions_present:
  "StatusConditions (Status i) = Some cs \<Longrightarrow> i\<lparr>Status := (Status i)\<lparr>StatusConditions := Some cs\<rparr>\<rparr> = i"
  by (cases i; cases "Status i") simp

lemma Reconcile_entered:
  assumes i: "aInstance (cl E) [GetNeutronAPI name ns] = Inr i"
    and h: "aErr (cl E) [GetNeutronAPI name ns, NewHelper] = None" and s: "trace s = []"
  obtains t where "entered name ns i t"
    and "Reconcile E name ns s = with_deferred E (conds (Status i))
       (reconcile_body E (StatusConditions (Status i) = None)) t"
proof -
  let ?t = "s\<lparr>inst := i\<lparr>Status := (Status i)\<lparr>StatusConditions := Some (conds (Status i))\<rparr>\<rparr>,
      trace := [GetNeutronAPI name ns, NewHelper]\<rparr>"
  have "entered name ns i ?t" by (simp add: entered_def)
  moreover have "Reconcile E name ns s = with_deferred E (conds (Status i))
       (reconcile_body E (StatusConditions (Status i) = None)) ?t"
    using i h s
    by (cases s; cases "StatusConditions (Status i)")
       (simp_all add: Reconcile_def prog_defs invoke_def or_return_def set_status_def conds_def
          conditions_present)
  ultimately show thesis by (rule that)
qed

lemma Reconcile_not_entered:
  assumes "\<not> ((\<exists>i. aInstance (cl E) [GetNeutronAPI name ns] = Inr i) \<and>
      aErr (cl E) [GetNeutronAPI name ns, NewHelper] = None)" and s: "trace s = []"
  shows "case Reconcile E name ns s of
     (Return a, t) \<Rightarrow> list_all unpatched (trace t) | (_, t) \<Rightarrow> False"
  using assms
  by (cases "aInstance (cl E) [GetNeutronAPI name ns]")
     (auto simp: Reconcile_def prog_defs invoke_def or_return_def split: option.split)

text \<open>
  C15. The resource is written back exactly once, as the last call of the reconcile, on every
  exit but two: nothing is written if the resource or the helper could not be had, and nothing is
  written if the reconcile panics. \<^verbatim>\<open>Reconcile\<close> always returns or panics.
\<close>

theorem reconcile_patches_once:
  assumes C: "condition_laws (cnd E)" and B: "rbac_laws (cl E)" and s: "trace s = []"
  shows "case Reconcile E name ns s of
     (Return a, t) \<Rightarrow>
       (if (\<exists>i. aInstance (cl E) [GetNeutronAPI name ns] = Inr i) \<and>
           aErr (cl E) [GetNeutronAPI name ns, NewHelper] = None
        then \<exists>cs. trace t = cs @ [PatchInstance (inst t)] \<and> list_all unpatched cs
        else list_all unpatched (trace t))
   | (Panic p, t) \<Rightarrow> list_all unpatched (trace t)
   | (Next a, t) \<Rightarrow> False"
proof (cases "(\<exists>i. aInstance (cl E) [GetNeutronAPI name ns] = Inr i) \<and>
      aErr (cl E) [GetNeutronAPI name ns, NewHelper] = None")
  case False
  from Reconcile_not_entered [OF False s] False show ?thesis
    by (auto split: prod.splits outcome.splits)
next
  case True
  then obtain i where i: "aInstance (cl E) [GetNeutronAPI name ns] = Inr i"
    and h: "aErr (cl E) [GetNeutronAPI name ns, NewHelper] = None" by blast
  let ?m = "reconcile_body E (StatusConditions (Status i) = None)"
  obtain u where u: "entered name ns i u"
    and run: "Reconcile E name ns s = with_deferred E (conds (Status i)) ?m u"
    by (rule Reconcile_entered [OF i h s])
  have once: "list_all unpatched (trace (snd (Reconcile E name ns s))) \<or> patched (snd (Reconcile E name ns s))"
    by (rule guarded_final [OF Reconcile_patched [OF C B] s])
  show ?thesis
  proof (cases "Reconcile E name ns s" rule: outcome_prod_cases)
    case (Next a t)
    then show ?thesis using with_deferred_outcome [where E = E and saved = "conds (Status i)" and m = ?m and s = u] run by simp
  next
    case (Return a t)
    then obtain j where "PatchInstance j \<in> set (trace t)"
      using with_deferred_outcome [where E = E and saved = "conds (Status i)" and m = ?m and s = u] run by auto
    with once Return unpatched_only have "patched t" by fastforce
    with Return i h show ?thesis by (simp add: patched_def)
  next
    case (Panic p t)
    then have "\<exists>q. ?m u = (Panic q, t)"
      using with_deferred_outcome [where E = E and saved = "conds (Status i)" and m = ?m and s = u] run by auto
    with guarded_final [OF reconcile_body_earned [OF C B] u, of "StatusConditions (Status i) = None"]
    have "earned t" by auto
    with Panic show ?thesis by (simp add: earned_def)
  qed
qed

lemma live_answers: "aInstance live_cluster cs = Inr live_api" "aErr live_cluster cs = None"
  by (simp_all add: live_cluster_def plain_cluster_def)

theorem reconcile_patches_once_witness:
  "case Reconcile (plain_ext live_cluster) ''neutron'' ''openstack'' fresh_state of
     (Return a, t) \<Rightarrow> (\<exists>cs. trace t = cs @ [PatchInstance (inst t)] \<and> list_all unpatched cs)
   | (Panic p, t) \<Rightarrow> list_all unpatched (trace t)
   | (Next a, t) \<Rightarrow> False"
  using reconcile_patches_once [of "plain_ext live_cluster" fresh_state "''neutron''" "''openstack''"]
  by (auto simp: list_conditions_laws live_cluster_laws fresh_fields live_answers
      split: prod.splits outcome.splits)

section \<open>What the reconcile may change of the resource\<close>

definition owned_fields :: "rstate \<Rightarrow> rstate \<Rightarrow> bool" where
  "owned_fields s t \<longleftrightarrow>
     (inst t)\<lparr>Status := Status (inst s), Finalizers := Finalizers (inst s)\<rparr> = inst s"

lemma owned_trans: "owned_fields s t \<Longrightarrow> owned_fields t u \<Longrightarrow> owned_fields s u"
  by (cases "inst s"; cases "inst t"; cases "inst u") (simp add: owned_fields_def)

interpretation owned: step_frame owned_fields
  by unfold_locales (simp add: owned_fields_def, rule owned_trans)

lemma owned_status_only: "status_only s t \<Longrightarrow> owned_fields s t"
  by (cases "inst s") (auto simp: status_only_def owned_fields_def)

lemma owned_untouched: "always untouched m \<Longrightarrow> always owned_fields m"
  by (erule always_weaken) (auto simp: cool_def intro: owned_status_only)

lemma owned_steady: "always (steady (\<lambda>_. True)) m \<Longrightarrow> always owned_fields m"
  by (erule always_weaken) (auto simp: steady_def intro: owned_status_only)

lemma owned_finalizers: "always owned_fields (set_finalizers fs)"
  unfolding set_finalizers_def
  by (rule owned.frame_update) (simp add: owned_fields_def)

lemma owned_rbac: "always owned_fields (rbac_phase E)"
proof -
  have one: "(RbacConditionsSet C i c)\<lparr>Status := st, Finalizers := fs\<rparr> = i\<lparr>Status := st, Finalizers := fs\<rparr>"
    for C i c st fs by (simp add: RbacConditionsSet_def)
  have "(foldl (RbacConditionsSet C) i cs)\<lparr>Status := st, Finalizers := fs\<rparr>
      = i\<lparr>Status := st, Finalizers := fs\<rparr>" for C i cs st fs
    by (induction cs arbitrary: i) (simp_all add: one)
  then have "always owned_fields (update (\<lambda>s. s\<lparr>inst := foldl (RbacConditionsSet (cnd E)) (inst s) cs\<rparr>))" for cs
    by (intro owned.frame_update) (simp add: owned_fields_def)
  then show ?thesis
    unfolding rbac_phase_def
    by (intro owned.frame_rules owned_steady [OF steady_basic(1)] owned_steady [OF steady_basic(3)]
        owned_steady [OF steady_invoke]) simp_all
qed

lemma owned_reconcileNormal:
  assumes C: "condition_laws (cnd E)"
  shows "always owned_fields (reconcileNormal E)"
proof -
  have prep: "always owned_fields (prepare E)"
    unfolding prepare_def
    by (intro owned.frame_andthen [OF owned_rbac]) (rule owned_untouched [OF untouched_cool [OF cool_prepare_rest [OF C]]])
  have ready: "always owned_fields (ready_phase E)"
    unfolding ready_phase_def by (intro owned_steady steady_rules)
  have "always owned_fields (conclude E c n)" for c n
    unfolding conclude_def guard_ready_def
    by (intro owned.frame_andthen ready owned.frame_reads untouched_rotation [THEN owned_untouched]
        owned_untouched [OF untouched_prune] owned_untouched [OF untouched_calm [OF accounts_calm]])
  then show ?thesis
    unfolding reconcileNormal_def
    by (intro owned.frame_andthen [OF prep] owned.frame_prod owned.frame_andthen
        owned_untouched [OF untouched_deploy [OF C]])
qed

lemma owned_reconcile_body:
  assumes "condition_laws (cnd E)"
  shows "always owned_fields (reconcile_body E isNew)"
proof -
  have basics: "always owned_fields (the_inst :: (rstate, 'r, _) prog)"
    "always owned_fields (set_status f :: (rstate, 'r, _) prog)"
    "always owned_fields (on_conds g :: (rstate, 'r, _) prog)" for f g
    unfolding on_conds_def by (intro owned_steady [OF steady_basic(1)] owned_steady [OF steady_status])+
  show ?thesis
    unfolding reconcile_body_def first_pass_def reconcileDelete_def
    by (intro owned.frame_rules basics owned_finalizers owned_reconcileNormal assms
        owned_untouched [OF untouched_release_all])
qed

lemma owned_deferred: "always owned_fields (deferred E saved a)"
  unfolding deferred_def on_conds_def by (intro owned_steady steady_rules) simp

lemma Reconcile_owned:
  assumes C: "condition_laws (cnd E)" and i: "aInstance (cl E) [GetNeutronAPI name ns] = Inr i"
    and s: "trace s = []"
  shows "(inst (snd (Reconcile E name ns s)))\<lparr>Status := Status i, Finalizers := Finalizers i\<rparr> = i"
proof (cases "aErr (cl E) [GetNeutronAPI name ns, NewHelper]")
  case None
  obtain u where u: "entered name ns i u"
    and run: "Reconcile E name ns s = with_deferred E (conds (Status i))
       (reconcile_body E (StatusConditions (Status i) = None)) u"
    by (rule Reconcile_entered [OF i None s])
  have "always owned_fields (with_deferred E (conds (Status i))
       (reconcile_body E (StatusConditions (Status i) = None)))"
    unfolding with_deferred_def
    by (intro owned.frame_andthen owned.frame_fcall owned_reconcile_body owned_deferred C)
  then have "owned_fields u (snd (Reconcile E name ns s))" by (simp add: run alwaysD)
  then show ?thesis
    using u by (cases "inst (snd (Reconcile E name ns s))"; cases i)
      (simp add: owned_fields_def entered_def)
next
  case (Some e)
  with i s show ?thesis by (simp add: Reconcile_def prog_defs invoke_def or_return_def)
qed

text \<open>
  C16. The operator only writes what it owns: the resource it patches equals the one it fetched
  but for the status and the list of finalizers; name, namespace, annotations and the whole spec
  stay the user's.
\<close>

theorem reconcile_changes_owned_fields:
  assumes C: "condition_laws (cnd E)" and i: "aInstance (cl E) [GetNeutronAPI name ns] = Inr i"
    and s: "trace s = []"
  shows "(inst (snd (Reconcile E name ns s)))\<lparr>Status := Status i, Finalizers := Finalizers i\<rparr> = i"
  using assms by (rule Reconcile_owned)

theorem reconcile_changes_owned_fields_witness:
  "Spec (inst (snd (Reconcile (plain_ext live_cluster) ''neutron'' ''openstack'' fresh_state)))
     = Spec live_api"
proof -
  let ?i = "inst (snd (Reconcile (plain_ext live_cluster) ''neutron'' ''openstack'' fresh_state))"
  have "?i\<lparr>Status := Status live_api, Finalizers := Finalizers live_api\<rparr> = live_api"
    by (rule reconcile_changes_owned_fields)
       (simp_all add: list_conditions_laws fresh_fields live_answers)
  then have "Spec (?i\<lparr>Status := Status live_api, Finalizers := Finalizers live_api\<rparr>) = Spec live_api"
    by simp
  then show ?thesis by simp
qed

end
