(* ===== verification/RotationRefinement.thy ===== *)
theory RotationRefinement
  imports Patching
begin

text \<open>
  Credential rotation against its abstract specification. A tracked credential is a small state
  machine: a first one is adopted, it is kept, and it is exchanged for the current one only when
  the rollout is complete. The status fields of the resource refine it, in one reconcile and over
  any sequence of reconciles and user edits.
\<close>

section \<open>The abstract machine\<close>

inductive tracks :: "bool \<Rightarrow> 'a option \<Rightarrow> 'a option \<Rightarrow> bool" for complete where
  keep: "tracks complete x x"
| adopt: "tracks complete None y"
| exchange: "complete \<Longrightarrow> tracks complete x y"

inductive_simps tracks_Some [simp]: "tracks b (Some x) y"

lemma tracks_None [simp]: "tracks b None y"
  by (rule tracks.adopt)

text \<open>What a status field tracks; an empty name is no credential.\<close>

definition named :: "string \<Rightarrow> string option" where
  "named x = (if x = [] then None else Some x)"

definition transport_of :: "NeutronAPIStatus \<Rightarrow> string option" where
  "transport_of st = named (TransportURLSecret st)"

definition notifications_of :: "NeutronAPIStatus \<Rightarrow> string option" where
  "notifications_of st = Option.bind (NotificationsTransportURLSecret st) named"

definition credential_of :: "NeutronAPIStatus \<Rightarrow> string option" where
  "credential_of st = named (ApplicationCredentialSecret st)"

definition refines_rotation :: "bool \<Rightarrow> NeutronAPIStatus \<Rightarrow> NeutronAPIStatus \<Rightarrow> bool" where
  "refines_rotation complete st st' \<longleftrightarrow>
     tracks complete (transport_of st) (transport_of st') \<and>
     tracks complete (notifications_of st) (notifications_of st') \<and>
     tracks complete (credential_of st) (credential_of st')"

text \<open>
  What the operator relies on: \<^verbatim>\<open>FinalizeSecretRotation\<close> hands back the old name while the guard
  is not set and there is an old one.
\<close>

definition rotation_laws :: "cluster \<Rightarrow> bool" where
  "rotation_laws c \<longleftrightarrow> (\<forall>cs ns old cur f x. old \<noteq> [] \<longrightarrow>
     aString c (cs @ [FinalizeSecretRotation ns old cur f False]) = Inr x \<longrightarrow> x = old)"

lemma rotation_lawsD:
  "rotation_laws c \<Longrightarrow> aString c (cs @ [FinalizeSecretRotation ns old cur f False]) = Inr x \<Longrightarrow>
   old = [] \<or> x = old"
  unfolding rotation_laws_def by blast

lemma refines_refl: "refines_rotation b st st"
  by (simp add: refines_rotation_def tracks.keep)

lemma refines_tracked: "tracked st' = tracked st \<Longrightarrow> refines_rotation b st st'"
  by (simp add: refines_rotation_def tracked_def transport_of_def notifications_of_def
      credential_of_def tracks.keep)

lemma refines_exchange: "refines_rotation True st st'"
  by (simp add: refines_rotation_def tracks.exchange)

lemma named_simps [simp]: "named x = None \<longleftrightarrow> x = []" "None = named x \<longleftrightarrow> x = []" "named x = Some y \<longleftrightarrow> x = y \<and> y \<noteq> []"
  "Some y = named x \<longleftrightarrow> x = y \<and> y \<noteq> []" "named [] = None"
  by (auto simp: named_def)

lemma tracks_iff: "tracks b x y \<longleftrightarrow> b \<or> x = None \<or> y = x"
  by (cases x) auto

section \<open>Phases that do not touch the tracked names\<close>

abbreviation steady_names :: "rstate \<Rightarrow> rstate \<Rightarrow> bool" where
  "steady_names \<equiv> calm {} (\<lambda>_. True)"

lemma steady_names_calm: "always (calm T P) m \<Longrightarrow> always steady_names m"
  by (erule calm_mono) simp_all

lemma steady_names_deployment:
  assumes "condition_laws (cnd E)"
  shows "always steady_names (deployment_phase E an tp mc h w)"
  unfolding deployment_phase_def deployment_failed_def deployment_running_def observe_deployment_def
  by (intro calm_rules calm_status assms always_res; simp)

lemma steady_names_roll_out:
  assumes "condition_laws (cnd E)" and "\<And>n st. tracked (setCount n st) = tracked st"
  shows "always steady_names (roll_out E t m1 m2 m3 d setCount h)"
  unfolding roll_out_def
  by (intro calm_rules calm_must_build calm_status assms; simp)

lemma steady_names_workers:
  assumes "condition_laws (cnd E)"
  shows "always steady_names (workers_phase E an tp mc h w)"
  unfolding workers_phase_def rpc_phase_def worker_phase_def eventlet_phase_def delete_deployment_def
  by (intro calm_rules calm_status steady_names_roll_out assms; simp)

lemma steady_names_deploy:
  assumes "condition_laws (cnd E)"
  shows "always steady_names (deploy E mc an)"
  unfolding deploy_def
  by (intro calm.frame_andthen calm.frame_fcall steady_names_deployment steady_names_workers
      calm_init_phases [THEN steady_names_calm] steady_names_calm [OF calm_IsWSGIEffective] assms)
     simp_all

section \<open>Before the guard\<close>

text \<open>Relative to the status \<open>st0\<close> the reconcile started with.\<close>

definition kept :: "bool \<Rightarrow> NeutronAPIStatus \<Rightarrow> rstate \<Rightarrow> bool" where
  "kept b st0 s \<longleftrightarrow> refines_rotation b st0 (st_of s)"

lemma kept_frame:
  assumes "always steady_names m"
  shows "guarded (kept b st0) m (\<lambda>_. kept b st0) (kept b st0)"
proof (rule guarded_frame [OF assms])
  fix s t assume "kept b st0 s" and "steady_names s t"
  then show "kept b st0 t"
    by (auto simp: kept_def calm_def refines_rotation_def tracked_def transport_of_def
        notifications_of_def credential_of_def)
qed

lemma kept_status:
  assumes "\<And>st. refines_rotation b st0 st \<Longrightarrow> refines_rotation b st0 (f st)"
  shows "guarded (kept b st0) (set_status f) (\<lambda>_. kept b st0) R"
  unfolding set_status_def by (rule guarded_update) (simp add: kept_def assms)

lemma kept_invoke: "guarded (kept b st0) (invoke f c) (\<lambda>_. kept b st0) R"
  by (rule guarded_invoke) (simp add: kept_def)

lemma kept_any_inst:
  "(\<And>i. guarded (kept b st0) (f i) Q R) \<Longrightarrow> guarded (kept b st0) (andthen the_inst f) Q R"
  by (rule guarded_any_inst)

lemma kept_or_return: "guarded (kept b st0) (or_return e) (\<lambda>_. kept b st0) (kept b st0)"
  by (rule kept_frame) (rule steady_names_calm [OF calm_basic(2)])

lemma kept_conds:
  assumes "condition_laws (cnd E)"
  shows "guarded (kept b st0) (set_false E t r v m a) (\<lambda>_. kept b st0) (kept b st0)"
    and "guarded (kept b st0) (mark_true E t msg) (\<lambda>_. kept b st0) (kept b st0)"
    and "guarded (kept b st0) (remove_cond E t) (\<lambda>_. kept b st0) (kept b st0)"
  by (rule kept_frame, rule calm_set_false calm_mark_true calm_remove_cond, rule assms, simp)+

lemma kept_transport:
  assumes C: "condition_laws (cnd E)"
  shows "guarded (kept b st0) (transport_phase E) (\<lambda>_. kept b st0) (kept b st0)"
proof -
  have first: "guarded (kept b st0) (set_status (\<lambda>st.
       if TransportURLSecret st = [] \<or> TransportURLSecret st = cur
       then st\<lparr>TransportURLSecret := cur\<rparr> else st)) (\<lambda>_. kept b st0) (kept b st0)" for cur
    by (rule kept_status)
       (auto simp: refines_rotation_def tracks_iff transport_of_def notifications_of_def credential_of_def)
  show ?thesis
    unfolding transport_phase_def transportURLCreateOrUpdate_def Let_def andthen_assoc
    by (intro kept_any_inst guarded_andthen [OF kept_invoke] guarded_cases
        guarded_andthen [OF kept_conds(1) [OF C]] guarded_andthen [OF first]
        guarded_andthen [OF kept_or_return] guarded_ret guarded_ok)
qed

lemma kept_notifications:
  assumes C: "condition_laws (cnd E)"
  shows "guarded (kept b st0) (notifications_phase E) (\<lambda>_. kept b st0) (kept b st0)"
proof -
  have first: "guarded (kept b st0) (set_status (\<lambda>st.
       if NotificationsTransportURLSecret st = None \<or> NotificationsTransportURLSecret st = Some cur
       then st\<lparr>NotificationsTransportURLSecret := Some cur\<rparr> else st)) (\<lambda>_. kept b st0) (kept b st0)" for cur
    by (rule kept_status)
       (auto simp: refines_rotation_def tracks_iff transport_of_def notifications_of_def credential_of_def)
  have verify: "guarded (kept b st0) (verify_phase E n fs r v) (\<lambda>_. kept b st0) (kept b st0)" for n fs r v
    by (rule kept_frame [OF steady_names_calm [OF calm_verify_phase [OF C]]])
  have var: "guarded (kept b st0) (set_var k v) (\<lambda>_. kept b st0) (kept b st0)" for k v
    by (rule kept_frame [OF calm_set_var])
  show ?thesis
    unfolding notifications_phase_def transportURLCreateOrUpdate_def andthen_assoc
    by (intro kept_any_inst guarded_andthen [OF kept_invoke] guarded_cases
        guarded_andthen [OF kept_conds(1) [OF C]] guarded_andthen [OF kept_conds(2) [OF C]]
        guarded_andthen [OF kept_conds(3) [OF C]] guarded_andthen [OF first] guarded_andthen [OF verify]
        guarded_andthen [OF var] guarded_andthen [OF kept_or_return] guarded_ret guarded_ok)
qed

lemma kept_rbac: "guarded (kept b st0) (rbac_phase E) (\<lambda>_. kept b st0) (kept b st0)"
proof -
  have fold: "tracked (Status (foldl (RbacConditionsSet C) i cs)) = tracked (Status i)" for C i cs
    by (induction cs arbitrary: i) (simp_all add: RbacConditionsSet_def tracked_def)
  have set: "guarded (kept b st0) (update (\<lambda>s. s\<lparr>inst := foldl (RbacConditionsSet (cnd E)) (inst s) cs\<rparr>))
      (\<lambda>_. kept b st0) (kept b st0)" for cs
  proof (rule guarded_update)
    fix s assume "kept b st0 s"
    with fold [of "cnd E" "inst s" cs] show "kept b st0 (s\<lparr>inst := foldl (RbacConditionsSet (cnd E)) (inst s) cs\<rparr>)"
      by (auto simp: kept_def refines_rotation_def tracked_def transport_of_def
          notifications_of_def credential_of_def)
  qed
  show ?thesis
    unfolding rbac_phase_def
    by (intro kept_any_inst guarded_andthen [OF kept_invoke] guarded_prod guarded_andthen [OF set]
        kept_frame [OF calm_basic(3)])
qed

lemma kept_prepare:
  assumes C: "condition_laws (cnd E)"
  shows "guarded (kept b st0) (prepare E) (\<lambda>_. kept b st0) (kept b st0)"
proof -
  note calm = kept_frame [OF steady_names_calm]
  show ?thesis
    unfolding prepare_def
    by (intro guarded_andthen [OF kept_rbac] guarded_andthen [OF kept_transport [OF C]]
        guarded_andthen [OF kept_notifications [OF C]] guarded_andthen [OF kept_frame [OF calm_vars]]
        guarded_andthen [OF calm [OF calm_input_phases(1) [OF C]]]
        guarded_andthen [OF calm [OF calm_input_phases(2) [OF C]]]
        guarded_andthen [OF calm [OF calm_input_phases(3) [OF C]]]
        guarded_andthen [OF calm [OF calm_input_phases(4) [OF C]]]
        guarded_andthen [OF calm [OF calm_init_phases(1) [OF C]]]
        guarded_andthen [OF calm [OF calm_init_phases(2) [OF C]]] guarded_ok)
qed

section \<open>After the guard\<close>

lemma kept_finalize:
  assumes F: "rotation_laws (cl E)"
  shows "guarded (kept g st0) (finalize_rotation E old cur f g)
     (\<lambda>name s. kept g st0 s \<and> (g \<or> old = [] \<or> name = old)) (kept g st0)"
proof -
  have call: "guarded (kept g st0) (invoke (aString (cl E)) (FinalizeSecretRotation ns old cur f g))
      (\<lambda>r s. kept g st0 s \<and> (case r of Inl e \<Rightarrow> True | Inr x \<Rightarrow> g \<or> old = [] \<or> x = old)) (kept g st0)" for ns
    by (rule guarded_invoke)
       (cases g; auto simp: kept_def split: sum.splits dest: rotation_lawsD [OF F])
  show ?thesis
    unfolding finalize_rotation_def
  proof (intro kept_any_inst guarded_andthen [OF call])
    fix r :: "goerror + string"
    show "guarded (\<lambda>s. kept g st0 s \<and> (case r of Inl e \<Rightarrow> True | Inr x \<Rightarrow> g \<or> old = [] \<or> x = old))
       (case r of Inl e \<Rightarrow> ret (NoResult, Some e) | Inr name \<Rightarrow> ok name)
       (\<lambda>name s. kept g st0 s \<and> (g \<or> old = [] \<or> name = old)) (kept g st0)"
      by (cases r) (auto intro: guarded_ret guarded_ok)
  qed
qed

text \<open>Writing back the name that was handed back refines the machine.\<close>

lemma kept_write:
  assumes "\<And>st. tracked st = tracked (Status i) \<Longrightarrow> refines_rotation g st0 st \<Longrightarrow>
      g \<or> old = [] \<or> name = old \<Longrightarrow> refines_rotation g st0 (f st)"
  shows "guarded (\<lambda>s. (kept g st0 s \<and> tracked (st_of s) = tracked (Status i)) \<and> (g \<or> old = [] \<or> name = old))
     (set_status f) (\<lambda>_. kept g st0) (kept g st0)"
  unfolding set_status_def by (rule guarded_update) (auto simp: kept_def intro: assms)

lemma names_finalize:
  "guarded (\<lambda>s. tracked (st_of s) = T) (finalize_rotation E old cur f g)
     (\<lambda>_ s. tracked (st_of s) = T) (\<lambda>_. True)"
proof -
  have "always steady_names (finalize_rotation E old cur f g)"
    unfolding finalize_rotation_def by (intro calm_rules) simp
  then show ?thesis
    by (rule guarded_frame) (auto simp: calm_def)
qed

lemma kept_rotate_one:
  assumes F: "rotation_laws (cl E)"
    and f: "\<And>st name. tracked st = tracked (Status i) \<Longrightarrow> refines_rotation g st0 st \<Longrightarrow>
      g \<or> old = [] \<or> name = old \<Longrightarrow> refines_rotation g st0 (f name st)"
  shows "guarded (\<lambda>s. kept g st0 s \<and> inst s = i)
     (andthen (finalize_rotation E old cur fin g) (\<lambda>name. set_status (f name))) (\<lambda>_. kept g st0) (kept g st0)"
proof (rule guarded_andthen)
  show "guarded (\<lambda>s. kept g st0 s \<and> inst s = i) (finalize_rotation E old cur fin g)
      (\<lambda>name s. (kept g st0 s \<and> tracked (st_of s) = tracked (Status i)) \<and> (g \<or> old = [] \<or> name = old))
      (kept g st0)"
    using guarded_conj [OF kept_finalize [OF F] names_finalize [where T = "tracked (Status i)"]]
    by (rule guarded_post [OF guarded_pre]) auto
  show "guarded (\<lambda>s. (kept g st0 s \<and> tracked (st_of s) = tracked (Status i)) \<and> (g \<or> old = [] \<or> name = old))
      (set_status (f name)) (\<lambda>_. kept g st0) (kept g st0)" for name
    by (rule kept_write) (rule f)
qed

lemma bind_named [simp]:
  "Option.bind o' named = Some x \<longleftrightarrow> o' = Some x \<and> x \<noteq> []"
  "Some x = Option.bind o' named \<longleftrightarrow> o' = Some x \<and> x \<noteq> []"
  by (cases o'; simp)+

lemma refines_writes:
  assumes "refines_rotation g st0 st"
  shows "g \<or> TransportURLSecret st = [] \<or> x = TransportURLSecret st \<Longrightarrow>
      refines_rotation g st0 (st\<lparr>TransportURLSecret := x\<rparr>)"
    and "g \<or> ApplicationCredentialSecret st = [] \<or> x = ApplicationCredentialSecret st \<Longrightarrow>
      refines_rotation g st0 (st\<lparr>ApplicationCredentialSecret := x\<rparr>)"
    and "g \<or> notifications_of st = None \<or> Some x = notifications_of st \<Longrightarrow>
      refines_rotation g st0 (st\<lparr>NotificationsTransportURLSecret := Some x\<rparr>)"
  using assms
  by (auto simp: refines_rotation_def tracks_iff transport_of_def credential_of_def
      notifications_of_def)

lemma tracked_eqD:
  assumes "tracked st = tracked st'"
  shows "TransportURLSecret st = TransportURLSecret st'"
    "NotificationsTransportURLSecret st = NotificationsTransportURLSecret st'"
    "ApplicationCredentialSecret st = ApplicationCredentialSecret st'"
  using assms by (simp_all add: tracked_def)

lemma kept_rotate:
  assumes F: "rotation_laws (cl E)"
  shows "guarded (kept g st0) (rotate_transport E c g) (\<lambda>_. kept g st0) (kept g st0)"
    and "guarded (kept g st0) (rotate_credential E g) (\<lambda>_. kept g st0) (kept g st0)"
  unfolding rotate_transport_def rotate_credential_def
   apply (rule guarded_the_inst, rule kept_rotate_one [OF F], rule refines_writes(1), assumption)
   apply (auto dest: tracked_eqD(1)) [1]
  apply (rule guarded_the_inst, rule kept_rotate_one [OF F], rule refines_writes(2), assumption)
  apply (auto dest: tracked_eqD(3)) [1]
  done

lemma kept_rotate_notifications:
  assumes F: "rotation_laws (cl E)"
  shows "guarded (kept g st0) (rotate_notifications E n g) (\<lambda>_. kept g st0) (kept g st0)"
proof -
  have current: "guarded (\<lambda>s. kept g st0 s \<and> inst s = i)
     (andthen (finalize_rotation E
        (case NotificationsTransportURLSecret (Status i) of None \<Rightarrow> [] | Some x \<Rightarrow> x) cur fin g)
        (\<lambda>name. set_status (\<lambda>st. st\<lparr>NotificationsTransportURLSecret := Some name\<rparr>)))
     (\<lambda>_. kept g st0) (kept g st0)" for i cur fin
    by (rule kept_rotate_one [OF F], rule refines_writes(3), assumption)
       (auto simp: notifications_of_def dest: tracked_eqD(2) split: option.splits)
  have dropped: "guarded (kept g st0)
     (andthen (invoke (aErr (cl E)) (RemoveSecretConsumerFinalizer ns old f)) (\<lambda>err.
      andthen (or_return err) (\<lambda>_.
      andthen (fcall (transportURLDeleted E m)) (\<lambda>err.
      andthen (or_return err) (\<lambda>_.
      set_status (\<lambda>st. st\<lparr>NotificationsTransportURLSecret := None\<rparr>))))))
     (\<lambda>_. kept g st0) (kept g st0)" if g for ns old f m
  proof -
    have delete: "always steady_names (fcall (transportURLDeleted E m))"
      unfolding transportURLDeleted_def by (intro calm_rules) simp
    show ?thesis
      by (intro guarded_andthen [OF kept_invoke] guarded_andthen [OF kept_or_return]
          guarded_andthen [OF kept_frame [OF delete]] kept_status)
         (use that refines_exchange in simp)
  qed
  show ?thesis
    unfolding rotate_notifications_def
    by (intro guarded_the_inst guarded_cases current guarded_ok guarded_pre [OF dropped]) auto
qed

lemma kept_mono: "kept b st0 s \<Longrightarrow> (b \<Longrightarrow> b') \<Longrightarrow> kept b' st0 s"
  by (auto simp: kept_def refines_rotation_def tracks_iff)

lemma kept_finish:
  assumes C: "condition_laws (cnd E)" and F: "rotation_laws (cl E)"
  shows "guarded (kept g st0)
    (andthen (rotate_transport E c g) (\<lambda>_.
     andthen (rotate_notifications E n g) (\<lambda>_.
     andthen (rotate_credential E g) (\<lambda>_.
     andthen (prune_phase E c n) (\<lambda>_.
     ready_phase E))))) (\<lambda>_. kept g st0) (kept g st0)"
proof -
  have "always steady_names (prune_phase E c n)" and "always steady_names (ready_phase E)"
    unfolding prune_phase_def ready_phase_def by (intro calm_rules C; simp)+
  then show ?thesis
    by (intro guarded_andthen [OF kept_rotate(1) [OF F]] guarded_andthen [OF kept_rotate_notifications [OF F]]
        guarded_andthen [OF kept_rotate(2) [OF F]] guarded_andthen [OF kept_frame] kept_frame)
qed

section \<open>The whole reconcile\<close>

definition rotated :: "ext \<Rightarrow> NeutronAPIStatus \<Rightarrow> rstate \<Rightarrow> bool" where
  "rotated E st0 s \<longleftrightarrow> kept (cleared E (trace s)) st0 s"

lemma rotated_kept: "kept False st0 s \<Longrightarrow> rotated E st0 s"
  unfolding rotated_def by (erule kept_mono) simp

lemma rotated_freed: "freed E g s \<Longrightarrow> kept g st0 s \<Longrightarrow> rotated E st0 s"
  unfolding rotated_def by (erule kept_mono) (simp add: freed_def)

lemma conclude_rotated:
  assumes C: "condition_laws (cnd E)" and F: "rotation_laws (cl E)"
  shows "guarded (\<lambda>s. rolling E all_deployments N s \<and> kept False st0 s) (conclude E c n)
     (\<lambda>_. rotated E st0) (rotated E st0)"
proof -
  let ?P = "\<lambda>s. rolling E all_deployments N s \<and> kept False st0 s"
  have accounts: "guarded ?P (accounts_phase E) (\<lambda>_. ?P) (rotated E st0)"
    using guarded_conj [OF cool_guarded [OF cool_of_calm [OF accounts_calm]]
        kept_frame [OF steady_names_calm [OF accounts_calm]]]
    by (rule guarded_post) (auto intro: rotated_kept)
  have guard: "guarded ?P (guard_ready E) (\<lambda>g s. freed E g s \<and> kept g st0 s) (rotated E st0)"
    using guard_guarded [OF C, of N] unfolding guard_ready_def guarded_def
    by (auto simp: prog_defs intro: kept_mono)
  note finish = guarded_conj [OF freed_finish [OF C] kept_finish [OF C F]]
  show ?thesis
    unfolding conclude_def
    by (intro guarded_andthen [OF accounts] guarded_andthen [OF guard] guarded_post [OF finish])
       (auto intro: rotated_freed)
qed

lemma reconcileNormal_rotated:
  assumes C: "condition_laws (cnd E)" and D: "deploy_laws (cl E)" and L: "pod_laws (pod E)"
    and B: "rbac_laws (cl E)" and F: "rotation_laws (cl E)"
  shows "guarded (\<lambda>s. (started E s \<and> rbac_present (inst s)) \<and> kept False st0 s) (reconcileNormal E)
     (\<lambda>_. rotated E st0) (rotated E st0)"
proof -
  have prep: "guarded (\<lambda>s. (started E s \<and> rbac_present (inst s)) \<and> kept False st0 s) (prepare E)
      (\<lambda>_ s. started E s \<and> kept False st0 s) (rotated E st0)"
    using guarded_conj [OF prepare_guarded [OF C B] kept_prepare [OF C]]
    by (rule guarded_post) (auto intro: rotated_kept)
  have depl: "guarded (\<lambda>s. started E s \<and> kept False st0 s) (deploy E mc an)
      (\<lambda>_ s. rolling E all_deployments all_deployments s \<and> kept False st0 s) (rotated E st0)" for mc an
    using guarded_conj [OF deploy_guarded [OF C D L] kept_frame [OF steady_names_deploy [OF C]]]
    by (rule guarded_post) (auto intro: rotated_kept)
  show ?thesis
    unfolding reconcileNormal_def
    by (rule guarded_andthen [OF prep])
       (auto intro!: guarded_andthen [OF depl] conclude_rotated [OF C F] split: prod.split)
qed

lemma kept_conditions:
  "guarded (kept b st0) (on_conds f) (\<lambda>_. kept b st0) R"
  unfolding on_conds_def
  by (rule kept_status)
     (simp add: refines_rotation_def transport_of_def notifications_of_def credential_of_def)

lemma reconcile_body_rotated:
  assumes C: "condition_laws (cnd E)" and D: "deploy_laws (cl E)" and L: "pod_laws (pod E)"
    and B: "rbac_laws (cl E)" and F: "rotation_laws (cl E)"
  shows "guarded (\<lambda>s. fetched E s \<and> kept False st0 s) (reconcile_body E isNew)
     (\<lambda>_. rotated E st0) (rotated E st0)"
proof (rule live_body_guarded)
  let ?P = "\<lambda>s. ready_to_work E s \<and> kept False st0 s"
  have weaken: "guarded P m Q (\<lambda>s. True \<and> kept False st0 s) \<Longrightarrow> guarded P m Q (rotated E st0)"
    for P and m :: "unit reconcile" and Q
    by (erule guarded_post) (auto intro: rotated_kept)
  show "guarded (\<lambda>s. fetched E s \<and> kept False st0 s)
      (on_conds (\<lambda>cs. CInit (cnd E) cs (init_conditions E)) :: unit reconcile) (\<lambda>_. ?P) (rotated E st0)"
    by (rule weaken, rule guarded_conj [OF init_guarded [OF C] kept_conditions])
  show "guarded ?P (set_status f :: unit reconcile) (\<lambda>_. ?P) (rotated E st0)"
    if "\<And>st. StatusConditions (f st) = StatusConditions st" "\<And>st. tracked (f st) = tracked st" for f
    by (rule weaken, rule guarded_conj [OF work_status kept_status])
       (use that tracked_eqD [OF that(2)] in
        \<open>simp_all add: refines_rotation_def transport_of_def notifications_of_def credential_of_def\<close>)
  have "guarded (kept False st0) (set_finalizers fs :: unit reconcile) (\<lambda>_. kept False st0) (kept False st0)" for fs
    unfolding set_finalizers_def by (rule guarded_update) (simp add: kept_def)
  then show "guarded ?P (set_finalizers fs :: unit reconcile) (\<lambda>_. ?P) (rotated E st0)" for fs
    by (intro weaken guarded_conj [OF work_finalizers])
  show "guarded ?P (reconcileNormal E) (\<lambda>_. rotated E st0) (rotated E st0)"
    by (rule guarded_pre [OF reconcileNormal_rotated [OF C D L B F]]) (simp add: ready_to_work_def)
qed (auto simp: ready_to_work_def fetched_def intro: rotated_kept)

lemma deferred_rotated:
  "guarded (rotated E st0) (deferred E saved a) (\<lambda>_. rotated E st0) (rotated E st0)"
proof -
  have set: "guarded (rotated E st0) (on_conds f) (\<lambda>_. rotated E st0) R" for f R
    unfolding on_conds_def set_status_def
    by (rule guarded_update)
       (simp add: rotated_def kept_def refines_rotation_def transport_of_def notifications_of_def
          credential_of_def)
  have patch: "guarded (rotated E st0) (invoke g (PatchInstance i)) (\<lambda>_. rotated E st0) R"
    for g :: "call list \<Rightarrow> goerror option" and i R
  proof (rule guarded_invoke)
    fix s assume "rotated E st0 s"
    then have "kept (cleared E (trace s @ [PatchInstance i])) st0 s"
      unfolding rotated_def by (rule kept_mono) (simp add: cleared_other)
    then show "rotated E st0 (s\<lparr>trace := trace s @ [PatchInstance i]\<rparr>)" by (simp add: rotated_def kept_def)
  qed
  show ?thesis
    unfolding deferred_def set_cond_def
    by (intro guarded_andthen [OF set] guarded_any_inst guarded_andthen [OF patch] guarded_cases set
        guarded_andthen [where Q = "\<lambda>_. rotated E st0"] guarded_ok guarded_ret)
qed

lemma Reconcile_rotated:
  assumes C: "condition_laws (cnd E)" and D: "deploy_laws (cl E)" and L: "pod_laws (pod E)"
    and B: "rbac_laws (cl E)" and F: "rotation_laws (cl E)"
    and i: "aInstance (cl E) [GetNeutronAPI name ns] = Inr i" and live: "DeletionTimestamp i = None"
    and s: "trace s = []" and j: "PatchInstance j \<in> set (trace (snd (Reconcile E name ns s)))"
  shows "refines_rotation (cleared E (trace (snd (Reconcile E name ns s)))) (Status i) (Status j)"
proof -
  let ?R = "\<lambda>s. list_all unpatched (trace s) \<or> rotated E (Status i) s"
  have body: "guarded (entered name ns i') (reconcile_body E isNew) (\<lambda>_. rotated E (Status i))
      (rotated E (Status i))" if "aInstance (cl E) [GetNeutronAPI name ns] = Inr i'" for i' isNew
    by (rule guarded_pre [OF reconcile_body_rotated [OF C D L B F]])
       (use that i live in \<open>auto simp: entered_def fetched_def kept_def calls_before_work [of _ name ns]
          refines_rotation_def tracks_iff transport_of_def notifications_of_def credential_of_def\<close>)
  have "guarded (\<lambda>s. trace s = []) (Reconcile E name ns) (\<lambda>_. ?R) ?R"
    by (rule Reconcile_guarded [OF body guarded_post [OF deferred_rotated]])
       (auto simp: list_all_iff)
  from guarded_final [OF this s] j unpatched_only
  have "rotated E (Status i) (snd (Reconcile E name ns s))" by blast
  moreover have "j = inst (snd (Reconcile E name ns s))"
    by (rule Reconcile_writes(3) [OF C D L B _ s j]) (use i live in simp)
  ultimately show ?thesis by (simp add: rotated_def kept_def)
qed

section \<open>Refinement\<close>

definition lawful :: "ext \<Rightarrow> bool" where
  "lawful E \<longleftrightarrow> condition_laws (cnd E) \<and> deploy_laws (cl E) \<and> pod_laws (pod E) \<and>
     rbac_laws (cl E) \<and> rotation_laws (cl E)"

lemma live_lawful: "lawful (plain_ext live_cluster)"
proof -
  have "rotation_laws live_cluster"
    by (simp add: rotation_laws_def live_cluster_def)
  then show ?thesis
    by (simp add: lawful_def list_conditions_laws plain_pod_laws live_cluster_laws)
qed

text \<open>
  C5. Rotation refines its specification: whatever resource a reconcile writes back, each of its
  three tracked credentials (transport URL, notifications, application credential) is related to
  the one the reconcile found by a step of the abstract machine, where an exchange is allowed only
  if every Deployment of the reconcile is written and confirmed with the hash it carries.
\<close>

theorem rotation_refined:
  assumes "lawful E" and "aInstance (cl E) [GetNeutronAPI name ns] = Inr i"
    and "DeletionTimestamp i = None" and "trace s = []"
    and "PatchInstance j \<in> set (trace (snd (Reconcile E name ns s)))"
  shows "refines_rotation (cleared E (trace (snd (Reconcile E name ns s)))) (Status i) (Status j)"
  using assms by (intro Reconcile_rotated) (simp_all add: lawful_def)

text \<open>
  A rollout that is not complete: the resource as it is stored, over user edits (which leave the
  status alone) and reconciles none of which saw the rollout complete. The cluster and the
  libraries may be different ones in each reconcile.
\<close>

inductive episode :: "NeutronAPI \<Rightarrow> NeutronAPI \<Rightarrow> bool" for i where
  start: "episode i i"
| edit: "episode i j \<Longrightarrow> Status k = Status j \<Longrightarrow> episode i k"
| reconcile: "episode i j \<Longrightarrow> lawful E \<Longrightarrow> DeletionTimestamp j = None \<Longrightarrow>
    aInstance (cl E) [GetNeutronAPI name ns] = Inr j \<Longrightarrow> trace s = [] \<Longrightarrow>
    \<not> cleared E (trace (snd (Reconcile E name ns s))) \<Longrightarrow>
    PatchInstance k \<in> set (trace (snd (Reconcile E name ns s))) \<Longrightarrow> episode i k"

lemma refines_trans:
  "refines_rotation False a b \<Longrightarrow> refines_rotation False b c \<Longrightarrow> refines_rotation False a c"
  by (auto simp: refines_rotation_def tracks_iff)

lemma episode_refines: "episode i j \<Longrightarrow> refines_rotation False (Status i) (Status j)"
proof (induction rule: episode.induct)
  case start
  show ?case by (rule refines_refl)
next
  case (edit j k)
  then show ?case by simp
next
  case (reconcile j E name ns s k)
  have "refines_rotation (cleared E (trace (snd (Reconcile E name ns s)))) (Status j) (Status k)"
    using reconcile by (intro Reconcile_rotated) (simp_all add: lawful_def)
  with reconcile show ?case by (auto intro: refines_trans)
qed

text \<open>
  C6. As long as no reconcile sees the rollout complete, the resource goes on tracking the
  credentials it tracked, through any number of reconciles, failures and rotations of the
  current credential, so the one the running pods use is never given up.
\<close>

theorem unfinished_rollout_keeps_credentials:
  assumes "episode i j"
  shows "(TransportURLSecret (Status i) \<noteq> [] \<longrightarrow>
      TransportURLSecret (Status j) = TransportURLSecret (Status i)) \<and>
    (\<forall>x. NotificationsTransportURLSecret (Status i) = Some x \<longrightarrow> x \<noteq> [] \<longrightarrow>
      NotificationsTransportURLSecret (Status j) = Some x) \<and>
    (ApplicationCredentialSecret (Status i) \<noteq> [] \<longrightarrow>
      ApplicationCredentialSecret (Status j) = ApplicationCredentialSecret (Status i))"
  using episode_refines [OF assms]
  by (auto simp: refines_rotation_def tracks_iff transport_of_def notifications_of_def
      credential_of_def named_def split: if_splits)

text \<open>A first reconcile: it adds the finalizer, writes the resource and returns.\<close>

definition unheld_api :: NeutronAPI where
  "unheld_api = live_api\<lparr>Finalizers := []\<rparr>"

definition first_ext :: ext where
  "first_ext = plain_ext (live_cluster\<lparr>aInstance := \<lambda>_. Inr unheld_api\<rparr>)"

definition first_run :: rstate where
  "first_run = snd (Reconcile first_ext ''neutron'' ''openstack'' fresh_state)"

lemma first_run_calls:
  "trace first_run = [GetNeutronAPI ''neutron'' ''openstack'', NewHelper, PatchInstance (inst first_run)]"
  by (simp add: first_run_def first_ext_def Reconcile_def with_deferred_def reconcile_body_def
      deferred_def first_pass_def set_finalizers_def or_return_def invoke_def the_inst_def prog_defs
      set_cond_def on_conds_def set_status_def live_answers fresh_fields plain_util_def
      unheld_api_def live_api_def blank_api_def split: option.split)

lemma first_lawful: "lawful first_ext"
  using live_lawful
  by (simp add: first_ext_def lawful_def deploy_laws_def rbac_laws_def rotation_laws_def)

lemma first_uncleared: "\<not> cleared first_ext (trace first_run)"
  by (simp add: first_run_calls cleared_def dealt_def gone_def)

lemma first_instance:
  "aInstance (cl first_ext) cs = Inr unheld_api" "DeletionTimestamp unheld_api = None"
  "TransportURLSecret (Status unheld_api) = ''old''"
  by (simp_all add: first_ext_def unheld_api_def live_api_def blank_api_def)

theorem rotation_refined_witness:
  "refines_rotation (cleared first_ext (trace first_run)) (Status unheld_api) (Status (inst first_run))"
  unfolding first_run_def
  by (rule rotation_refined [OF first_lawful])
     (use first_run_calls in \<open>simp_all add: first_instance fresh_fields flip: first_run_def\<close>)

theorem unfinished_rollout_keeps_credentials_witness:
  "TransportURLSecret (Status (inst first_run)) = ''old''"
proof -
  have "episode unheld_api (inst first_run)"
    by (rule episode.reconcile [OF episode.start first_lawful first_instance(2,1), of fresh_state "''neutron''" "''openstack''"])
       (use first_uncleared first_run_calls in \<open>simp_all add: fresh_fields flip: first_run_def\<close>)
  from unfinished_rollout_keeps_credentials [OF this] show ?thesis
    by (simp add: first_instance)
qed

end
