(* ===== verification/Healthy.thy ===== *)
theory Healthy
  imports RotationRefinement
begin

text \<open>
  A healthy cluster: every call succeeds, every object is ready and the pods can be built. The
  theory has the rules by which a phase of the reconciler is shown to run to its end there, one
  per kind of statement, each in the form that executes the first statement of a sequence.
\<close>

section \<open>What healthy means\<close>

definition answers_well :: "cluster \<Rightarrow> bool" where
  "answers_well c \<longleftrightarrow>
     (\<forall>cs. aErr c cs = None) \<and> (\<forall>cs. aResult c cs = (NoResult, None)) \<and>
     (\<forall>cs. CondType ` set (fst (aRbac c cs)) = rbac_types \<and>
        (\<forall>k \<in> set (fst (aRbac c cs)). CondStatus k = CondTrue) \<and> snd (aRbac c cs) = (NoResult, None)) \<and>
     (\<forall>cs. snd (aVerify c cs) = (NoResult, None)) \<and>
     (\<forall>cs. snd (aEnsure c cs) = None) \<and>
     (\<forall>cs. fst (aDB c cs) = (NoResult, None)) \<and>
     (\<forall>cs. fst (aJob c cs) = (NoResult, None)) \<and>
     (\<forall>cs. \<exists>x. aNAD c cs = Inr x) \<and> (\<forall>cs. \<exists>x. aAnnotations c cs = Inr x) \<and>
     (\<forall>cs. \<exists>x. aString c cs = Inr x) \<and> (\<forall>cs. \<exists>x. aService c cs = Inr x) \<and>
     (\<forall>cs ns old cur f. aString c (cs @ [FinalizeSecretRotation ns old cur f True]) = Inr cur) \<and>
     (\<forall>cs. \<exists>x. aTopology c cs = Inr x) \<and>
     (\<forall>cs. \<exists>x. aNetwork c cs = Inr (True, x)) \<and> (\<forall>cs. aBool c cs = Inr True)"

text \<open>The objects the operator reads, for a resource that needs them.\<close>

definition objects_ready :: "ext \<Rightarrow> NeutronAPI \<Rightarrow> bool" where
  "objects_ready E i \<longleftrightarrow>
     (\<forall>cs. \<exists>tu. aTransportURL (cl E) cs = Inr tu \<and> TUReady tu \<and> TUSecretName tu \<noteq> []) \<and>
     (\<forall>cs. \<exists>d. aSecret (cl E) cs = Inr d \<and> d ''transport_url'' \<noteq> None \<and>
        (AuthApplicationCredentialSecret (Spec i) \<noteq> [] \<longrightarrow>
           (\<exists>a b. d (ACIDSecretKey (ut E)) = Some a \<and> a \<noteq> [] \<and>
              d (ACSecretSecretKey (ut E)) = Some b \<and> b \<noteq> []))) \<and>
     (\<forall>cs. \<exists>mc. aMemcached (cl E) cs = Inr mc \<and> McReady mc) \<and>
     (\<forall>cs. \<exists>d. aDBCluster (cl E) cs = Inr d \<and> isl (ExternalEndpoint d) = False \<and>
        isl (InternalEndpoint d) = False) \<and>
     (\<forall>cs. \<exists>k. aKeystoneAPI (cl E) cs = Inr k \<and> isl (KeystoneEndpointURL k EndpointInternal) = False \<and>
        isl (KeystoneEndpointURL k EndpointPublic) = False) \<and>
     (\<forall>cs. fst (aKeystone (cl E) cs) = (NoResult, None) \<and>
        (\<forall>t. \<exists>k. CMirror (cnd E) (snd (aKeystone (cl E) cs)) t = Some k \<and> CondStatus k = CondTrue)) \<and>
     (\<forall>cs d n. \<exists>x. aDeployment (cl E) (cs @ [CreateOrPatchDeployment d n]) = ((NoResult, None), x) \<and>
        DSGeneration x = DSObservedGeneration x \<and> DSIsReady x) \<and>
     (\<forall>es. \<exists>h. ObjectHash (ut E) es = Inr h)"

text \<open>The pods of the resource can be built (no volume source and no certificate is missing).\<close>

definition buildable :: "ext \<Rightarrow> NeutronAPI \<Rightarrow> bool" where
  "buildable E i \<longleftrightarrow> (\<forall>st.
     (\<forall>ls an. \<exists>j. DbSyncJob (pod E) (i\<lparr>Status := st\<rparr>) ls an = Ok j) \<and>
     (\<forall>h ls an t mc w. \<exists>d. Deployment (pod E) (i\<lparr>Status := st\<rparr>) h ls an t mc w = Ok d) \<and>
     (\<forall>h ls an t mc. \<exists>d. RPCDeployment (pod E) (i\<lparr>Status := st\<rparr>) h ls an t mc = Ok d) \<and>
     (\<forall>h ls an t mc. \<exists>d. WorkerDeployment (pod E) (i\<lparr>Status := st\<rparr>) h ls an t mc = Ok d))"

text \<open>
  Further behaviour of the condition package: \<open>Init\<close> brings in no condition of its own, and
  conditions that are all True satisfy the two checks.
\<close>

definition condition_completeness :: "condlib \<Rightarrow> bool" where
  "condition_completeness C \<longleftrightarrow>
     (\<forall>cs l t. status_of l t = None \<longrightarrow> status_of (CInit C cs l) t \<in> {None, status_of cs t}) \<and>
     (\<forall>cs. all_others_true cs \<longrightarrow> AllSubConditionIsTrue C cs \<and> CredentialRotationGuardReady C True cs)"

definition healthy :: "ext \<Rightarrow> NeutronAPI \<Rightarrow> bool" where
  "healthy E i \<longleftrightarrow> condition_laws (cnd E) \<and> condition_completeness (cnd E) \<and> util_laws (ut E) \<and>
     ensure_laws (cl E) \<and> answers_well (cl E) \<and> objects_ready E i \<and> buildable E i"

lemma healthyD:
  assumes "healthy E i"
  shows "condition_laws (cnd E)" "condition_completeness (cnd E)" "util_laws (ut E)"
    "ensure_laws (cl E)" "answers_well (cl E)" "objects_ready E i" "buildable E i"
  using assms by (simp_all add: healthy_def)

section \<open>The state of a reconcile that goes well\<close>

definition known_types :: "ctype set" where
  "known_types = fst ` set init_messages \<union> {MariaDBAccountReadyCondition, TLSInputReadyCondition,
     TopologyReadyCondition, NeutronRPCReadyCondition, NeutronWorkerReadyCondition}"

text \<open>
  The resource is \<open>i\<close> but for its status; the conditions of the types in \<open>T\<close> are True or absent;
  if \<open>b\<close> the input hash is recorded; \<open>X\<close> holds of the tracked credentials.
\<close>

definition good :: "ext \<Rightarrow> NeutronAPI \<Rightarrow> ctype set \<Rightarrow> bool \<Rightarrow> (string \<times> string option \<times> string \<Rightarrow> bool)
    \<Rightarrow> rstate \<Rightarrow> bool" where
  "good E i T b X s \<longleftrightarrow> (\<exists>st. inst s = i\<lparr>Status := st\<rparr>) \<and> Hash (st_of s) \<noteq> None \<and>
     (b \<longrightarrow> get_hash (inst s) (InputHashName (ut E)) \<noteq> None) \<and>
     (\<forall>t \<in> T. cond_status s t \<in> {None, Some CondTrue}) \<and>
     (\<forall>t. cond_status s t \<noteq> None \<longrightarrow> t \<in> known_types) \<and> X (tracked (st_of s))"

lemma good_inst: "good E i T b X s \<Longrightarrow> \<exists>st. inst s = i\<lparr>Status := st\<rparr>"
  by (simp add: good_def)

lemma good_status:
  assumes "good E i T b X s" and "inst t = (inst s)\<lparr>Status := st\<rparr>"
    and "Hash st \<noteq> None" and "b \<Longrightarrow> \<exists>h. Hash st = Some h \<and> h (InputHashName (ut E)) \<noteq> None"
    and "\<And>c. c \<in> T' \<Longrightarrow> status_of (conds st) c \<in> {None, Some CondTrue}"
    and "\<And>c. status_of (conds st) c \<noteq> None \<Longrightarrow> c \<in> known_types" and "X' (tracked st)"
  shows "good E i T' b X' t"
  using assms by (auto simp: good_def get_hash_def)

section \<open>One statement at a time\<close>

lemma triple_first:
  assumes "\<And>s. P s \<Longrightarrow> \<exists>x t. m s = (Next x, t) \<and> Q' x t" and "\<And>x. triple (Q' x) (k x) Q R"
  shows "triple P (andthen m k) Q R"
  by (rule triple_andthen [where Q = Q'])
     (use assms in \<open>auto simp: triple_def split: prod.split outcome.split, fastforce+\<close>)

lemma h_inst:
  assumes "\<And>st. triple (good E i T b X) (k (i\<lparr>Status := st\<rparr>)) Q R"
  shows "triple (good E i T b X) (andthen the_inst k) Q R"
  unfolding triple_def
proof (intro allI impI)
  fix s assume s: "good E i T b X s"
  then obtain st where "inst s = i\<lparr>Status := st\<rparr>" using good_inst by blast
  with assms [of st] s show "case andthen the_inst k s of (Next x, t) \<Rightarrow> Q x t | (Return r, t) \<Rightarrow> R r t
      | (Panic _, _) \<Rightarrow> False"
    by (simp add: triple_def andthen_def the_inst_def reads_def)
qed

lemma h_invoke:
  assumes "\<And>cs. triple (good E i T b X) (k (f (cs @ [c]))) Q R"
  shows "triple (good E i T b X) (andthen (invoke f c) k) Q R"
  unfolding triple_def
proof (intro allI impI)
  fix s assume "good E i T b X s"
  then have "good E i T b X (s\<lparr>trace := trace s @ [c]\<rparr>)" by (simp add: good_def)
  with assms [of "trace s"] show "case andthen (invoke f c) k s of (Next x, t) \<Rightarrow> Q x t
      | (Return r, t) \<Rightarrow> R r t | (Panic _, _) \<Rightarrow> False"
    by (simp add: triple_def andthen_def invoke_def)
qed

lemma h_update:
  assumes "\<And>s. good E i T b X s \<Longrightarrow> good E i T' b' X' (f s)" and "triple (good E i T' b' X') (k ()) Q R"
  shows "triple (good E i T b X) (andthen (update f) k) Q R"
  using assms by (simp add: triple_def andthen_def update_def)

lemma h_vars: "triple (good E i T b X) (k ()) Q R \<Longrightarrow>
    triple (good E i T b X) (andthen (update (\<lambda>s. s\<lparr>vars := f s\<rparr>)) k) Q R"
  by (rule h_update) (auto simp: good_def)

lemma h_set_var: "triple (good E i T b X) (k ()) Q R \<Longrightarrow>
    triple (good E i T b X) (andthen (set_var n v) k) Q R"
  unfolding set_var_def by (rule h_vars)

lemma h_set_status:
  assumes "triple (good E i T b X') (k ()) Q R"
    and "\<And>st. Hash (f st) = Hash st" and "\<And>st. conds (f st) = conds st"
    and "\<And>st. X (tracked st) \<Longrightarrow> X' (tracked (f st))"
  shows "triple (good E i T b X) (andthen (set_status f) k) Q R"
  unfolding set_status_def
  by (rule h_update [where k = k, OF _ assms(1)]) (use assms(2-) in \<open>auto simp: good_def get_hash_def\<close>)

lemma h_conds:
  assumes "triple (good E i T' b X) (k ()) Q R"
    and "\<And>cs c. (\<And>c. c \<in> T \<Longrightarrow> status_of cs c \<in> {None, Some CondTrue}) \<Longrightarrow> c \<in> T' \<Longrightarrow>
      status_of (f cs) c \<in> {None, Some CondTrue}"
    and "\<And>cs c. (\<And>c. status_of cs c \<noteq> None \<Longrightarrow> c \<in> known_types) \<Longrightarrow> status_of (f cs) c \<noteq> None \<Longrightarrow>
      c \<in> known_types"
  shows "triple (good E i T b X) (andthen (on_conds f) k) Q R"
  unfolding on_conds_def set_status_def
proof (rule h_update [where k = k, OF _ assms(1)])
  fix s assume s: "good E i T b X s"
  show "good E i T' b X (s\<lparr>inst := (inst s)\<lparr>Status := (st_of s)\<lparr>StatusConditions :=
      Some (f (conds (st_of s)))\<rparr>\<rparr>\<rparr>)"
  proof (rule good_status [OF s])
    fix c assume "c \<in> T'"
    with s assms(2) [of "conds (st_of s)" c] show "status_of (conds ((st_of s)\<lparr>StatusConditions :=
        Some (f (conds (st_of s)))\<rparr>)) c \<in> {None, Some CondTrue}" by (simp add: good_def)
  next
    fix c assume "status_of (conds ((st_of s)\<lparr>StatusConditions := Some (f (conds (st_of s)))\<rparr>)) c \<noteq> None"
    with s assms(3) [of "conds (st_of s)" c] show "c \<in> known_types" by (simp add: good_def)
  qed (use s in \<open>auto simp: good_def get_hash_def on_conds_tracked\<close>)
qed

lemma h_mark:
  assumes C: "condition_laws (cnd E)" and "t \<in> known_types"
    and "triple (good E i (insert t T) b X) (k ()) Q R"
  shows "triple (good E i T b X) (andthen (mark_true E t m) k) Q R"
  unfolding mark_true_def
  by (rule h_conds [where k = k, OF assms(3)]) (use assms(2) in \<open>auto simp: condition_simps [OF C] split: if_splits\<close>)

lemma h_set_cond:
  assumes C: "condition_laws (cnd E)" and "CondType c = t" and "CondStatus c = CondTrue" and "t \<in> known_types"
    and "triple (good E i (insert t T) b X) (k ()) Q R"
  shows "triple (good E i T b X) (andthen (set_cond E c) k) Q R"
  unfolding set_cond_def
  by (rule h_conds [where k = k, OF assms(5)]) (use assms(2-4) in \<open>auto simp: condition_simps [OF C] split: if_splits\<close>)

lemma h_false:
  assumes C: "condition_laws (cnd E)" and "t \<in> known_types"
    and "triple (good E i (T - {t}) b X) (k ()) Q R"
  shows "triple (good E i T b X) (andthen (set_false E t r v m a) k) Q R"
  unfolding set_false_def set_cond_def
  by (rule h_conds [where k = k, OF assms(3)]) (use assms(2) in \<open>auto simp: condition_simps [OF C] split: if_splits\<close>)

lemma h_remove:
  assumes C: "condition_laws (cnd E)" and "triple (good E i (insert t T) b X) (k ()) Q R"
  shows "triple (good E i T b X) (andthen (remove_cond E t) k) Q R"
  unfolding remove_cond_def
  by (rule h_conds [where k = k, OF assms(2)]) (auto simp: condition_simps [OF C] split: if_splits)

lemma h_put_hash:
  assumes "triple (good E i T b X) (k ()) Q R"
  shows "triple (good E i T b X) (andthen (put_hash n v) k) Q R"
  unfolding triple_def
proof (intro allI impI)
  fix s assume s: "good E i T b X s"
  then obtain h where h: "Hash (st_of s) = Some h" by (auto simp: good_def)
  let ?t = "s\<lparr>inst := (inst s)\<lparr>Status := (st_of s)\<lparr>Hash := Some (h(n \<mapsto> v))\<rparr>\<rparr>\<rparr>"
  have "good E i T b X ?t"
    by (rule good_status [OF s]) (use s h in \<open>auto simp: good_def get_hash_def\<close>)
  with assms show "case andthen (put_hash n v) k s of (Next x, t) \<Rightarrow> Q x t | (Return r, t) \<Rightarrow> R r t
      | (Panic _, _) \<Rightarrow> False"
    by (simp add: triple_def put_hash_def the_inst_def set_status_def prog_defs h)
qed

lemma h_delete_hash:
  "triple (good E i T False X) (k ()) Q R \<Longrightarrow> triple (good E i T False X) (andthen (delete_hash n) k) Q R"
  unfolding delete_hash_def set_status_def by (rule h_update) (auto simp: good_def)

text \<open>Calls of functions and of other phases.\<close>

lemma h_fcall:
  assumes "triple P m (\<lambda>_ _. False) R'" and "\<And>x. triple (R' x) (k x) Q R"
  shows "triple P (andthen (fcall m) k) Q R"
  by (rule triple_andthen [OF triple_fcall assms(2)]) (rule triple_post [OF assms(1)], auto)

lemma h_phase:
  assumes "triple P m Q' (\<lambda>_ _. False)" and "\<And>x. triple (Q' x) (k x) Q R"
  shows "triple P (andthen m k) Q R"
  by (rule triple_andthen [OF triple_post [OF assms(1)] assms(2)]) auto

lemma triple_known: "(b \<Longrightarrow> triple P m Q R) \<Longrightarrow> triple (\<lambda>s. b \<and> P s) m Q R"
  by (cases b) (simp_all add: triple_def)

lemma fcall_ret: "fcall (ret x) = ok x"
  by (rule ext) (simp add: fcall_def ret_def ok_def)

lemma triple_never [simp]: "triple (\<lambda>_. False) m Q R"
  by (simp add: triple_def)

lemma triple_tail: "triple P (andthen m ok) Q R \<Longrightarrow> triple P m Q R"
  by (simp add: triple_def andthen_def ok_def split: prod.splits outcome.splits)

lemma good_mono: "good E i T b X s \<Longrightarrow> T' \<subseteq> T \<Longrightarrow> good E i T' b X s"
  by (auto simp: good_def)

lemma h_ok: "T' \<subseteq> T \<Longrightarrow> triple (good E i T b X) (ok x) (\<lambda>_. good E i T' b X) R"
  by (rule triple_ok) (erule good_mono)

lemma h_ret: "T' \<subseteq> T \<Longrightarrow> triple (good E i T b X) (ret x) Q (\<lambda>_. good E i T' b X)"
  by (rule triple_ret) (erule good_mono)

section \<open>The answers of a healthy cluster\<close>

lemma h_inr:
  assumes "\<forall>cs. \<exists>x. f cs = Inr x \<and> W x" and "\<And>x. W x \<Longrightarrow> triple (good E i T b X) (k (Inr x)) Q R"
  shows "triple (good E i T b X) (andthen (invoke f c) k) Q R"
proof (rule h_invoke)
  fix cs
  from assms(1) obtain x where "f (cs @ [c]) = Inr x" and "W x" by blast
  with assms(2) show "triple (good E i T b X) (k (f (cs @ [c]))) Q R" by simp
qed

lemma h_pair:
  assumes "\<forall>cs. fst (f cs) = v \<and> W (snd (f cs))"
    and "\<And>x. W x \<Longrightarrow> triple (good E i T b X) (k (v, x)) Q R"
  shows "triple (good E i T b X) (andthen (invoke f c) k) Q R"
proof (rule h_invoke)
  fix cs
  from assms(1) have "f (cs @ [c]) = (v, snd (f (cs @ [c])))" and "W (snd (f (cs @ [c])))"
    by (metis prod.collapse)+
  with assms(2) show "triple (good E i T b X) (k (f (cs @ [c]))) Q R" by metis
qed

lemma h_calls:
  assumes H: "healthy E i"
  shows h_err: "triple (good E i T b X) (k1 None) Q R \<Longrightarrow>
      triple (good E i T b X) (andthen (invoke (aErr (cl E)) c) k1) Q R"
    and h_result: "triple (good E i T b X) (k2 (NoResult, None)) Q R \<Longrightarrow>
      triple (good E i T b X) (andthen (invoke (aResult (cl E)) c) k2) Q R"
    and h_verify: "(\<And>h. triple (good E i T b X) (k3 (h, NoResult, None)) Q R) \<Longrightarrow>
      triple (good E i T b X) (andthen (invoke (aVerify (cl E)) c) k3) Q R"
    and h_db: "(\<And>x. triple (good E i T b X) (k4 ((NoResult, None), x)) Q R) \<Longrightarrow>
      triple (good E i T b X) (andthen (invoke (aDB (cl E)) c) k4) Q R"
    and h_job: "(\<And>x. triple (good E i T b X) (k5 ((NoResult, None), x)) Q R) \<Longrightarrow>
      triple (good E i T b X) (andthen (invoke (aJob (cl E)) c) k5) Q R"
    and h_nad: "(\<And>x. triple (good E i T b X) (k6 (Inr x)) Q R) \<Longrightarrow>
      triple (good E i T b X) (andthen (invoke (aNAD (cl E)) c) k6) Q R"
    and h_annotations: "(\<And>x. triple (good E i T b X) (k7 (Inr x)) Q R) \<Longrightarrow>
      triple (good E i T b X) (andthen (invoke (aAnnotations (cl E)) c) k7) Q R"
    and h_string: "(\<And>x. triple (good E i T b X) (k8 (Inr x)) Q R) \<Longrightarrow>
      triple (good E i T b X) (andthen (invoke (aString (cl E)) c) k8) Q R"
    and h_service: "(\<And>x. triple (good E i T b X) (k9 (Inr x)) Q R) \<Longrightarrow>
      triple (good E i T b X) (andthen (invoke (aService (cl E)) c) k9) Q R"
    and h_topology: "(\<And>x. triple (good E i T b X) (k10 (Inr x)) Q R) \<Longrightarrow>
      triple (good E i T b X) (andthen (invoke (aTopology (cl E)) c) k10) Q R"
    and h_network: "(\<And>x. triple (good E i T b X) (k11 (Inr (True, x))) Q R) \<Longrightarrow>
      triple (good E i T b X) (andthen (invoke (aNetwork (cl E)) c) k11) Q R"
    and h_bool: "triple (good E i T b X) (k12 (Inr True)) Q R \<Longrightarrow>
      triple (good E i T b X) (andthen (invoke (aBool (cl E)) c) k12) Q R"
  subgoal by (rule h_invoke) (use healthyD(5) [OF H] in \<open>simp add: answers_well_def\<close>)
  subgoal by (rule h_invoke) (use healthyD(5) [OF H] in \<open>simp add: answers_well_def\<close>)
  subgoal by (rule h_invoke) (use healthyD(5) [OF H] in \<open>simp add: answers_well_def, metis prod.collapse\<close>)
  subgoal by (rule h_pair [where W = "\<lambda>_. True"]) (use healthyD(5) [OF H] in \<open>simp_all add: answers_well_def\<close>)
  subgoal by (rule h_pair [where W = "\<lambda>_. True"]) (use healthyD(5) [OF H] in \<open>simp_all add: answers_well_def\<close>)
  subgoal by (rule h_inr [where W = "\<lambda>_. True"]) (use healthyD(5) [OF H] in \<open>simp_all add: answers_well_def\<close>)
  subgoal by (rule h_inr [where W = "\<lambda>_. True"]) (use healthyD(5) [OF H] in \<open>simp_all add: answers_well_def\<close>)
  subgoal by (rule h_inr [where W = "\<lambda>_. True"]) (use healthyD(5) [OF H] in \<open>simp_all add: answers_well_def\<close>)
  subgoal by (rule h_inr [where W = "\<lambda>_. True"]) (use healthyD(5) [OF H] in \<open>simp_all add: answers_well_def\<close>)
  subgoal by (rule h_inr [where W = "\<lambda>_. True"]) (use healthyD(5) [OF H] in \<open>simp_all add: answers_well_def\<close>)
  subgoal
    by (rule h_inr [where W = fst]) (use healthyD(5) [OF H] in \<open>simp add: answers_well_def, fastforce simp: answers_well_def\<close>,
        use prod.collapse in metis)
  subgoal by (rule h_invoke) (use healthyD(5) [OF H] in \<open>simp add: answers_well_def\<close>)
  done

lemma h_objects:
  assumes H: "healthy E i"
  shows h_transport: "(\<And>tu. TUReady tu \<Longrightarrow> TUSecretName tu \<noteq> [] \<Longrightarrow> triple (good E i T b X) (k1 (Inr tu)) Q R) \<Longrightarrow>
      triple (good E i T b X) (andthen (invoke (aTransportURL (cl E)) c) k1) Q R"
    and h_secret: "(\<And>d. \<exists>u. d ''transport_url'' = Some u \<Longrightarrow>
        (AuthApplicationCredentialSecret (Spec i) \<noteq> [] \<Longrightarrow>
           \<exists>a b. d (ACIDSecretKey (ut E)) = Some a \<and> a \<noteq> [] \<and>
              d (ACSecretSecretKey (ut E)) = Some b \<and> b \<noteq> []) \<Longrightarrow>
        triple (good E i T b X) (k2 (Inr d)) Q R) \<Longrightarrow>
      triple (good E i T b X) (andthen (invoke (aSecret (cl E)) c) k2) Q R"
    and h_memcached: "(\<And>mc. McReady mc \<Longrightarrow> triple (good E i T b X) (k3 (Inr mc)) Q R) \<Longrightarrow>
      triple (good E i T b X) (andthen (invoke (aMemcached (cl E)) c) k3) Q R"
    and h_dbcluster: "(\<And>d. \<not> isl (ExternalEndpoint d) \<Longrightarrow> \<not> isl (InternalEndpoint d) \<Longrightarrow>
        triple (good E i T b X) (k4 (Inr d)) Q R) \<Longrightarrow>
      triple (good E i T b X) (andthen (invoke (aDBCluster (cl E)) c) k4) Q R"
    and h_keystoneapi: "(\<And>k. \<not> isl (KeystoneEndpointURL k EndpointInternal) \<Longrightarrow>
        \<not> isl (KeystoneEndpointURL k EndpointPublic) \<Longrightarrow> triple (good E i T b X) (k5 (Inr k)) Q R) \<Longrightarrow>
      triple (good E i T b X) (andthen (invoke (aKeystoneAPI (cl E)) c) k5) Q R"
    and h_keystone: "(\<And>cs. (\<And>t. \<exists>k. CMirror (cnd E) cs t = Some k \<and> CondStatus k = CondTrue) \<Longrightarrow>
        triple (good E i T b X) (k6 ((NoResult, None), cs)) Q R) \<Longrightarrow>
      triple (good E i T b X) (andthen (invoke (aKeystone (cl E)) c) k6) Q R"
    and h_deployment: "(\<And>d. DSGeneration d = DSObservedGeneration d \<Longrightarrow> DSIsReady d \<Longrightarrow>
        triple (good E i T b X) (k7 ((NoResult, None), d)) Q R) \<Longrightarrow>
      triple (good E i T b X) (andthen (invoke (aDeployment (cl E)) (CreateOrPatchDeployment o7 n7)) k7) Q R"
  subgoal
    by (rule h_inr [where W = "\<lambda>tu. TUReady tu \<and> TUSecretName tu \<noteq> []"])
       (use healthyD(6) [OF H] in \<open>simp add: objects_ready_def\<close>, blast)
  subgoal
    by (rule h_inr [where W = "\<lambda>d. d ''transport_url'' \<noteq> None \<and>
          (AuthApplicationCredentialSecret (Spec i) \<noteq> [] \<longrightarrow>
             (\<exists>a b. d (ACIDSecretKey (ut E)) = Some a \<and> a \<noteq> [] \<and>
                d (ACSecretSecretKey (ut E)) = Some b \<and> b \<noteq> []))"])
       (use healthyD(6) [OF H] in \<open>simp add: objects_ready_def\<close>, blast)
  subgoal
    by (rule h_inr [where W = McReady]) (use healthyD(6) [OF H] in \<open>auto simp: objects_ready_def\<close>)
  subgoal
    by (rule h_inr [where W = "\<lambda>d. \<not> isl (ExternalEndpoint d) \<and> \<not> isl (InternalEndpoint d)"])
       (use healthyD(6) [OF H] in \<open>auto simp: objects_ready_def\<close>)
  subgoal
    by (rule h_inr [where W = "\<lambda>k. \<not> isl (KeystoneEndpointURL k EndpointInternal) \<and>
          \<not> isl (KeystoneEndpointURL k EndpointPublic)"])
       (use healthyD(6) [OF H] in \<open>auto simp: objects_ready_def\<close>)
  subgoal
    by (rule h_pair [where W = "\<lambda>cs. \<forall>t. \<exists>k. CMirror (cnd E) cs t = Some k \<and> CondStatus k = CondTrue"])
       (use healthyD(6) [OF H] in \<open>simp add: objects_ready_def\<close>, blast)
  subgoal
    by (rule h_invoke) (use healthyD(6) [OF H] in \<open>simp add: objects_ready_def, metis\<close>)
  done

lemmas healthy_steps = h_mark [OF healthyD(1)] h_remove [OF healthyD(1)] h_false [OF healthyD(1)]
  h_calls h_objects
lemmas plain_steps = h_inst h_vars h_set_var h_put_hash

text \<open>A statement at the end of a phase.\<close>

lemmas healthy_ends = healthy_steps [THEN triple_tail]

abbreviation any_tracked :: "string \<times> string option \<times> string \<Rightarrow> bool" where
  "any_tracked \<equiv> \<lambda>_. True"

abbreviation runs_well :: "ext \<Rightarrow> NeutronAPI \<Rightarrow> ctype set \<Rightarrow> bool \<Rightarrow> 'a reconcile \<Rightarrow> ctype set \<Rightarrow> bool \<Rightarrow> bool" where
  "runs_well E i T b m T' b' \<equiv>
     triple (good E i T b any_tracked) m (\<lambda>_. good E i T' b' any_tracked) (\<lambda>_ _. False)"

lemma known [simp]:
  "RabbitMqTransportURLReadyCondition \<in> known_types" "NotificationBusInstanceReadyCondition \<in> known_types"
  "InputReadyCondition \<in> known_types" "MemcachedReadyCondition \<in> known_types"
  "NeutronExternalConfigsReady \<in> known_types" "MariaDBAccountReadyCondition \<in> known_types"
  "DBReadyCondition \<in> known_types" "TLSInputReadyCondition \<in> known_types"
  "ServiceConfigReadyCondition \<in> known_types" "DBSyncReadyCondition \<in> known_types"
  "CreateServiceReadyCondition \<in> known_types" "KeystoneServiceReadyCondition \<in> known_types"
  "KeystoneEndpointReadyCondition \<in> known_types" "TopologyReadyCondition \<in> known_types"
  "NetworkAttachmentsReadyCondition \<in> known_types" "DeploymentReadyCondition \<in> known_types"
  "NeutronRPCReadyCondition \<in> known_types" "NeutronWorkerReadyCondition \<in> known_types"
  "ReadyCondition \<in> known_types"
  by (simp_all add: known_types_def init_messages_def)

lemma h_set_any:
  assumes "triple (good E i T b any_tracked) (k ()) Q R"
    and "\<And>st. Hash (f st) = Hash st" and "\<And>st. conds (f st) = conds st"
  shows "triple (good E i T b any_tracked) (andthen (set_status f) k) Q R"
  by (rule h_set_status [where k = k, OF assms(1)]) (simp_all add: assms(2,3))

lemmas well = plain_steps h_set_any h_ok h_ret

section \<open>Inputs\<close>

lemma transport_runs:
  assumes H: "healthy E i"
  shows "triple (good E i T b any_tracked) (transport_phase E)
    (\<lambda>n s. n \<noteq> [] \<and> good E i T b any_tracked s) (\<lambda>_ _. False)"
  unfolding transport_phase_def transportURLCreateOrUpdate_def andthen_assoc Let_def
  by (auto intro!: healthy_steps [OF H] plain_steps h_set_any triple_ok
      simp: or_return_def conds_def)

lemma verify_runs:
  assumes H: "healthy E i"
  shows "runs_well E i T b (verify_phase E n fs r v) T b"
  unfolding verify_phase_def by (auto intro!: healthy_steps [OF H] well)

lemma notifications_runs:
  assumes H: "healthy E i"
  shows "triple (good E i T b any_tracked) (notifications_phase E)
    (\<lambda>notif s. (\<forall>tu. notif = Some tu \<longrightarrow> TUSecretName tu \<noteq> []) \<and>
       good E i (insert NotificationBusInstanceReadyCondition T) b any_tracked s) (\<lambda>_ _. False)"
  unfolding notifications_phase_def transportURLCreateOrUpdate_def andthen_assoc
  by (rule h_inst)
     (auto intro!: healthy_steps [OF H] plain_steps h_set_any triple_ok h_phase [OF verify_runs [OF H]]
       simp: or_return_def conds_def split: option.split)

lemma transport_verify_runs:
  assumes H: "healthy E i"
  shows "runs_well E i T b (transport_verify_phase E n) (insert RabbitMqTransportURLReadyCondition T) b"
  unfolding transport_verify_phase_def
  by (auto intro!: well h_phase [OF verify_runs [OF H]] healthy_ends [OF H])

lemma password_runs:
  assumes H: "healthy E i"
  shows "runs_well E i T b (password_phase E) (insert InputReadyCondition T) b"
  unfolding password_phase_def
  by (auto intro!: well h_phase [OF verify_runs [OF H]] healthy_ends [OF H])

lemma memcached_runs:
  assumes H: "healthy E i"
  shows "runs_well E i T b (memcached_phase E) (insert MemcachedReadyCondition T) b"
  unfolding memcached_phase_def by (auto intro!: healthy_steps [OF H] well)

section \<open>External Secrets\<close>

abbreviation succeeds :: "ext \<Rightarrow> NeutronAPI \<Rightarrow> ctype set \<Rightarrow> bool \<Rightarrow> fallible \<Rightarrow> bool" where
  "succeeds E i T b m \<equiv> triple (good E i T b any_tracked) m (\<lambda>_ _. False)
     (\<lambda>e s. e = None \<and> good E i T b any_tracked s)"

lemma h_ret_nil: "triple (good E i T b X) (ret None) Q (\<lambda>e s. e = None \<and> good E i T b X s)"
  by (rule triple_ret) simp

lemma h_success:
  assumes "succeeds E i T b m" and "triple (good E i T b any_tracked) (k None) Q R"
  shows "triple (good E i T b any_tracked) (andthen (fcall m) k) Q R"
  by (rule h_fcall [OF assms(1)]) (rule triple_known, simp add: assms(2))

lemma h_ensure:
  assumes H: "healthy E i"
    and k: "\<And>vs. (\<And>n. n \<in> TName ` set ts \<Longrightarrow> map_of vs n \<noteq> None) \<Longrightarrow>
      triple (\<lambda>s. vars s = vs \<and> good E i T b X s) (k None) Q R"
  shows "triple (good E i T b X) (andthen (ensure_secrets E ts) k) Q R"
  unfolding triple_def
proof (intro allI impI)
  fix s assume s: "good E i T b X s"
  let ?cs = "trace s @ [EnsureSecrets ts]"
  let ?vs = "fold (\<lambda>(k, h). AList.update k (SetValue (pod E) h)) (fst (aEnsure (cl E) ?cs)) (vars s)"
  let ?t = "s\<lparr>trace := ?cs, vars := ?vs\<rparr>"
  have err: "snd (aEnsure (cl E) ?cs) = None"
    using healthyD(5) [OF H] by (simp add: answers_well_def)
  then have "aEnsure (cl E) ?cs = (fst (aEnsure (cl E) ?cs), None)" by (metis prod.collapse)
  with healthyD(4) [OF H] have "TName ` set ts \<subseteq> fst ` set (fst (aEnsure (cl E) ?cs))"
    unfolding ensure_laws_def by blast
  then have "map_of ?vs n \<noteq> None" if "n \<in> TName ` set ts" for n
    using that map_of_fold_update [of n "fst (aEnsure (cl E) ?cs)" "SetValue (pod E)" "vars s"] by auto
  moreover have "good E i T b X ?t" using s by (simp add: good_def)
  ultimately have "case k None ?t of (Next x, t) \<Rightarrow> Q x t | (Return r, t) \<Rightarrow> R r t | (Panic _, _) \<Rightarrow> False"
    using k [of ?vs] by (simp add: triple_def)
  with err show "case andthen (ensure_secrets E ts) k s of (Next x, t) \<Rightarrow> Q x t | (Return r, t) \<Rightarrow> R r t
      | (Panic _, _) \<Rightarrow> False"
    by (simp add: ensure_secrets_def prog_defs invoke_def case_prod_unfold)
qed

lemma h_reads: "triple P (k v) Q R \<Longrightarrow> triple (\<lambda>s. f s = v \<and> P s) (andthen (reads f) k) Q R"
  by (simp add: triple_def andthen_def reads_def)

lemma ensure_external_succeeds:
  assumes H: "healthy E i"
  shows "succeeds E i T b (ensureExternalSecret E n ts ps)"
  unfolding ensureExternalSecret_def
proof (rule h_inst, rule h_ensure [OF H])
  fix st and vs :: envvars
  let ?R = "\<lambda>e s. e = None \<and> good E i T b any_tracked s"
  assume "\<And>n'. n' \<in> TName ` set [\<lparr>TName = n, TNamespace = Namespace (i\<lparr>Status := st\<rparr>), TType = TemplateTypeNone,
         TInstanceType = Kind (i\<lparr>Status := st\<rparr>), TCustomData = [],
         TLabels = GetLabels (ut E) (Name (i\<lparr>Status := st\<rparr>)) ServiceName, TConfigOptions = ps,
         TAdditionalTemplate = ts, TCommonTemplates = []\<rparr>] \<Longrightarrow> map_of vs n' \<noteq> None"
  then obtain f where f: "map_of vs n = Some f" by auto
  have put: "triple (good E i T b any_tracked) (andthen (put_hash n v) (\<lambda>_. ret None)) (\<lambda>_ _. False) ?R" for v
    by (intro h_put_hash h_ret_nil)
  show "triple (\<lambda>s. vars s = vs \<and> good E i T b any_tracked s) (case None of Some e \<Rightarrow> ret (Some e)
     | None \<Rightarrow>
         andthen (reads vars) (\<lambda>envVars.
         case map_of envVars n of
           None \<Rightarrow> panic ''call of a nil setter''
         | Some setter \<Rightarrow>
             andthen (put_hash n (EnvValue (setter \<lparr>EnvName = [], EnvValue = []\<rparr>))) (\<lambda>_.
             ret None))) (\<lambda>_ _. False) ?R"
    unfolding option.case by (rule h_reads) (simp add: f put)
qed

lemma withdraw_succeeds:
  assumes H: "healthy E i"
  shows "succeeds E i T False (withdraw E what n)"
proof -
  have "succeeds E i T False (deleteExternalSecret E n)"
    unfolding deleteExternalSecret_def
    by (rule h_inst, rule h_err [OF H]) (simp add: h_delete_hash h_ret_nil)
  then show ?thesis
    unfolding withdraw_def by (rule h_success) (simp add: h_ret_nil)
qed

lemma publish_succeeds: "succeeds E i T b m \<Longrightarrow> succeeds E i T b (publish what m)"
  unfolding publish_def by (erule h_success) (simp add: h_ret_nil)

lemma agents_succeed:
  assumes H: "healthy E i"
  shows "succeeds E i T False (reconcileExternalOVNMetadataAgentSecret E)"
    and "succeeds E i T False (reconcileExternalOVNAgentSecret E)"
    and "succeeds E i T False (reconcileExternalSriovAgentSecret E n)"
    and "succeeds E i T False (reconcileExternalDhcpAgentSecret E n)"
proof -
  note agent = publish_succeeds h_inst ensure_external_succeeds [OF H] withdraw_succeeds [OF H]
  show "succeeds E i T False (reconcileExternalOVNMetadataAgentSecret E)"
    unfolding reconcileExternalOVNMetadataAgentSecret_def ensureExternalOVNMetadataAgentSecret_def
    by (auto intro!: agent h_dbcluster [OF H] split: sum.split)
  show "succeeds E i T False (reconcileExternalOVNAgentSecret E)"
    unfolding reconcileExternalOVNAgentSecret_def ensureExternalOVNAgentSecret_def
    by (auto intro!: agent h_dbcluster [OF H] split: sum.split)
  show "succeeds E i T False (reconcileExternalSriovAgentSecret E n)"
    unfolding reconcileExternalSriovAgentSecret_def ensureExternalSriovAgentSecret_def getTransportURL_def
    by (auto intro!: agent h_secret [OF H] h_fcall [where R' = "\<lambda>_. good E i T False any_tracked"] triple_ret
        split: sum.split)
  show "succeeds E i T False (reconcileExternalDhcpAgentSecret E n)"
    unfolding reconcileExternalDhcpAgentSecret_def ensureExternalDhcpAgentSecret_def
    by (auto intro!: agent h_secret [OF H] split: option.split)
qed

lemma try_agent_runs:
  assumes "succeeds E i T b m"
  shows "triple (good E i T b any_tracked) (try_agent what m) (\<lambda>_. good E i T b any_tracked) (\<lambda>_ _. False)"
  unfolding try_agent_def using assms by (rule h_success) (simp add: h_ok)

lemma externals_succeed:
  assumes H: "healthy E i"
  shows "succeeds E i T False (reconcileExternalSecrets E n)" "succeeds E i T False (reconcileExternalOVNSecrets E)"
  unfolding reconcileExternalSecrets_def reconcileExternalOVNSecrets_def
  by (intro h_phase [OF try_agent_runs] agents_succeed [OF H] h_ret_nil)+

lemma external_runs:
  assumes H: "healthy E i"
  shows "runs_well E i T False (external_phase E n) (insert NeutronExternalConfigsReady T) False"
  unfolding external_phase_def externals_failed_def
  by (auto intro!: h_success [OF externals_succeed(1) [OF H]] h_success [OF externals_succeed(2) [OF H]]
      well healthy_ends [OF H])

section \<open>Networks and database\<close>

lemma nad_runs:
  assumes H: "healthy E i"
  shows "runs_well E i T b (nad_loop E ns nets nads) T b"
  by (induction nets arbitrary: nads) (auto intro!: h_ok h_nad [OF H])

lemma network_runs:
  assumes H: "healthy E i"
  shows "runs_well E i T b (network_phase E) T b"
  unfolding network_phase_def
  by (auto intro!: h_inst h_phase [OF nad_runs [OF H]] h_annotations [OF H] h_ok)

lemma database_runs:
  assumes H: "healthy E i"
  shows "runs_well E i T b (init_database E) ({MariaDBAccountReadyCondition, DBReadyCondition} \<union> T) b"
proof -
  have "triple (good E i T b any_tracked) (ensureDB E) (\<lambda>_ _. False)
      (\<lambda>(db, a) s. (db \<noteq> None \<and> a = (NoResult, None)) \<and>
        good E i ({MariaDBAccountReadyCondition, DBReadyCondition} \<union> T) b any_tracked s)"
    unfolding ensureDB_def
    by (auto intro!: healthy_steps [OF H] well triple_ret simp: conds_def elim!: good_mono)
  then show ?thesis
    unfolding init_database_def
    by (rule h_fcall) (auto intro!: triple_known h_ok split: option.split)
qed

section \<open>Configuration\<close>

lemma probe_returns:
  assumes H: "healthy E i"
  shows "triple (good E i T b any_tracked) (IsWSGIEffective E ls an) (\<lambda>_ _. False)
    (\<lambda>_. good E i T b any_tracked)"
  unfolding IsWSGIEffective_def Let_def
  by (rule h_inst) (auto intro!: h_invoke h_ret h_err [OF H] split: sum.split)

lemma transport_url_returns:
  assumes H: "healthy E i" and "n \<noteq> []"
  shows "triple (good E i T b any_tracked) (getTransportURL E (Some n)) (\<lambda>_ _. False)
    (\<lambda>r s. \<not> isl r \<and> good E i T b any_tracked s)"
  unfolding getTransportURL_def
  using assms(2) by (auto intro!: h_inst h_secret [OF H] triple_ret)

lemma base_params_runs:
  assumes H: "healthy E i" and n: "n \<noteq> []"
  shows "triple (good E i T b any_tracked) (base_params E ls an n) (\<lambda>_. good E i T b any_tracked)
    (\<lambda>_ _. False)"
  unfolding base_params_def
  by (auto intro!: healthy_steps [OF H] h_inst h_ok triple_known
      h_fcall [OF transport_url_returns [OF H n]] h_fcall [OF probe_returns [OF H]]
      simp: try_sum_def split: sum.split)

lemma notifications_params_runs:
  assumes H: "healthy E i" and n: "\<And>m. n = Some m \<Longrightarrow> m \<noteq> []"
  shows "triple (good E i T b any_tracked) (notifications_params E n) (\<lambda>_. good E i T b any_tracked)
    (\<lambda>_ _. False)"
proof (cases n)
  case None
  then show ?thesis
    by (auto simp: notifications_params_def getTransportURL_def
        intro!: h_fcall [where R' = "\<lambda>r s. r = Inl ErrTransportURLSecretNameNilOrEmpty \<and> good E i T b any_tracked s"]
        triple_ret triple_known h_ok)
next
  case (Some m)
  with n have "m \<noteq> []" by blast
  with Some show ?thesis
    unfolding notifications_params_def
    by (auto intro!: h_fcall [OF transport_url_returns [OF H]] triple_known h_ok split: sum.split)
qed

lemma ac_params_runs:
  assumes H: "healthy E i"
  shows "triple (good E i T b any_tracked) (ac_params E) (\<lambda>_. good E i T b any_tracked) (\<lambda>_ _. False)"
  unfolding ac_params_def Let_def
  by (rule h_inst) (auto intro!: h_secret [OF H] h_ok split: option.split)

lemma ovn_params_runs:
  assumes H: "healthy E i"
  shows "triple (good E i T b any_tracked) (ovn_params E) (\<lambda>_. good E i T b any_tracked) (\<lambda>_ _. False)"
  unfolding ovn_params_def
  by (rule h_inst) (auto intro!: h_dbcluster [OF H] h_ok split: sum.split)

lemma generate_succeeds:
  assumes H: "healthy E i" and n: "n \<noteq> []" and m: "\<And>m'. m = Some m' \<Longrightarrow> m' \<noteq> []"
  shows "succeeds E i T b (generateServiceSecrets E db ls an n m)"
  unfolding generateServiceSecrets_def Let_def
  apply (rule h_inst, rule h_phase [OF base_params_runs [OF H n]], simp only: split_paired_all prod.case)
  apply (rule h_phase [OF notifications_params_runs [OF H m]], assumption)
  apply (rule h_phase [OF ac_params_runs [OF H]], rule h_phase [OF ovn_params_runs [OF H]])
  apply (rule h_ensure [OF H])
  apply (rule triple_ret, simp)
  done

lemma config_runs:
  assumes H: "healthy E i" and n: "n \<noteq> []" and m: "\<And>m'. m = Some m' \<Longrightarrow> m' \<noteq> []"
  shows "runs_well E i T b (init_config E db ls an n m) T b"
  unfolding init_config_def
  by (rule h_success [OF generate_succeeds [OF H n m]]) (simp_all add: h_ok)

lemma tls_runs:
  assumes H: "healthy E i"
  shows "runs_well E i T b (init_tls E) (insert TLSInputReadyCondition T) b"
proof -
  have "runs_well E i T b (validate_ca E) T b" "runs_well E i T b (validate_api_certs E) T b"
    "runs_well E i T b (validate_ovn_cert E) T b"
    unfolding validate_ca_def validate_api_certs_def validate_ovn_cert_def Let_def
    by (auto intro!: h_inst h_string [OF H] h_ok triple_tail [OF h_set_var])
  then show ?thesis
    unfolding init_tls_def
    by (elim h_phase) (auto intro!: healthy_ends [OF H] h_ok)
qed

lemma hash_runs:
  assumes H: "healthy E i"
  shows "runs_well E i T b (init_hash E) T True"
proof -
  have "triple (good E i T b any_tracked) (createHashOfInputHashes E) (\<lambda>_ _. False)
      (\<lambda>r s. \<not> isl r \<and> good E i T True any_tracked s)"
    unfolding triple_def
  proof (intro allI impI)
    fix s assume s: "good E i T b any_tracked s"
    have "\<forall>es. \<exists>h. ObjectHash (ut E) es = Inr h"
      using healthyD(6) [OF H] by (simp add: objects_ready_def)
    then obtain h where h: "ObjectHash (ut E) (MergeEnvs (pod E) [] (vars s)) = Inr h" by blast
    let ?r = "SetHash (ut E) (Hash (st_of s)) (InputHashName (ut E)) h"
    have law: "snd ?r \<longleftrightarrow> get_hash (inst s) (InputHashName (ut E)) \<noteq> Some h"
      "snd ?r \<Longrightarrow> \<exists>m. fst ?r = Some (m(InputHashName (ut E) \<mapsto> h))"
      using healthyD(3) [OF H] by (auto simp: util_laws_def get_hash_def)
    show "case createHashOfInputHashes E s of (Next x, t) \<Rightarrow> False
      | (Return r, t) \<Rightarrow> \<not> isl r \<and> good E i T True any_tracked t | (Panic _, _) \<Rightarrow> False"
    proof (cases "snd ?r")
      case True
      then obtain m where m: "fst ?r = Some (m(InputHashName (ut E) \<mapsto> h))" using law(2) by blast
      let ?t = "s\<lparr>inst := (inst s)\<lparr>Status := (st_of s)\<lparr>Hash := fst ?r\<rparr>\<rparr>\<rparr>"
      have "good E i T True any_tracked ?t"
        using s m by (auto simp: good_def get_hash_def)
      with True show ?thesis
        by (simp add: createHashOfInputHashes_def prog_defs h the_inst_def set_status_def case_prod_unfold)
    next
      case False
      with law(1) s have "good E i T True any_tracked s" by (auto simp: good_def)
      with False show ?thesis
        by (simp add: createHashOfInputHashes_def prog_defs h the_inst_def case_prod_unfold)
    qed
  qed
  then show ?thesis
    unfolding init_hash_def
    by (rule h_fcall) (auto intro!: triple_known h_ok split: sum.split)
qed

lemma credential_runs:
  assumes H: "healthy E i"
  shows "runs_well E i T b (init_credential E) (insert ServiceConfigReadyCondition T) b"
  unfolding init_credential_def andthen_assoc
  by (rule h_inst) (auto intro!: healthy_steps [OF H] healthy_ends [OF H] h_ok simp: andthen_assoc)

lemma h_build:
  "\<exists>x. r = Ok x \<Longrightarrow> (\<And>x. triple P (k x) Q R) \<Longrightarrow> triple P (andthen (must_build r) k) Q R"
  by (auto simp: must_build_def)

lemma dbsync_runs:
  assumes H: "healthy E i"
  shows "runs_well E i T b (init_dbsync E ls an) (insert DBSyncReadyCondition T) b"
  unfolding init_dbsync_def
  apply (rule h_inst, rule h_build)
  subgoal using healthyD(7) [OF H] by (simp add: buildable_def)
  apply (rule h_job [OF H])
  apply (auto intro!: h_put_hash healthy_ends [OF H] h_ok split: prod.split)
  done

section \<open>Services\<close>

lemma expose_runs:
  assumes H: "healthy E i"
  shows "runs_well E i T b (init_expose E ls) (insert CreateServiceReadyCondition T) b"
proof -
  have one: "runs_well E i T b (expose_endpoint E ls e) T b" for e
    unfolding expose_endpoint_def Let_def
    by (rule h_inst) (auto intro!: h_service [OF H] h_result [OF H] h_string [OF H] h_ok)
  have "runs_well E i T b (expose_endpoints E ls es eps) T b" for es eps
    by (induction es arbitrary: eps) (auto intro!: h_ok h_phase [OF one])
  then show ?thesis
    unfolding init_expose_def by (rule h_phase) (auto intro!: healthy_steps [OF H] h_ok)
qed

lemma mirror_runs:
  assumes H: "healthy E i" and "t \<in> known_types"
    and cs: "\<And>t. \<exists>k. CMirror (cnd E) cs t = Some k \<and> CondStatus k = CondTrue"
  shows "runs_well E i T b (mirror_into E t (NoResult, None) cs) (insert t T) b"
proof -
  obtain k where k: "CMirror (cnd E) cs t = Some k" "CondStatus k = CondTrue" using cs by blast
  then have "CondType k = t" by (blast intro: Mirror_type healthyD(1) [OF H])
  with k assms(2) show ?thesis
    by (auto simp: mirror_into_def intro!: h_set_cond [OF healthyD(1) [OF H]] h_ok)
qed

lemma keystone_runs:
  assumes H: "healthy E i"
  shows "runs_well E i T b (init_keystone E ls eps)
    ({KeystoneServiceReadyCondition, KeystoneEndpointReadyCondition} \<union> T) b"
  unfolding init_keystone_def
  apply (rule h_inst, rule h_keystone [OF H], simp only: prod.case)
  apply (rule h_phase [OF mirror_runs [OF H]], simp, assumption)
  apply (rule h_keystone [OF H], simp only: prod.case)
  apply (rule triple_post [OF mirror_runs [OF H]], simp, assumption)
   apply (auto elim!: good_mono)
  done

definition init_types_true :: "ctype set" where
  "init_types_true = {MariaDBAccountReadyCondition, DBReadyCondition, TLSInputReadyCondition,
     ServiceConfigReadyCondition, DBSyncReadyCondition, CreateServiceReadyCondition,
     KeystoneServiceReadyCondition, KeystoneEndpointReadyCondition}"

lemma reconcileInit_returns:
  assumes H: "healthy E i" and n: "n \<noteq> []" and m: "\<And>m'. m = Some m' \<Longrightarrow> m' \<noteq> []"
  shows "triple (good E i T False any_tracked) (reconcileInit E ls an n m) (\<lambda>_ _. False)
    (\<lambda>a s. a = (NoResult, None) \<and> good E i (init_types_true \<union> T) True any_tracked s)"
  unfolding reconcileInit_def
  apply (rule h_phase [OF database_runs [OF H]], rule h_phase [OF config_runs [OF H n m]], assumption)
  apply (rule h_phase [OF tls_runs [OF H]], rule h_phase [OF hash_runs [OF H]])
  apply (rule h_phase [OF credential_runs [OF H]], rule h_phase [OF dbsync_runs [OF H]])
  apply (rule h_phase [OF expose_runs [OF H]], rule h_phase [OF keystone_runs [OF H]])
  apply (rule triple_ret)
  apply (auto simp: init_types_true_def elim!: good_mono)
  done

lemma init_runs:
  assumes H: "healthy E i" and n: "n \<noteq> []" and m: "\<And>tu. notif = Some tu \<Longrightarrow> TUSecretName tu \<noteq> []"
  shows "runs_well E i T False (init_phase E an n notif) (init_types_true \<union> T) True"
  unfolding init_phase_def
  apply (rule h_fcall [OF reconcileInit_returns [OF H n]])
   apply (use m in force)
  apply (rule triple_known)
  apply (simp add: settle_def reconcileUpdate_def reconcileUpgrade_def fcall_ret h_ok)
  done

section \<open>Deployments\<close>

lemma input_hash_runs: "runs_well E i T True (input_hash_phase E) T True"
  by (auto simp: triple_def input_hash_phase_def the_inst_def prog_defs good_def get_hash_def
      split: option.split)

lemma topology_runs:
  assumes H: "healthy E i" and T: "TopologyRef (Spec i) = None \<Longrightarrow> TopologyReadyCondition \<in> T"
  shows "runs_well E i T b (topology_phase E) (insert TopologyReadyCondition T) b"
  unfolding topology_phase_def
  by (rule h_inst)
     (use T in \<open>auto intro!: h_topology [OF H] healthy_steps [OF H] well simp: conds_def split: option.split\<close>)

lemma builds:
  assumes "healthy E i"
  shows "\<exists>d. Deployment (pod E) (i\<lparr>Status := st\<rparr>) h ls an t mc w = Ok d"
    and "\<exists>d. RPCDeployment (pod E) (i\<lparr>Status := st\<rparr>) h ls an t mc = Ok d"
    and "\<exists>d. WorkerDeployment (pod E) (i\<lparr>Status := st\<rparr>) h ls an t mc = Ok d"
  using healthyD(7) [OF assms] unfolding buildable_def by blast+

lemma h_res:
  "\<exists>x. r = Ok x \<Longrightarrow> (\<And>x. triple P (g x) Q R) \<Longrightarrow>
   triple P (case r of Ok x \<Rightarrow> g x | Fail e \<Rightarrow> f e | Crash m \<Rightarrow> p m) Q R"
  by auto

lemma observe_runs:
  assumes H: "healthy E i" and "DSIsReady dep"
  shows "runs_well E i T b (observe_deployment E dep h)
    ({NetworkAttachmentsReadyCondition, DeploymentReadyCondition} \<union> T) b"
  unfolding observe_deployment_def using assms(2)
  by (auto intro!: h_network [OF H] h_bool [OF H] healthy_steps [OF H] healthy_ends [OF H] well
      simp: conds_def andthen_assoc)

lemma deployment_runs:
  assumes H: "healthy E i"
  shows "runs_well E i T b (deployment_phase E an t mc h w)
    ({NetworkAttachmentsReadyCondition, DeploymentReadyCondition} \<union> T) b"
  unfolding deployment_phase_def
  by (rule h_inst, rule h_res [OF builds(1) [OF H]], rule h_deployment [OF H])
     (simp add: observe_runs [OF H, simplified])

lemma roll_out_runs:
  assumes H: "healthy E i" and t: "t \<in> known_types" and d: "\<exists>d. deplDef = Ok d"
    and f: "\<And>n st. Hash (f n st) = Hash st" "\<And>n st. conds (f n st) = conds st"
  shows "runs_well E i T b (roll_out E t m1 m2 m3 deplDef f h) (insert t T) b"
  unfolding roll_out_def
  apply (rule h_false [OF healthyD(1) [OF H] t], rule h_build [OF d], rule h_deployment [OF H])
  apply (auto intro!: h_set_any h_bool [OF H] healthy_ends [OF H] h_ok simp: t f)
  done

lemma workers_run:
  assumes H: "healthy E i"
  shows "runs_well E i T b (workers_phase E an t mc h w)
    ({NeutronRPCReadyCondition, NeutronWorkerReadyCondition} \<union> T) b"
proof -
  have del: "runs_well E i T b (delete_deployment E n) T b" for T n
    unfolding delete_deployment_def by (rule h_inst, rule h_err [OF H]) (simp add: h_ok)
  have rpc: "runs_well E i T b (rpc_phase E an t mc h) (insert NeutronRPCReadyCondition T) b" for T
    unfolding rpc_phase_def
    by (rule h_inst, rule triple_if)
       (auto intro!: roll_out_runs [OF H] h_phase [OF del] well healthy_ends [OF H] builds(2) [OF H]
         simp: conds_def)
  have worker: "runs_well E i T b (worker_phase E an t mc h) (insert NeutronWorkerReadyCondition T) b" for T
    unfolding worker_phase_def
    by (rule h_inst, rule roll_out_runs [OF H])
       (auto intro!: builds(3) [OF H] simp: conds_def)
  show ?thesis
    unfolding workers_phase_def eventlet_phase_def
    by (auto intro!: h_phase [OF rpc] triple_post [OF worker] h_phase [OF del] healthy_steps [OF H]
        healthy_ends [OF H] well simp: conds_def andthen_assoc elim!: good_mono)
qed

end
