(* ===== verification/Liveness.thy ===== *)
theory Liveness
  imports Healthy
begin

text \<open>
  On a healthy cluster one reconcile gets the resource to Ready: the phases of the theory
  \<open>Healthy\<close> put together along \<^verbatim>\<open>reconcileNormal\<close> and \<^verbatim>\<open>Reconcile\<close>.
\<close>

section \<open>RBAC\<close>

lemma rbac_set_good:
  assumes C: "condition_laws (cnd E)" and s: "good E i T b X s" and p: "rbac_present (inst s)"
    and c: "CondType c \<in> rbac_types" "CondStatus c = CondTrue"
  shows "good E i (insert (CondType c) T) b X (s\<lparr>inst := RbacConditionsSet (cnd E) (inst s) c\<rparr>)"
proof -
  from p obtain cs where cs: "StatusConditions (st_of s) = Some cs" by (auto simp: rbac_present_def)
  then have conds: "conds (st_of s) = cs" by (simp add: conds_def)
  with p c have "status_of cs (CondType c) \<noteq> None" by (simp add: rbac_present_def)
  then have st: "status_of (CSetOnCopy (cnd E) cs c) t =
      (if t = CondType c then Some CondTrue else status_of cs t)" for t
    using status_of_SetOnCopy [OF C] c(2) by simp
  have "CondType c \<in> known_types"
    using c(1) by (auto simp: rbac_types_def known_types_def init_messages_def)
  then show ?thesis
    using s conds st cs
    by (auto simp: good_def RbacConditionsSet_def get_hash_def conds_def on_conds_tracked split: if_splits)
qed

lemma rbac_fold_good:
  assumes C: "condition_laws (cnd E)"
  shows "good E i T b X s \<Longrightarrow> rbac_present (inst s) \<Longrightarrow> CondType ` set cs \<subseteq> rbac_types \<Longrightarrow>
     (\<forall>c \<in> set cs. CondStatus c = CondTrue) \<Longrightarrow>
     good E i (CondType ` set cs \<union> T) b X (s\<lparr>inst := foldl (RbacConditionsSet (cnd E)) (inst s) cs\<rparr>)"
proof (induction cs arbitrary: s T)
  case (Cons c cs)
  let ?s = "s\<lparr>inst := RbacConditionsSet (cnd E) (inst s) c\<rparr>"
  have "good E i (insert (CondType c) T) b X ?s"
    by (rule rbac_set_good [OF C]) (use Cons.prems in auto)
  moreover have "rbac_present (inst ?s)"
    using RbacConditionsSet_keeps(1) [OF C] Cons.prems by simp
  ultimately have "good E i (CondType ` set cs \<union> insert (CondType c) T) b X
      (?s\<lparr>inst := foldl (RbacConditionsSet (cnd E)) (inst ?s) cs\<rparr>)"
    using Cons.prems by (intro Cons.IH) auto
  then show ?case by simp
qed simp

lemma rbac_runs:
  assumes H: "healthy E i"
  shows "triple (\<lambda>s. good E i T b any_tracked s \<and> rbac_present (inst s)) (rbac_phase E)
    (\<lambda>_. good E i (rbac_types \<union> T) b any_tracked) (\<lambda>_ _. False)"
  unfolding triple_def
proof (intro allI impI)
  fix s assume s: "good E i T b any_tracked s \<and> rbac_present (inst s)"
  let ?c = "ReconcileRbac (RbacResourceName (inst s)) (RbacNamespace (inst s)) rbacRules"
  let ?r = "aRbac (cl E) (trace s @ [?c])" and ?s = "s\<lparr>trace := trace s @ [?c]\<rparr>"
  have r: "CondType ` set (fst ?r) = rbac_types" "\<forall>c \<in> set (fst ?r). CondStatus c = CondTrue"
    "snd ?r = (NoResult, None)"
    using healthyD(5) [OF H] by (simp_all add: answers_well_def)
  have "good E i (CondType ` set (fst ?r) \<union> T) b any_tracked
      (?s\<lparr>inst := foldl (RbacConditionsSet (cnd E)) (inst ?s) (fst ?r)\<rparr>)"
    by (rule rbac_fold_good [OF healthyD(1) [OF H]]) (use s r in \<open>auto simp: good_def\<close>)
  with r show "case rbac_phase E s of (Next x, t) \<Rightarrow> good E i (rbac_types \<union> T) b any_tracked t
      | (Return _, _) \<Rightarrow> False | (Panic _, _) \<Rightarrow> False"
    by (simp add: rbac_phase_def the_inst_def prog_defs invoke_def case_prod_unfold settle_def)
qed

section \<open>The credentials of this reconcile\<close>

text \<open>
  What the cluster answered to a call of this reconcile that sets up a TransportURL, and the
  credentials that follow from the answers: the transport Secret and, if the resource has a
  notifications bus, the TransportURL of the notifications.
\<close>

definition asked :: "ext \<Rightarrow> call \<Rightarrow> call list \<Rightarrow> TransportURL \<Rightarrow> bool" where
  "asked E c cs tu \<longleftrightarrow> (\<exists>p q. cs = p @ c # q \<and> aTransportURL (cl E) (p @ [c]) = Inr tu)"

definition transport_call :: "NeutronAPI \<Rightarrow> call" where
  "transport_call i =
     CreateOrUpdateTransportURL (Name i @ ''-neutron-transport'') (Namespace i) (MessagingBus (Spec i))"

definition notifications_call :: "NeutronAPI \<Rightarrow> RabbitMqConfig \<Rightarrow> call" where
  "notifications_call i cfg = CreateOrUpdateTransportURL ''notifications-neutron-transport'' (Namespace i) cfg"

definition notifications_bus :: "NeutronAPI \<Rightarrow> RabbitMqConfig option" where
  "notifications_bus i = (case NotificationsBus (Spec i) of
     None \<Rightarrow> None | Some cfg \<Rightarrow> if Cluster cfg = [] then None else Some cfg)"

definition notified :: "ext \<Rightarrow> NeutronAPI \<Rightarrow> call list \<Rightarrow> TransportURL option \<Rightarrow> bool" where
  "notified E i cs notif \<longleftrightarrow> (case notifications_bus i of
     None \<Rightarrow> notif = None
   | Some cfg \<Rightarrow> (\<exists>tu. notif = Some tu \<and> asked E (notifications_call i cfg) cs tu))"

definition supplied :: "ext \<Rightarrow> NeutronAPI \<Rightarrow> call list \<Rightarrow> string \<Rightarrow> bool" where
  "supplied E i cs cur \<longleftrightarrow> (\<exists>tu. asked E (transport_call i) cs tu \<and> TUSecretName tu = cur)"

definition kin :: "NeutronAPI \<Rightarrow> NeutronAPI \<Rightarrow> bool" where
  "kin i j \<longleftrightarrow> Name j = Name i \<and> Namespace j = Namespace i \<and> Spec j = Spec i"

text \<open>Once answered, an answer lasts.\<close>

definition lasting :: "(rstate \<Rightarrow> bool) \<Rightarrow> bool" where
  "lasting J \<longleftrightarrow> (\<forall>s t. steady (\<lambda>_. True) s t \<longrightarrow> J s \<longrightarrow> J t)"

lemma steady_any: "steady P s t \<Longrightarrow> steady (\<lambda>_. True) s t"
  by (auto simp: steady_def grown_def list_all_iff)

lemma cool_any: "cool T P s t \<Longrightarrow> steady (\<lambda>_. True) s t"
  by (auto simp: steady_def cool_def grown_def list_all_iff)

lemma lasting_exits:
  assumes "lasting J" and "always (steady (\<lambda>_. True)) m"
  shows "guarded J m (\<lambda>_. J) J"
  by (rule guarded_frame [OF assms(2)]) (use assms(1) in \<open>auto simp: lasting_def\<close>)

lemma lasting_frame:
  "lasting J \<Longrightarrow> always (steady (\<lambda>_. True)) m \<Longrightarrow> guarded J m (\<lambda>_. J) (\<lambda>_. True)"
  by (rule guarded_post [OF lasting_exits]) simp_all

lemma lasting_cool: "lasting J \<Longrightarrow> always (cool T P) m \<Longrightarrow> guarded J m (\<lambda>_. J) (\<lambda>_. True)"
  by (erule lasting_frame, erule always_weaken) (rule cool_any)

lemma asked_grown: "asked E c cs tu \<Longrightarrow> asked E c (cs @ ds) tu"
  unfolding asked_def by fastforce

lemma notified_grown: "notified E i cs notif \<Longrightarrow> notified E i (cs @ ds) notif"
  by (auto simp: notified_def intro: asked_grown split: option.splits)

lemma supplied_grown: "supplied E i cs cur \<Longrightarrow> supplied E i (cs @ ds) cur"
  by (auto simp: supplied_def intro: asked_grown)

lemma lasting_rules:
  "lasting (\<lambda>s. kin i (inst s))" "lasting (\<lambda>s. asked E c (trace s) tu)"
  "lasting (\<lambda>s. supplied E i (trace s) cur)" "lasting (\<lambda>s. notified E i (trace s) notif)"
  "lasting J \<Longrightarrow> lasting K \<Longrightarrow> lasting (\<lambda>s. J s \<and> K s)"
  by (auto simp: lasting_def steady_def grown_def kin_def dest: status_onlyD
      intro: asked_grown supplied_grown notified_grown)

lemma guarded_true: "guarded P m (\<lambda>_ _. True) (\<lambda>_. True)"
  by (simp add: guarded_def split: prod.split outcome.split)

lemma guarded_stop: "guarded P (andthen m (\<lambda>_. ret x)) Q (\<lambda>_. True)"
  by (rule guarded_andthen [OF guarded_true]) (rule guarded_ret, rule TrueI)

lemma guarded_kin:
  assumes "\<And>j. kin i j \<Longrightarrow> guarded (\<lambda>s. inst s = j) (f j) Q R"
  shows "guarded (\<lambda>s. kin i (inst s)) (andthen the_inst f) Q R"
proof (rule guarded_the_inst)
  fix j
  show "guarded (\<lambda>s. kin i (inst s) \<and> inst s = j) (f j) Q R"
    by (rule guarded_pre [OF guarded_assume [where b = "kin i j", OF assms]]) auto
qed

lemma asks:
  "guarded (\<lambda>s. inst s = j) (transportURLCreateOrUpdate E n cfg)
     (\<lambda>r s. \<forall>tu. r = Inr tu \<longrightarrow>
        asked E (CreateOrUpdateTransportURL (n @ ''-neutron-transport'') (Namespace j) cfg) (trace s) tu) R"
  unfolding transportURLCreateOrUpdate_def
  by (rule guarded_the_inst, rule guarded_invoke) (auto simp: asked_def)

lemmas lasting_asked = lasting_frame [OF lasting_rules(2)]

lemma transport_asks:
  "guarded (\<lambda>s. kin i (inst s)) (transport_phase E) (\<lambda>cur s. supplied E i (trace s) cur) (\<lambda>_. True)"
  unfolding transport_phase_def Let_def
proof (rule guarded_kin, rule guarded_andthen [OF asks], goal_cases)
  case (1 j r)
  let ?c = "CreateOrUpdateTransportURL (Name j @ ''-neutron-transport'') (Namespace j) (MessagingBus (Spec j))"
  have "guarded (\<lambda>s. asked E ?c (trace s) tu) (ok (TUSecretName tu)) (\<lambda>cur s. supplied E i (trace s) cur) (\<lambda>_. True)" for tu
    by (rule guarded_ok) (use 1 in \<open>auto simp: supplied_def transport_call_def kin_def\<close>)
  then have tail: "guarded (\<lambda>s. asked E ?c (trace s) tu)
     (andthen (set_status f) (\<lambda>_. andthen (invoke (aErr (cl E)) d) (\<lambda>err. andthen (or_return err) (\<lambda>_.
       ok (TUSecretName tu))))) (\<lambda>cur s. supplied E i (trace s) cur) (\<lambda>_. True)" for tu f d
    by (intro guarded_andthen [OF lasting_asked]) (intro steady_rules; simp)+
  show ?case
    by (cases r) (auto intro!: guarded_stop tail)
qed

lemma steady_verify: "always (steady (\<lambda>_. True)) (verify_phase E n fs r v)"
  unfolding verify_phase_def by (intro steady_rules; simp)

lemma notifications_asks:
  "guarded (\<lambda>s. kin i (inst s)) (notifications_phase E) (\<lambda>notif s. notified E i (trace s) notif) (\<lambda>_. True)"
  unfolding notifications_phase_def
proof (rule guarded_kin, goal_cases)
  case (1 j)
  then have bus: "notifications_bus i = notifications_bus j" and ns: "Namespace i = Namespace j"
    by (simp_all add: notifications_bus_def kin_def)
  let ?Q = "\<lambda>notif s. notified E i (trace s) notif"
  have off: "guarded P (andthen (remove_cond E t) (\<lambda>_. ok None)) ?Q (\<lambda>_. True)"
    if "notifications_bus j = None" for P t
    by (rule guarded_andthen [OF guarded_true], rule guarded_ok) (simp add: notified_def bus that)
  have tail: "guarded (\<lambda>s. asked E (notifications_call j cfg) (trace s) tu)
     (andthen (verify_phase E n fs r v) (\<lambda>hash. andthen (set_status f) (\<lambda>_. andthen (invoke (aErr (cl E)) d) (\<lambda>err.
       andthen (or_return err) (\<lambda>_. andthen (set_var a (b hash)) (\<lambda>_. andthen (mark_true E t m) (\<lambda>_. ok (Some tu))))))))
     ?Q (\<lambda>_. True)" if "notifications_bus j = Some cfg" for cfg tu n fs r v f d a b t m
  proof -
    have "guarded (\<lambda>s. asked E (notifications_call j cfg) (trace s) tu) (ok (Some tu)) ?Q (\<lambda>_. True)"
      by (rule guarded_ok) (simp add: notified_def bus that notifications_call_def ns)
    then show ?thesis
      by (intro guarded_andthen [OF lasting_asked] steady_verify) (intro steady_rules; simp)+
  qed
  note ask = guarded_andthen [OF asks [of j E "''notifications''", simplified,
        folded notifications_call_def]]
  show ?case
  proof (cases "notifications_bus j")
    case None
    then show ?thesis by (auto simp: notifications_bus_def split: option.splits if_splits intro: off)
  next
    case (Some cfg)
    then have "NotificationsBus (Spec j) = Some cfg" "Cluster cfg \<noteq> []"
      by (auto simp: notifications_bus_def split: option.splits if_splits)
    then show ?thesis
      by (auto intro!: ask guarded_sum guarded_stop tail [OF Some])
  qed
qed

lemma steady_rbac: "always (steady (\<lambda>_. True)) (rbac_phase E)"
proof -
  have "\<exists>st. foldl (RbacConditionsSet C) i cs = i\<lparr>Status := st\<rparr>" for C i cs
  proof (induction cs arbitrary: i)
    case Nil
    show ?case by (rule exI [of _ "Status i"]) simp
  next
    case (Cons c cs)
    from Cons.IH [of "RbacConditionsSet C i c"] show ?case by (auto simp: RbacConditionsSet_def split: option.splits)
  qed
  then have "always (steady (\<lambda>_. True)) (update (\<lambda>s. s\<lparr>inst := foldl (RbacConditionsSet (cnd E)) (inst s) cs\<rparr>))" for cs
    by (intro steady.frame_update) (simp add: steady_def grown_def status_only_def)
  then show ?thesis unfolding rbac_phase_def by (intro steady_rules; simp)
qed

text \<open>What the preparation hands over is what the cluster answered to its own calls.\<close>

lemma prepare_asks:
  assumes "condition_laws (cnd E)"
  shows "guarded (\<lambda>s. kin i (inst s)) (prepare E)
    (\<lambda>(cur, notif, _) s. supplied E i (trace s) cur \<and> notified E i (trace s) notif) (\<lambda>_. True)"
proof -
  let ?K = "\<lambda>s. kin i (inst s)"
  have transport: "guarded ?K (transport_phase E) (\<lambda>cur s. ?K s \<and> supplied E i (trace s) cur) (\<lambda>_. True)"
    using guarded_conj [OF lasting_cool [OF lasting_rules(1) cool_transport_phase [OF assms]] transport_asks, of i i]
    by simp
  have notifications: "guarded (\<lambda>s. ?K s \<and> supplied E i (trace s) cur) (notifications_phase E)
      (\<lambda>notif s. supplied E i (trace s) cur \<and> notified E i (trace s) notif) (\<lambda>_. True)" for cur
    using guarded_conj [OF notifications_asks lasting_cool [OF lasting_rules(3) cool_notifications_phase [OF assms]]]
    by (rule guarded_post) auto
  have last: "lasting (\<lambda>s. supplied E i (trace s) cur \<and> notified E i (trace s) notif)" for cur notif
    by (intro lasting_rules)
  show ?thesis
    unfolding prepare_def
    by (intro guarded_andthen [OF lasting_frame [OF lasting_rules(1) steady_rbac]]
        guarded_andthen [OF lasting_frame [OF lasting_rules(1) steady_vars]]
        guarded_andthen [OF transport] guarded_andthen [OF notifications] guarded_andthen [OF lasting_cool [where T = late and P = routine, OF last]]
        calm_input_phases [THEN cool_of_calm] calm_init_phases [THEN cool_of_calm] guarded_ok assms) simp
qed

section \<open>reconcileNormal\<close>

definition prepared :: "ctype set" where
  "prepared = rbac_types \<union> init_types_true \<union>
     {NotificationBusInstanceReadyCondition, RabbitMqTransportURLReadyCondition, InputReadyCondition,
      MemcachedReadyCondition, NeutronExternalConfigsReady}"

lemma prepare_runs:
  assumes H: "healthy E i"
  shows "triple (\<lambda>s. good E i T False any_tracked s \<and> rbac_present (inst s)) (prepare E)
    (\<lambda>_. good E i (prepared \<union> T) True any_tracked) (\<lambda>_ _. False)"
  unfolding prepare_def
  apply (rule h_phase [OF rbac_runs [OF H]], rule h_vars)
  apply (rule h_phase [OF transport_runs [OF H]], rule triple_known)
  apply (rule h_phase [OF notifications_runs [OF H]], rule triple_known)
  apply (rule h_phase [OF transport_verify_runs [OF H]], rule h_phase [OF password_runs [OF H]])
  apply (rule h_phase [OF memcached_runs [OF H]], rule h_phase [OF external_runs [OF H]])
  apply (rule h_phase [OF network_runs [OF H]])
  apply (rule h_phase [OF init_runs [OF H]])
    apply (assumption, simp)
  apply (rule triple_ok)
  apply (auto simp: prepared_def elim!: good_mono)
  done

definition deployed_types :: "ctype set" where
  "deployed_types = {TopologyReadyCondition, NetworkAttachmentsReadyCondition, DeploymentReadyCondition,
     NeutronRPCReadyCondition, NeutronWorkerReadyCondition}"

lemma deploy_runs:
  assumes H: "healthy E i" and T: "TopologyRef (Spec i) = None \<Longrightarrow> TopologyReadyCondition \<in> T"
  shows "runs_well E i T True (deploy E mc an) (deployed_types \<union> T) True"
  unfolding deploy_def
  apply (rule h_phase [OF input_hash_runs], rule h_phase [OF topology_runs [OF H T]], assumption)
  apply (rule h_fcall [OF probe_returns [OF H]], rule h_phase [OF deployment_runs [OF H]])
  apply (rule triple_post [OF workers_run [OF H]])
   apply (auto simp: deployed_types_def elim!: good_mono)
  done

lemma types_complete: "known_types - {ReadyCondition} \<subseteq> deployed_types \<union> prepared"
  by (auto simp: known_types_def init_messages_def deployed_types_def prepared_def rbac_types_def
      init_types_true_def)

lemma good_all_true:
  assumes "good E i T b X s" and "known_types - {ReadyCondition} \<subseteq> T"
  shows "all_others_true (conds (st_of s))"
  unfolding all_others_true_def
proof (intro allI impI)
  fix t assume t: "t \<noteq> ReadyCondition" "cond_status s t \<noteq> None"
  with assms have "t \<in> T" by (auto simp: good_def)
  with assms(1) t(2) show "cond_status s t = Some CondTrue" by (auto simp: good_def)
qed

section \<open>The end of a reconcile\<close>

lemma guard_runs:
  assumes H: "healthy E i" and T: "known_types - {ReadyCondition} \<subseteq> T"
  shows "triple (good E i T b X) (guard_ready E) (\<lambda>g s. g \<and> good E i T b X s) (\<lambda>_ _. False)"
  unfolding guard_ready_def
  by (rule triple_reads)
     (use good_all_true [OF _ T] healthyD(2) [OF H] in \<open>auto simp: condition_completeness_def\<close>)

lemma h_finalize:
  assumes H: "healthy E i" and k: "triple (good E i T b X) (k cur) Q R"
  shows "triple (good E i T b X) (andthen (finalize_rotation E old cur f True) k) Q R"
  unfolding finalize_rotation_def andthen_assoc
  by (rule h_inst, rule h_invoke) (use healthyD(5) [OF H] k in \<open>simp add: answers_well_def\<close>)

lemma h_track:
  assumes "\<And>st. Hash (f st) = Hash st" and "\<And>st. conds (f st) = conds st"
    and "\<And>st. X (tracked st) \<Longrightarrow> X' (tracked (f st))"
  shows "triple (good E i T b X) (set_status f) (\<lambda>_. good E i T b X') R"
  by (rule triple_tail, rule h_set_status [where X' = X'])
     (use assms in \<open>auto intro: triple_ok\<close>)

lemma rotate_transport_runs:
  assumes H: "healthy E i"
  shows "triple (good E i T b any_tracked) (rotate_transport E cur True)
    (\<lambda>_. good E i T b (\<lambda>(a, _, _). a = cur)) (\<lambda>_ _. False)"
  unfolding rotate_transport_def
  by (rule h_inst, rule h_finalize [OF H], rule h_track) (auto simp: conds_def tracked_def)

definition tracks_notif :: "TransportURL option \<Rightarrow> string option \<Rightarrow> bool" where
  "tracks_notif notif n \<longleftrightarrow>
     (case notif of None \<Rightarrow> n = None \<or> n = Some [] | Some tu \<Rightarrow> n = Some (TUSecretName tu))"

lemma h_inst_tracked:
  assumes "\<And>st. X (tracked st) \<Longrightarrow> triple (good E i T b (\<lambda>x. x = tracked st)) (k (i\<lparr>Status := st\<rparr>)) Q R"
  shows "triple (good E i T b X) (andthen the_inst k) Q R"
  unfolding triple_def
proof (intro allI impI)
  fix s assume s: "good E i T b X s"
  then obtain st where st: "inst s = i\<lparr>Status := st\<rparr>" using good_inst by blast
  with s have "X (tracked st)" and "good E i T b (\<lambda>x. x = tracked st) s" by (simp_all add: good_def)
  with assms [of st] st show "case andthen the_inst k s of (Next x, t) \<Rightarrow> Q x t | (Return r, t) \<Rightarrow> R r t
      | (Panic _, _) \<Rightarrow> False"
    by (simp add: triple_def andthen_def the_inst_def reads_def)
qed

lemma rotate_notifications_runs:
  assumes H: "healthy E i"
  shows "triple (good E i T b (\<lambda>(a, _, _). a = cur)) (rotate_notifications E notif True)
    (\<lambda>_. good E i T b (\<lambda>(a, n, _). a = cur \<and> tracks_notif notif n)) (\<lambda>_ _. False)"
proof -
  have del: "triple (good E i T b X) (transportURLDeleted E n) (\<lambda>_ _. False)
      (\<lambda>e s. e = None \<and> good E i T b X s)" for n X
    unfolding transportURLDeleted_def by (rule h_inst, rule h_err [OF H]) (simp add: h_ret_nil)
  have keep: "triple (good E i T b (\<lambda>x. x = y)) (ok ()) (\<lambda>_. good E i T b X) (\<lambda>_ _. False)"
    if "X y" for y X
    by (rule triple_ok) (use that in \<open>simp add: good_def\<close>)
  show ?thesis
    unfolding rotate_notifications_def
    by (rule h_inst_tracked)
       (auto intro!: h_finalize [OF H] h_track h_err [OF H] keep h_fcall [OF del] triple_known
         simp: conds_def tracked_def tracks_notif_def or_return_def split: option.split)
qed

abbreviation rotated_to ::
  "NeutronAPI \<Rightarrow> string \<Rightarrow> TransportURL option \<Rightarrow> string \<times> string option \<times> string \<Rightarrow> bool" where
  "rotated_to i cur notif \<equiv>
     \<lambda>(a, n, c). a = cur \<and> tracks_notif notif n \<and> c = AuthApplicationCredentialSecret (Spec i)"

lemma rotate_credential_runs:
  assumes H: "healthy E i"
  shows "triple (good E i T b (\<lambda>(a, n, _). a = cur \<and> tracks_notif notif n)) (rotate_credential E True)
    (\<lambda>_. good E i T b (rotated_to i cur notif)) (\<lambda>_ _. False)"
  unfolding rotate_credential_def
  by (rule h_inst, rule h_finalize [OF H], rule h_track) (auto simp: conds_def tracked_def)

lemma prune_runs:
  assumes H: "healthy E i"
  shows "triple (good E i T b X) (prune_phase E cur notif) (\<lambda>_. good E i T b X) (\<lambda>_ _. False)"
  unfolding prune_phase_def
  by (auto intro!: h_inst h_err [OF H] h_ok simp: or_return_def)

lemma accounts_runs:
  assumes H: "healthy E i"
  shows "runs_well E i T b (accounts_phase E) T b"
  unfolding accounts_phase_def
  by (rule h_inst) (auto intro!: h_err [OF H] h_ok simp: or_return_def)

definition is_ready :: "rstate \<Rightarrow> bool" where
  "is_ready s \<longleftrightarrow> cond_status s ReadyCondition = Some CondTrue"

lemma ready_returns:
  assumes H: "healthy E i" and T: "known_types - {ReadyCondition} \<subseteq> T"
  shows "triple (good E i T b X) (ready_phase E) (\<lambda>_ _. False)
    (\<lambda>a s. a = (NoResult, None) \<and> is_ready s \<and> good E i T b X s)"
  unfolding triple_def
proof (intro allI impI)
  fix s assume s: "good E i T b X s"
  let ?m = "LibMsg ''ReadyMessage''"
  let ?t = "s\<lparr>inst := (inst s)\<lparr>Status := (st_of s)\<lparr>StatusConditions :=
    Some (CMarkTrue (cnd E) (conds (st_of s)) ReadyCondition ?m)\<rparr>\<rparr>\<rparr>"
  have C: "condition_laws (cnd E)" by (rule healthyD(1) [OF H])
  have all: "AllSubConditionIsTrue (cnd E) (conds (st_of s))"
    using good_all_true [OF s T] healthyD(2) [OF H] by (simp add: condition_completeness_def)
  have "cond_status s t \<in> {None, Some CondTrue}" if "t \<in> T" for t using s that by (simp add: good_def)
  moreover have "t \<in> known_types" if "cond_status s t \<noteq> None" for t using s that by (simp add: good_def)
  moreover have "Hash (st_of s) \<noteq> None" "X (tracked (st_of s))"
    "b \<Longrightarrow> \<exists>h. Hash (st_of s) = Some h \<and> h (InputHashName (ut E)) \<noteq> None"
    using s by (auto simp: good_def get_hash_def)
  ultimately have "good E i T b X ?t"
    by (intro good_status [OF s, where st = "st_of ?t"])
       (auto simp: on_conds_tracked condition_simps [OF C] split: if_splits)
  moreover have "is_ready ?t" by (simp add: is_ready_def condition_simps [OF C])
  ultimately show "case ready_phase E s of (Next x, t) \<Rightarrow> False
      | (Return a, t) \<Rightarrow> a = (NoResult, None) \<and> is_ready t \<and> good E i T b X t | (Panic _, _) \<Rightarrow> False"
    by (simp add: ready_phase_def the_inst_def prog_defs all mark_true_def on_conds_def set_status_def)
qed

lemma conclude_returns:
  assumes H: "healthy E i" and T: "known_types - {ReadyCondition} \<subseteq> T"
  shows "triple (good E i T b any_tracked) (conclude E cur notif) (\<lambda>_ _. False)
    (\<lambda>a s. a = (NoResult, None) \<and> is_ready s \<and> good E i T b (rotated_to i cur notif) s)"
  unfolding conclude_def
  apply (rule h_phase [OF accounts_runs [OF H]])
  apply (rule h_phase [OF guard_runs [OF H T]], rule triple_known, simp only: simp_thms)
  apply (rule h_phase [OF rotate_transport_runs [OF H]], rule h_phase [OF rotate_notifications_runs [OF H]])
  apply (rule h_phase [OF rotate_credential_runs [OF H]], rule h_phase [OF prune_runs [OF H]])
  apply (rule ready_returns [OF H T])
  done

lemma conclude_steady: "always (steady (\<lambda>_. True)) (conclude E cur notif)"
  unfolding conclude_def accounts_phase_def guard_ready_def rotate_transport_def rotate_credential_def
    rotate_notifications_def finalize_rotation_def transportURLDeleted_def prune_phase_def ready_phase_def mark_true_def
    on_conds_def
  by (intro steady_rules; simp)

abbreviation handed_over :: "ext \<Rightarrow> NeutronAPI \<Rightarrow> string \<Rightarrow> TransportURL option \<Rightarrow> rstate \<Rightarrow> bool" where
  "handed_over E i cur notif s \<equiv> supplied E i (trace s) cur \<and> notified E i (trace s) notif"

lemma handed_over_lasting: "lasting (handed_over E i cur notif)"
  by (intro lasting_rules)

lemma reconcileNormal_returns:
  assumes H: "healthy E i" and T: "TopologyRef (Spec i) = None \<Longrightarrow> TopologyReadyCondition \<in> T"
  shows "triple (\<lambda>s. good E i T False any_tracked s \<and> rbac_present (inst s)) (reconcileNormal E)
    (\<lambda>_ _. False) (\<lambda>a s. a = (NoResult, None) \<and> is_ready s \<and>
       (\<exists>T cur notif. handed_over E i cur notif s \<and> known_types - {ReadyCondition} \<subseteq> T \<and>
          good E i T True (rotated_to i cur notif) s))"
proof -
  have C: "condition_laws (cnd E)" by (rule healthyD(1) [OF H])
  have "triple (\<lambda>s. good E i T False any_tracked s \<and> rbac_present (inst s)) (prepare E)
      (\<lambda>(cur, notif, _) s. good E i (prepared \<union> T) True any_tracked s \<and> handed_over E i cur notif s) (\<lambda>_ _. False)"
    by (rule triple_pre, rule triple_post [OF triple_guarded [OF prepare_runs [OF H] prepare_asks [OF C]]])
       (auto simp: good_def kin_def)
  note prep = h_phase [OF this]
  have deploy_steady: "always (steady (\<lambda>_. True)) (deploy E mc an)" for mc an
    by (rule always_weaken [OF steady_names_deploy [OF C]]) (auto intro: calm_steady)
  have depl: "triple (\<lambda>s. good E i (prepared \<union> T) True any_tracked s \<and> handed_over E i cur notif s) (deploy E mc an)
      (\<lambda>_ s. good E i (deployed_types \<union> (prepared \<union> T)) True any_tracked s \<and> handed_over E i cur notif s)
      (\<lambda>_ _. False)" for cur notif mc an
    by (rule triple_post [OF triple_guarded [OF deploy_runs [OF H] lasting_frame [OF handed_over_lasting deploy_steady]]])
       (auto simp: T)
  have types: "known_types - {ReadyCondition} \<subseteq> deployed_types \<union> (prepared \<union> T)"
    using types_complete by blast
  have "triple (\<lambda>s. good E i (deployed_types \<union> (prepared \<union> T)) True any_tracked s \<and> handed_over E i cur notif s)
      (conclude E cur notif) (\<lambda>_ _. False) (\<lambda>a s. a = (NoResult, None) \<and> is_ready s \<and>
       (\<exists>T cur notif. handed_over E i cur notif s \<and> known_types - {ReadyCondition} \<subseteq> T \<and>
          good E i T True (rotated_to i cur notif) s))" for cur notif
    by (rule triple_post [OF triple_guarded [OF conclude_returns [OF H types]
          lasting_exits [OF handed_over_lasting conclude_steady]]])
       (use types in blast)+
  then show ?thesis
    unfolding reconcileNormal_def
    by (intro prep) (auto intro!: h_phase [OF depl])
qed

section \<open>Reconcile\<close>

lemma unknowns_absent:
  assumes "condition_laws C" and "t \<notin> fst ` set l"
  shows "status_of (map (\<lambda>(t, m). UnknownCondition C t r m) l) t = None"
  using assms(2) by (induction l) (auto simp: status_of_def get_cond_def condition_simps [OF assms(1)])

lemma init_conditions_absent:
  assumes "condition_laws (cnd E)" and "t \<notin> fst ` set init_messages"
  shows "status_of (init_conditions E) t = None"
  unfolding init_conditions_def status_of_CreateList [OF assms(1)]
  by (rule unknowns_absent [OF assms])

text \<open>
  A resource that a healthy reconcile gets to Ready: not being deleted, held by the operator's
  finalizer, reconciled before, and without a condition that no reconcile would ever set again.
\<close>

definition reconcilable :: "ext \<Rightarrow> NeutronAPI \<Rightarrow> bool" where
  "reconcilable E i \<longleftrightarrow> DeletionTimestamp i = None \<and>
     AddFinalizer (ut E) (Finalizers i) (HelperFinalizer (ut E)) = (Finalizers i, False) \<and>
     StatusConditions (Status i) \<noteq> None \<and>
     (\<forall>t. status_of (conds (Status i)) t \<noteq> None \<longrightarrow> t \<in> known_types) \<and>
     (TopologyRef (Spec i) = None \<longrightarrow>
        status_of (conds (Status i)) TopologyReadyCondition \<in> {None, Some CondTrue})"

lemma body_enters:
  assumes "reconcilable E i" and s: "inst s = i"
  shows "\<exists>st. reconcile_body E False s = reconcileNormal E (s\<lparr>inst := i\<lparr>Status := st\<rparr>\<rparr>) \<and>
    StatusConditions st = Some (CInit (cnd E) (conds (Status i)) (init_conditions E)) \<and> Hash st \<noteq> None"
proof -
  define st0 where "st0 = (Status i)\<lparr>StatusConditions := Some (CInit (cnd E) (conds (Status i)) (init_conditions E)),
    ObservedGeneration := Generation i\<rparr>"
  define st1 where "st1 = (if Hash st0 = None then st0\<lparr>Hash := Some Map.empty\<rparr> else st0)"
  define st2 where "st2 = (if StatusNetworkAttachments st1 = None
    then st1\<lparr>StatusNetworkAttachments := Some Map.empty\<rparr> else st1)"
  have "StatusConditions st2 = Some (CInit (cnd E) (conds (Status i)) (init_conditions E))" "Hash st2 \<noteq> None"
    by (auto simp: st2_def st1_def st0_def)
  moreover have "(i\<lparr>Status := st\<rparr>)\<lparr>Finalizers := Finalizers i\<rparr> = i\<lparr>Status := st\<rparr>" for st by simp
  then have "reconcile_body E False s = reconcileNormal E (s\<lparr>inst := i\<lparr>Status := st2\<rparr>\<rparr>)"
    using assms
    by (cases "Hash (Status i)"; cases "StatusNetworkAttachments (Status i)")
       (simp_all add: reconcile_body_def first_pass_def set_finalizers_def on_conds_def set_status_def
        the_inst_def prog_defs reconcilable_def st2_def st1_def st0_def)
  ultimately show ?thesis by blast
qed

lemma entered_good:
  assumes H: "healthy E i" and i: "reconcilable E i" and s: "inst s = i\<lparr>Status := st\<rparr>"
    and st: "StatusConditions st = Some (CInit (cnd E) (conds (Status i)) (init_conditions E))" "Hash st \<noteq> None"
    and T: "T = (if TopologyRef (Spec i) = None then {TopologyReadyCondition} else {})"
  shows "good E i T False any_tracked s" and "rbac_present (inst s)"
proof -
  have C: "condition_laws (cnd E)" by (rule healthyD(1) [OF H])
  have conds: "conds (st_of s) = CInit (cnd E) (conds (Status i)) (init_conditions E)"
    by (simp add: s conds_def st(1))
  have kept: "cond_status s t \<in> {None, status_of (conds (Status i)) t}" if "t \<notin> fst ` set init_messages" for t
    using healthyD(2) [OF H] init_conditions_absent [OF C that] unfolding conds condition_completeness_def by blast
  have set: "cond_status s t = Some CondUnknown" if "t \<in> fst ` set init_messages" for t
    unfolding conds by (rule init_conditions_unknown [OF C that])
  show "rbac_present (inst s)"
    unfolding rbac_present_def
  proof (intro conjI ballI)
    fix t assume "t \<in> rbac_types"
    then have "t \<in> fst ` set init_messages" using init_types(2) by blast
    from set [OF this] show "cond_status s t \<noteq> None" by simp
  qed (simp add: s st(1))
  have "t \<in> known_types" if "cond_status s t \<noteq> None" for t
  proof (cases "t \<in> fst ` set init_messages")
    case False
    with kept [of t] that i show ?thesis by (auto simp: reconcilable_def)
  qed (simp add: known_types_def)
  moreover have "cond_status s TopologyReadyCondition \<in> {None, Some CondTrue}" if "TopologyRef (Spec i) = None"
  proof -
    have "TopologyReadyCondition \<notin> fst ` set init_messages" by (simp add: init_messages_def)
    from kept [OF this] that i show ?thesis by (auto simp: reconcilable_def)
  qed
  ultimately show "good E i T False any_tracked s"
    using s st(2) unfolding good_def T by auto
qed

text \<open>What a successful reconcile leaves behind.\<close>

definition reached :: "ext \<Rightarrow> NeutronAPI \<Rightarrow> rstate \<Rightarrow> bool" where
  "reached E i s \<longleftrightarrow> is_ready s \<and> all_others_true (conds (st_of s)) \<and>
     (\<exists>tu. asked E (transport_call i) (trace s) tu \<and> TransportURLSecret (st_of s) = TUSecretName tu) \<and>
     (case notifications_bus i of
        None \<Rightarrow> NotificationsTransportURLSecret (st_of s) = None \<or>
          NotificationsTransportURLSecret (st_of s) = Some []
      | Some cfg \<Rightarrow> (\<exists>tu. asked E (notifications_call i cfg) (trace s) tu \<and>
          NotificationsTransportURLSecret (st_of s) = Some (TUSecretName tu))) \<and>
     ApplicationCredentialSecret (st_of s) = AuthApplicationCredentialSecret (Spec i)"

lemma good_reached:
  assumes s: "good E i T b (rotated_to i cur notif) s" and "known_types - {ReadyCondition} \<subseteq> T"
    and "handed_over E i cur notif s" and "is_ready s"
  shows "reached E i s"
proof -
  have "rotated_to i cur notif (tracked (st_of s))" using s by (simp add: good_def)
  with assms good_all_true [OF s assms(2)] show ?thesis
    by (auto simp: reached_def tracked_def supplied_def notified_def tracks_notif_def split: option.splits)
qed

lemma body_returns:
  assumes H: "healthy E i" and i: "reconcilable E i"
  shows "triple (\<lambda>s. inst s = i) (reconcile_body E False) (\<lambda>_ _. False)
    (\<lambda>a s. a = (NoResult, None) \<and> reached E i s)"
  unfolding triple_def
proof (intro allI impI)
  fix s :: rstate assume "inst s = i"
  then obtain st where body: "reconcile_body E False s = reconcileNormal E (s\<lparr>inst := i\<lparr>Status := st\<rparr>\<rparr>)"
    and st: "StatusConditions st = Some (CInit (cnd E) (conds (Status i)) (init_conditions E))" "Hash st \<noteq> None"
    using body_enters [OF i] by blast
  let ?T = "if TopologyRef (Spec i) = None then {TopologyReadyCondition} else {}"
  let ?s = "s\<lparr>inst := i\<lparr>Status := st\<rparr>\<rparr>"
  have "triple (\<lambda>s. good E i ?T False any_tracked s \<and> rbac_present (inst s)) (reconcileNormal E) (\<lambda>_ _. False)
      (\<lambda>a s. a = (NoResult, None) \<and> reached E i s)"
    by (rule triple_post [OF reconcileNormal_returns [OF H]])
       (auto intro: good_reached)
  moreover have "good E i ?T False any_tracked ?s \<and> rbac_present (inst ?s)"
    using entered_good [OF H i _ st refl, of ?s] by simp
  ultimately show "case reconcile_body E False s of (Next x, t) \<Rightarrow> False
      | (Return a, t) \<Rightarrow> a = (NoResult, None) \<and> reached E i t | (Panic _, _) \<Rightarrow> False"
    unfolding body by (simp add: triple_def)
qed

lemma healthy_deferred:
  assumes H: "healthy E i"
  shows "triple (reached E i) (deferred E saved (NoResult, None)) (\<lambda>_ _. False)
    (\<lambda>a s. a = (NoResult, None) \<and> reached E i s \<and> PatchInstance (inst s) \<in> set (trace s))"
proof -
  have C: "condition_laws (cnd E)" and ok: "aErr (cl E) cs = None" for cs
    using healthyD [OF H] by (simp_all add: answers_well_def)
  show ?thesis
    by (simp add: triple_def deferred_def on_conds_def set_status_def the_inst_def prog_defs invoke_def ok
        condition_simps [OF C] reached_def is_ready_def all_others_true_def)
       (auto intro: asked_grown split: option.splits)
qed

lemma healthy_enters:
  assumes H: "healthy E i" and i: "reconcilable E i"
    and fetched: "aInstance (cl E) [GetNeutronAPI name ns] = Inr i" and s: "trace s = []"
  shows "Reconcile E name ns s = with_deferred E (conds (Status i)) (reconcile_body E False)
     (s\<lparr>inst := i, trace := [GetNeutronAPI name ns, NewHelper]\<rparr>)"
proof -
  obtain saved where saved: "StatusConditions (Status i) = Some saved" using i by (auto simp: reconcilable_def)
  have err: "aErr (cl E) cs = None" for cs using healthyD(5) [OF H] by (simp add: answers_well_def)
  show ?thesis by (simp add: Reconcile_def invoke_def prog_defs s fetched err or_return_def saved)
qed

text \<open>
  C4. The operator gets there: on a healthy cluster (every call succeeds, every object it reads is
  ready, the Deployments are observed and rolled out) one reconcile of a resource it holds returns
  without error or requeue and writes the resource back with Ready and every other condition True,
  tracking the current credentials: the Secret that the cluster answered with when this reconcile
  set up the TransportURL of its messaging bus; the one answered for the TransportURL of the
  notifications bus, or none if there is no such bus; and the application credential of the spec.
\<close>

theorem healthy_reconcile_gets_ready:
  assumes H: "healthy E i" and i: "reconcilable E i"
    and fetched: "aInstance (cl E) [GetNeutronAPI name ns] = Inr i" and s: "trace s = []"
  shows "\<exists>t. Reconcile E name ns s = (Return (NoResult, None), t) \<and> PatchInstance (inst t) \<in> set (trace t) \<and>
     reached E i t"
proof -
  let ?s = "s\<lparr>inst := i, trace := [GetNeutronAPI name ns, NewHelper]\<rparr>"
  have "Reconcile E name ns s = with_deferred E (conds (Status i)) (reconcile_body E False) ?s"
    by (rule healthy_enters [OF assms])
  moreover have run: "triple (\<lambda>s. inst s = i) (with_deferred E (conds (Status i)) (reconcile_body E False))
      (\<lambda>_ _. False) (\<lambda>a s. a = (NoResult, None) \<and> reached E i s \<and> PatchInstance (inst s) \<in> set (trace s))"
    unfolding with_deferred_def
    by (rule h_fcall [OF body_returns [OF H i]], rule triple_known) (simp add: healthy_deferred [OF H])
  ultimately show ?thesis
    using tripleD_Next [OF run, of ?s] tripleD_Return [OF run, of ?s] tripleD_Panic [OF run, of ?s]
    by (cases "with_deferred E (conds (Status i)) (reconcile_body E False) ?s" rule: outcome_prod_cases) auto
qed

text \<open>
  The cluster of the examples is healthy for its resource, with or without a CA bundle and whatever
  the image, the timeout and the message bus are.
\<close>

definition sample_spec :: "string \<Rightarrow> string \<Rightarrow> int \<Rightarrow> RabbitMqConfig \<Rightarrow> NeutronAPISpec" where
  "sample_spec ca im tmo bus = blank_spec\<lparr>TLS := (TLS blank_spec)\<lparr>CaBundleSecretName := ca\<rparr>, ContainerImage := im,
     APITimeout := tmo, MessagingBus := bus\<rparr>"

definition sample_api :: "string \<Rightarrow> string \<Rightarrow> int \<Rightarrow> RabbitMqConfig \<Rightarrow> NeutronAPI" where
  "sample_api ca im tmo bus = live_api\<lparr>Spec := sample_spec ca im tmo bus\<rparr>"

abbreviation ca_api :: "string \<Rightarrow> NeutronAPI" where
  "ca_api ca \<equiv> sample_api ca [] 0 blank_rabbit"

lemma ca_api_none: "ca_api [] = live_api"
  by (simp add: sample_api_def sample_spec_def live_api_def blank_api_def blank_spec_def)

lemma list_completeness: "condition_completeness list_conditions"
proof -
  have "status_of (foldl list_set cs l) t \<in> {None, status_of cs t}" if "status_of l t = None" for cs l t
    using that
  proof (induction l arbitrary: cs)
    case (Cons c l)
    then have c: "CondType c \<noteq> t" and "status_of l t = None"
      by (auto simp: status_of_def get_cond_def split: if_splits)
    with Cons.IH [of "list_set cs c"] show ?case
      by (auto simp: status_of_def get_cond_list_set)
  qed simp
  moreover have "list_all_sub cs" if "all_others_true cs" for cs
    unfolding list_all_sub_def list_all_iff
  proof
    fix c assume "c \<in> set cs"
    then have "get_cond cs (CondType c) \<noteq> None" by (auto simp: get_cond_def find_None_iff)
    with that show "CondType c = ReadyCondition \<or> status_of cs (CondType c) = Some CondTrue"
      by (auto simp: all_others_true_def status_of_def)
  qed
  ultimately show ?thesis by (auto simp: condition_completeness_def list_conditions_def)
qed

lemma live_answers_well: "answers_well (live_cluster\<lparr>aInstance := f\<rparr>)"
  by (auto simp: answers_well_def live_cluster_def plain_cluster_def rbac_types_def list_true_def
      split: call.split)

lemma live_objects: "objects_ready (plain_ext (live_cluster\<lparr>aInstance := f\<rparr>)) (sample_api ca im tmo bus)"
  by (auto simp: objects_ready_def live_cluster_def plain_cluster_def sample_api_def sample_spec_def live_api_def blank_api_def
      blank_spec_def plain_memcached_def list_conditions_def list_true_def plain_util_def split: call.split)

lemma live_fields:
  "Spec ((sample_api ca im tmo bus)\<lparr>Status := st\<rparr>) = sample_spec ca im tmo bus" "Name ((sample_api ca im tmo bus)\<lparr>Status := st\<rparr>) = Name blank_api"
  by (simp_all add: sample_api_def sample_spec_def live_api_def blank_api_def)

lemma live_buildable: "buildable (plain_ext (live_cluster\<lparr>aInstance := f\<rparr>)) (sample_api ca im tmo bus)"
proof -
  have "\<not> IsOVNEnabled ((sample_api ca im tmo bus)\<lparr>Status := st\<rparr>)" for st
    by (simp add: IsOVNEnabled_def live_fields sample_spec_def blank_spec_def)
  then have workers: "\<exists>p. workerVolumesAndMounts plain_pod ((sample_api ca im tmo bus)\<lparr>Status := st\<rparr>) mc = Some p"
    and api: "\<exists>vs api httpd. deployment_volumes plain_pod ((sample_api ca im tmo bus)\<lparr>Status := st\<rparr>) mc = Ok (vs, api, httpd)" for st mc
    by (simp_all add: workerVolumesAndMounts_shape deployment_volumes_shape live_fields sample_spec_def blank_api_fields
        plain_volumes ovn_cert_def plain_endpoint_certs blank_spec_def)
  have job: "\<exists>j. DbSyncJob plain_pod ((sample_api ca im tmo bus)\<lparr>Status := st\<rparr>) ls an = Ok j" for st ls an
    by (simp add: DbSyncJob_def live_fields sample_spec_def blank_spec_def GetVolumes_def extra_groups_def Let_def)
  have "\<exists>d. Deployment plain_pod ((sample_api ca im tmo bus)\<lparr>Status := st\<rparr>) h ls an t mc w = Ok d" for st h ls an t mc w
    using api [of st mc] by (auto simp: Deployment_def)
  moreover have "\<exists>d. RPCDeployment plain_pod ((sample_api ca im tmo bus)\<lparr>Status := st\<rparr>) h ls an t mc = Ok d"
    and "\<exists>d. WorkerDeployment plain_pod ((sample_api ca im tmo bus)\<lparr>Status := st\<rparr>) h ls an t mc = Ok d" for st h ls an t mc
    using workers [of st mc] by (auto simp: RPCDeployment_def WorkerDeployment_def)
  ultimately show ?thesis using job by (simp add: buildable_def)
qed

lemma sample_healthy: "healthy (plain_ext (live_cluster\<lparr>aInstance := f\<rparr>)) (sample_api ca im tmo bus)"
proof -
  have "ensure_laws (live_cluster\<lparr>aInstance := f\<rparr>)"
    using plain_ensure_laws by (simp add: ensure_laws_def live_cluster_def)
  then show ?thesis
    using live_answers_well live_objects live_buildable
    by (simp add: healthy_def list_conditions_laws list_completeness plain_util_laws)
qed

lemma ca_healthy: "healthy (plain_ext live_cluster) (ca_api ca)"
proof -
  have "live_cluster\<lparr>aInstance := \<lambda>_. Inr live_api\<rparr> = live_cluster"
    by (simp add: live_cluster_def plain_cluster_def)
  then show ?thesis using sample_healthy [of "\<lambda>_. Inr live_api" ca] by metis
qed

lemmas live_healthy = ca_healthy [of "[]", unfolded ca_api_none]

lemma live_reconcilable: "reconcilable (plain_ext live_cluster) live_api"
  by (simp add: reconcilable_def live_api_def blank_api_def blank_status_def plain_util_def conds_def
      status_of_def get_cond_def)

theorem healthy_reconcile_gets_ready_witness:
  "\<exists>t. Reconcile (plain_ext live_cluster) ''neutron'' ''openstack'' fresh_state = (Return (NoResult, None), t) \<and>
     reached (plain_ext live_cluster) live_api t"
  using healthy_reconcile_gets_ready [OF live_healthy live_reconcilable, of "''neutron''" "''openstack''" fresh_state]
  by (auto simp: live_answers fresh_fields)

end
