(* ===== verification/InputHash.thy ===== *)
theory InputHash
  imports Liveness
begin

text \<open>
  The hash that rolls the pods: which inputs the hash covers that \<^verbatim>\<open>reconcileInit\<close> records and the
  Deployments carry, and the one way in which \<^verbatim>\<open>reconcileInit\<close> reports success without recording
  it.
\<close>

lemma triple_total:
  assumes "triple P m Q (\<lambda>_ _. False)" and "P s"
  shows "\<exists>x t. m s = (Next x, t) \<and> Q x t"
  using assms by (cases "m s" rule: outcome_prod_cases) (auto simp: triple_def)

section \<open>Loud exits\<close>

text \<open>
  A computation is loud if it never returns the empty result without an error, which the caller
  takes for success.
\<close>

definition loud :: "'a reconcile \<Rightarrow> bool" where
  "loud m \<longleftrightarrow> (\<forall>s t. m s \<noteq> (Return (NoResult, None), t))"

lemma loud_ok: "loud (ok x)"
  by (simp add: loud_def ok_def)

lemma loud_ret: "a \<noteq> (NoResult, None) \<Longrightarrow> loud (ret a)"
  by (simp add: loud_def ret_def)

lemma loud_panic: "loud (panic p)"
  by (simp add: loud_def panic_def)

lemma loud_andthen: "loud m \<Longrightarrow> (\<And>x. loud (f x)) \<Longrightarrow> loud (andthen m f)"
  unfolding loud_def by (auto elim!: andthen_ReturnE)

lemma loud_fcall: "loud (fcall m)"
  by (simp add: loud_def fcall_def split: prod.split outcome.split)

lemma loud_if: "(b \<Longrightarrow> loud m) \<Longrightarrow> (\<not> b \<Longrightarrow> loud n) \<Longrightarrow> loud (if b then m else n)"
  by simp

lemma loud_option: "(z = None \<Longrightarrow> loud m) \<Longrightarrow> (\<And>x. z = Some x \<Longrightarrow> loud (f x)) \<Longrightarrow>
    loud (case z of None \<Rightarrow> m | Some x \<Rightarrow> f x)"
  by (cases z) auto

lemma loud_sum: "(\<And>e. loud (f e)) \<Longrightarrow> (\<And>x. loud (g x)) \<Longrightarrow> loud (case z of Inl e \<Rightarrow> f e | Inr x \<Rightarrow> g x)"
  by (cases z) auto

lemma loud_prod: "(\<And>x y. loud (f x y)) \<Longrightarrow> loud (case z of (x, y) \<Rightarrow> f x y)"
  by (cases z) auto

lemma loud_prod_arg: "(\<And>x y. loud (f x y a)) \<Longrightarrow> loud ((case z of (x, y) \<Rightarrow> f x y) a)"
  by (cases z) auto

lemma loud_let: "loud (f x) \<Longrightarrow> loud (let y = x in f y)"
  by simp

lemma loud_basic:
  "loud the_inst" "loud (invoke g c)" "loud (set_status f)" "loud (on_conds h)" "loud (mark_true E t m)"
  "loud (set_cond E c')" "loud (set_false E t r v m a)" "loud (set_var n w)" "loud (put_hash n w')"
  "loud (must_build d)" "loud (reads q)"
  by (auto simp: loud_def the_inst_def reads_def invoke_def set_status_def on_conds_def mark_true_def
      set_cond_def set_false_def set_var_def put_hash_def update_def andthen_def panic_def must_build_def ok_def
      split: option.split res.split)

lemmas loud_rules = loud_ok loud_panic loud_fcall loud_andthen loud_if loud_option loud_sum
  loud_prod loud_prod_arg loud_let loud_basic

lemma loud_config_failed: "loud (config_failed E e)"
  unfolding config_failed_def by (intro loud_rules loud_ret) simp

lemma loud_phases:
  "loud (init_database E)" "loud (init_config E db ls an n m)" "loud (init_hash E)"
  "loud (init_credential E)" "loud (init_dbsync E ls an)" "loud (init_expose E ls)"
  "loud (init_keystone E ls eps)"
proof -
  show "loud (init_database E)"
    unfolding init_database_def by (intro loud_rules loud_ret) simp_all
  show "loud (init_config E db ls an n m)" "loud (init_hash E)" "loud (init_credential E)"
    unfolding init_config_def init_hash_def init_credential_def
    by (intro loud_rules loud_config_failed)+
  show "loud (init_dbsync E ls an)"
    unfolding init_dbsync_def by (intro loud_rules loud_ret) simp_all
  have "loud (expose_endpoint E ls e)" for e
    unfolding expose_endpoint_def service_failed_def by (intro loud_rules loud_ret) simp_all
  then have "loud (expose_endpoints E ls es eps)" for es eps
    by (induction es arbitrary: eps) (auto intro!: loud_ok loud_andthen loud_prod)
  then show "loud (init_expose E ls)"
    unfolding init_expose_def by (intro loud_rules)
  show "loud (init_keystone E ls eps)"
    unfolding init_keystone_def mirror_into_def by (intro loud_rules loud_ret) simp_all
qed

section \<open>What reconcileInit records\<close>

text \<open>The TLS input is reported missing, or the hash of the collected inputs is recorded.\<close>

definition recorded_inputs :: "ext \<Rightarrow> rstate \<Rightarrow> bool" where
  "recorded_inputs E s \<longleftrightarrow> (\<exists>h. ObjectHash (ut E) (MergeEnvs (pod E) [] (vars s)) = Inr h \<and>
     get_hash (inst s) (InputHashName (ut E)) = Some h)"

lemma init_hash_records:
  assumes U: "util_laws (ut E)" and run: "init_hash E s = (Next x, t)"
  shows "recorded_inputs E t"
proof -
  obtain h where h: "ObjectHash (ut E) (MergeEnvs (pod E) [] (vars s)) = Inr h"
    using run by (cases "ObjectHash (ut E) (MergeEnvs (pod E) [] (vars s))")
      (auto simp: init_hash_def createHashOfInputHashes_def prog_defs config_failed_def set_false_def set_cond_def
        on_conds_def set_status_def split: prod.splits)
  let ?r = "SetHash (ut E) (Hash (st_of s)) (InputHashName (ut E)) h"
  have law: "snd ?r \<longleftrightarrow> get_hash (inst s) (InputHashName (ut E)) \<noteq> Some h"
    "snd ?r \<Longrightarrow> \<exists>m. fst ?r = Some (m(InputHashName (ut E) \<mapsto> h))"
    using U by (auto simp: util_laws_def get_hash_def)
  from run h have t: "t = (if snd ?r then s\<lparr>inst := (inst s)\<lparr>Status := (st_of s)\<lparr>Hash := fst ?r\<rparr>\<rparr>\<rparr> else s)"
    by (auto simp: init_hash_def createHashOfInputHashes_def prog_defs the_inst_def set_status_def
        case_prod_unfold split: if_splits)
  with h law show ?thesis by (auto simp: recorded_inputs_def get_hash_def)
qed

text \<open>After the hash is recorded nothing of it changes.\<close>

definition same_inputs :: "ext \<Rightarrow> rstate \<Rightarrow> rstate \<Rightarrow> bool" where
  "same_inputs E s t \<longleftrightarrow> vars t = vars s \<and>
     get_hash (inst t) (InputHashName (ut E)) = get_hash (inst s) (InputHashName (ut E)) \<and>
     cond_status t TLSInputReadyCondition = cond_status s TLSInputReadyCondition"

interpretation inputs: step_frame "same_inputs E" for E
  by unfold_locales (auto simp: same_inputs_def)

lemma inputs_conds:
  assumes "\<And>cs. status_of (f cs) TLSInputReadyCondition = status_of cs TLSInputReadyCondition"
  shows "always (same_inputs E) (on_conds f)"
  unfolding on_conds_def set_status_def
  by (rule inputs.frame_update) (simp add: same_inputs_def get_hash_def assms)

lemma inputs_basic:
  shows "always (same_inputs E) the_inst" "always (same_inputs E) (invoke g c)"
    "always (same_inputs E) (must_build d)"
    "n \<noteq> InputHashName (ut E) \<Longrightarrow> always (same_inputs E) (put_hash n w)"
  by (auto simp: always_def same_inputs_def invoke_def the_inst_def reads_def must_build_def ok_def panic_def
        put_hash_def andthen_def set_status_def update_def get_hash_def split: option.split res.split)

lemma inputs_marks:
  assumes C: "condition_laws (cnd E)" and t: "t \<noteq> TLSInputReadyCondition"
  shows "always (same_inputs E) (mark_true E t m)" "always (same_inputs E) (set_false E t r v m a)"
    "CondType k = t \<Longrightarrow> always (same_inputs E) (set_cond E k)"
  using t unfolding set_false_def set_cond_def mark_true_def
  by (auto intro!: inputs_conds simp: condition_simps [OF C])

lemma inputs_phases:
  assumes C: "condition_laws (cnd E)" and K: "DbSyncHash \<noteq> InputHashName (ut E)"
  shows "always (same_inputs E) (init_credential E)" "always (same_inputs E) (init_dbsync E ls an)"
    "always (same_inputs E) (init_expose E ls)" "always (same_inputs E) (init_keystone E ls eps)"
proof -
  note rules = inputs.frame_rules inputs_basic inputs_marks [OF C]
  show "always (same_inputs E) (init_credential E)"
    unfolding init_credential_def config_failed_def by (intro rules) simp_all
  show "always (same_inputs E) (init_dbsync E ls an)"
    unfolding init_dbsync_def by (intro rules) (simp_all add: K)
  have "always (same_inputs E) (expose_endpoint E ls e)" for e
    unfolding expose_endpoint_def service_failed_def by (intro rules) simp_all
  then have "always (same_inputs E) (expose_endpoints E ls es eps)" for es eps
    by (induction es arbitrary: eps) (auto intro!: inputs.frame_rules)
  then show "always (same_inputs E) (init_expose E ls)"
    unfolding init_expose_def by (intro rules) simp_all
  have "always (same_inputs E) (mirror_into E t a cs)" if "t \<noteq> TLSInputReadyCondition" for t a cs
    using that Mirror_type [OF C, of cs t]
    by (auto simp: mirror_into_def intro!: inputs.frame_rules inputs_basic inputs_marks [OF C] split: option.split)
  then show "always (same_inputs E) (init_keystone E ls eps)"
    unfolding init_keystone_def by (intro rules) simp_all
qed

section \<open>The two silent ends of reconcileInit\<close>

lemma tls_failed_silent:
  assumes C: "condition_laws (cnd E)" and run: "tls_failed E e r v w s = (Return (NoResult, None), t)"
  shows "cond_status t TLSInputReadyCondition = Some CondFalse"
  using run by (auto simp: tls_failed_def set_false_def set_cond_def on_conds_def set_status_def prog_defs
      condition_simps [OF C] split: if_splits)

lemma tls_checks_silent:
  assumes C: "condition_laws (cnd E)"
    and run: "m s = (Return (NoResult, None), t)" and m: "m \<in> {validate_ca E, validate_api_certs E, validate_ovn_cert E}"
  shows "cond_status t TLSInputReadyCondition = Some CondFalse"
  using m run
  by (auto simp: validate_ca_def validate_api_certs_def validate_ovn_cert_def the_inst_def invoke_def set_var_def
      prog_defs Let_def dest!: tls_failed_silent [OF C] split: sum.splits if_splits)

lemma init_tls_silent:
  assumes C: "condition_laws (cnd E)" and run: "init_tls E s = (Return (NoResult, None), t)"
  shows "cond_status t TLSInputReadyCondition = Some CondFalse"
  using run tls_checks_silent [OF C] loud_basic(5) [of E TLSInputReadyCondition]
  unfolding init_tls_def loud_def by (elim andthen_ReturnE) blast+

lemma reconcileInit_silent:
  assumes C: "condition_laws (cnd E)" and U: "util_laws (ut E)" and K: "DbSyncHash \<noteq> InputHashName (ut E)"
    and run: "reconcileInit E ls an n m s = (Return (NoResult, None), t)"
  shows "cond_status t TLSInputReadyCondition = Some CondFalse \<or> recorded_inputs E t"
proof -
  have kept: "always (same_inputs E) (andthen (init_credential E) (\<lambda>_. andthen (init_dbsync E ls an) (\<lambda>_.
      andthen (init_expose E ls) (\<lambda>eps. andthen (init_keystone E ls eps) (\<lambda>_. ret (NoResult, None)))))
      :: answer reconcile)" (is "always _ ?rest") by (intro inputs.frame_rules inputs_phases [OF C K])
  have "recorded_inputs E t" if "recorded_inputs E u" and "?rest u = (Return (NoResult, None), t)" for u
    using that(1) alwaysD [OF kept, of u] unfolding that(2) by (simp add: recorded_inputs_def same_inputs_def)
  with run loud_phases init_tls_silent [OF C] init_hash_records [OF U] show ?thesis
    unfolding reconcileInit_def loud_def
    by (elim andthen_ReturnE [of "init_database E"] andthen_ReturnE [of "init_config E _ _ _ _ _"]
        andthen_ReturnE [of "init_tls E"] andthen_ReturnE [of "init_hash E"]) metis+
qed

lemma init_phase_passes:
  assumes "init_phase E an n notif s = (Next (), t)"
  shows "reconcileInit E (serviceLabels E) an n (map_option TUSecretName notif) s = (Return (NoResult, None), t)"
    (is "?init s = _")
proof -
  have "\<not> (\<exists>a u. ?init s = (Next a, u))"
    unfolding reconcileInit_def by (auto simp: ret_def elim!: andthen_NextE)
  with assms show ?thesis
    by (cases "?init s" rule: outcome_prod_cases)
       (auto simp: init_phase_def fcall_def settle_def reconcileUpdate_def reconcileUpgrade_def prog_defs
         split: option.splits if_splits)
qed

section \<open>Properties\<close>

text \<open>
  C8. The pods carry the inputs of this reconcile: when the init phase passes without reporting
  the TLS input as not ready, the hash the next phase reads for the Deployments is the hash over the inputs
  collected in this very reconcile, not one an earlier reconcile left behind.
\<close>

theorem pods_carry_current_inputs:
  assumes C: "condition_laws (cnd E)" and U: "util_laws (ut E)" and K: "DbSyncHash \<noteq> InputHashName (ut E)"
    and run: "init_phase E an n notif s = (Next (), t)"
    and tls: "cond_status t TLSInputReadyCondition \<noteq> Some CondFalse"
  shows "\<exists>h. ObjectHash (ut E) (MergeEnvs (pod E) [] (vars t)) = Inr h \<and> input_hash_phase E t = (Next h, t)"
  using reconcileInit_silent [OF C U K init_phase_passes [OF run]] tls
  by (auto simp: recorded_inputs_def input_hash_phase_def the_inst_def prog_defs)

text \<open>A resource at the start of \<^verbatim>\<open>reconcileInit\<close>, on the cluster of the examples.\<close>

definition entering :: "string \<Rightarrow> rstate" where
  "entering ca = \<lparr>inst = (ca_api ca)\<lparr>Status := blank_status\<lparr>Hash := Some Map.empty\<rparr>\<rparr>, vars = [], trace = []\<rparr>"

lemma entering_good: "good (plain_ext c) (ca_api ca) {} False any_tracked (entering ca)"
  by (auto simp: good_def entering_def blank_status_def conds_def status_of_def get_cond_def)

theorem pods_carry_current_inputs_witness:
  "\<exists>t h. init_phase (plain_ext live_cluster) Map.empty ''tu'' None (entering []) = (Next (), t) \<and>
     ObjectHash plain_util (MergeEnvs plain_pod [] (vars t)) = Inr h \<and>
     input_hash_phase (plain_ext live_cluster) t = (Next h, t)"
proof -
  let ?E = "plain_ext live_cluster"
  have runs: "runs_well ?E (ca_api []) {} False (init_phase ?E Map.empty ''tu'' None) (init_types_true \<union> {}) True"
    by (rule init_runs [OF ca_healthy]) simp_all
  obtain t where run: "init_phase ?E Map.empty ''tu'' None (entering []) = (Next (), t)"
    and t: "good ?E (ca_api []) (init_types_true \<union> {}) True any_tracked t"
    using triple_total [OF runs entering_good] by auto
  from t have "cond_status t TLSInputReadyCondition \<noteq> Some CondFalse"
    by (auto simp: good_def init_types_true_def)
  moreover have "DbSyncHash \<noteq> InputHashName plain_util" by (simp add: DbSyncHash_def plain_util_def)
  ultimately show ?thesis
    using pods_carry_current_inputs [OF _ _ _ run] run by (auto simp: list_conditions_laws plain_util_laws)
qed

text \<open>
  C12. A missing CA bundle Secret does not stop the reconcile: \<^verbatim>\<open>reconcileInit\<close> reports the TLS input
  as not ready and returns no error and no requeue, so the caller goes on as after a success. The
  hash and the database sync are skipped; the pods are rolled out with the hash that an earlier
  reconcile recorded, and only a resource without such a hash ends in an error.
\<close>

theorem missing_ca_goes_on:
  assumes C: "condition_laws (cnd E)"
    and db: "init_database E s = (Next db, u)"
    and config: "init_config E db (serviceLabels E) an n (map_option TUSecretName notif) u = (Next (), v)"
    and ca: "CaBundleSecretName (TLS (Spec (inst v))) \<noteq> []"
    and missing: "aString (cl E) (trace v @ [ValidateCACertSecret (CaBundleSecretName (TLS (Spec (inst v))))
      (Namespace (inst v))]) = Inl e" "IsNotFound e"
  shows "\<exists>t. init_phase E an n notif s = (Next (), t) \<and>
     cond_status t TLSInputReadyCondition = Some CondFalse \<and> Hash (st_of t) = Hash (st_of v) \<and>
     trace t = trace v @ [ValidateCACertSecret (CaBundleSecretName (TLS (Spec (inst v)))) (Namespace (inst v))] \<and>
     input_hash_phase E t = (case get_hash (inst v) (InputHashName (ut E)) of
         None \<Rightarrow> Return (NoResult, Some (Errorf [] (LibSentinel ''util.ErrInvalidStatus'')
                   '' input hash for Neutron deployment''))
       | Some h \<Rightarrow> Next h, t)"
proof -
  obtain t where tls: "init_tls E v = (Return (NoResult, None), t)"
    and t: "cond_status t TLSInputReadyCondition = Some CondFalse" "Hash (st_of t) = Hash (st_of v)"
      "trace t = trace v @ [ValidateCACertSecret (CaBundleSecretName (TLS (Spec (inst v)))) (Namespace (inst v))]"
    using ca missing
    by (auto simp: init_tls_def validate_ca_def Let_def the_inst_def invoke_def tls_failed_def set_false_def
        set_cond_def on_conds_def set_status_def prog_defs condition_simps [OF C])
  have "init_phase E an n notif s = (Next (), t)"
    by (simp add: init_phase_def reconcileInit_def fcall_def andthen_def db config tls settle_def ok_def
        reconcileUpdate_def reconcileUpgrade_def ret_def)
  with t show ?thesis
    by (auto simp: input_hash_phase_def the_inst_def prog_defs get_hash_def split: option.split)
qed

text \<open>Neither the database nor the configuration asks for a certificate.\<close>

definition answering :: "ext \<Rightarrow> (call list \<Rightarrow> goerror + string) \<Rightarrow> ext" where
  "answering E f = E\<lparr>cl := (cl E)\<lparr>aString := f\<rparr>\<rparr>"

lemma answering_fields [simp]:
  "cnd (answering E f) = cnd E" "pod (answering E f) = pod E" "ut (answering E f) = ut E"
  "aString (cl (answering E f)) = f" "serviceLabels (answering E f) = serviceLabels E"
  by (simp_all add: answering_def serviceLabels_def)

lemma answering_config:
  "init_database (answering E f) = init_database E"
  "init_config (answering E f) db ls an n m = init_config E db ls an n m"
  by (simp_all add: init_database_def init_config_def ensureDB_def generateServiceSecrets_def base_params_def
    notifications_params_def ac_params_def ovn_params_def IsWSGIEffective_def getTransportURL_def ensure_secrets_def
    answering_def mark_true_def set_false_def set_cond_def config_failed_def httpdVhostConfig_def vhost_def
    mtls_params_def cong: option.case_cong sum.case_cong prod.case_cong if_cong)

theorem missing_ca_goes_on_witness:
  "\<exists>t. init_phase (answering (plain_ext live_cluster) (\<lambda>_. Inl (LibErr True ''ca''))) Map.empty ''tu'' None
      (entering ''ca'') = (Next (), t) \<and> cond_status t TLSInputReadyCondition = Some CondFalse"
proof -
  let ?E = "plain_ext live_cluster" and ?F = "answering (plain_ext live_cluster) (\<lambda>_. Inl (LibErr True ''ca''))"
  have runs: "runs_well ?E (ca_api ''ca'') {} False (init_database ?E)
      ({MariaDBAccountReadyCondition, DBReadyCondition} \<union> {}) False"
    by (rule database_runs [OF ca_healthy])
  obtain db u where db: "init_database ?E (entering ''ca'') = (Next db, u)"
    and u: "good ?E (ca_api ''ca'') ({MariaDBAccountReadyCondition, DBReadyCondition} \<union> {}) False any_tracked u"
    using triple_total [OF runs entering_good] by blast
  have runs: "runs_well ?E (ca_api ''ca'') ({MariaDBAccountReadyCondition, DBReadyCondition} \<union> {}) False
      (init_config ?E db (serviceLabels ?E) Map.empty ''tu'' None)
      ({MariaDBAccountReadyCondition, DBReadyCondition} \<union> {}) False"
    by (rule config_runs [OF ca_healthy]) simp_all
  obtain v where v: "init_config ?E db (serviceLabels ?E) Map.empty ''tu'' None u = (Next (), v)"
    and i: "Spec (inst v) = Spec (ca_api ''ca'')"
    using triple_total [OF runs u] by (auto simp: good_def)
  from i have "CaBundleSecretName (TLS (Spec (inst v))) \<noteq> []" by (simp add: sample_api_def sample_spec_def)
  then show ?thesis
    using missing_ca_goes_on [of ?F "entering ''ca''" db u Map.empty "''tu''" None v] db v
    by (auto simp: answering_config list_conditions_laws)
qed

end
