(* ===== verification/Pruning.thy ===== *)
theory Pruning
  imports InputHash
begin

text \<open>
  Pruning of consumer finalizers at the end of a reconcile: \<^verbatim>\<open>PruneSecretConsumerFinalizers\<close> takes
  the finalizer off every Secret but the ones it is given, whether or not the rollout is complete,
  so the list it is given has to hold every Secret the resource still depends on.
\<close>

section \<open>What a pruning call has to keep\<close>

fun unpruned :: "call \<Rightarrow> bool" where
  "unpruned (PruneSecretConsumerFinalizers ns f keep) = False"
| "unpruned c = True"

fun spares :: "NeutronAPI \<Rightarrow> call \<Rightarrow> bool" where
  "spares i (PruneSecretConsumerFinalizers ns f keep) =
     (ns = Namespace i \<and>
      (f = TransportConsumerFinalizer \<and>
         insert (TransportURLSecret (Status i)) (set_option (NotificationsTransportURLSecret (Status i)))
           \<subseteq> set keep \<or>
       f = ACConsumerFinalizer \<and>
         {ApplicationCredentialSecret (Status i), AuthApplicationCredentialSecret (Spec i)} \<subseteq> set keep))"
| "spares i c = True"

definition spared :: "rstate \<Rightarrow> bool" where
  "spared s \<longleftrightarrow> DeletionTimestamp (inst s) = None \<longrightarrow> list_all (spares (inst s)) (trace s)"

lemma unpruned_routine: "routine c \<Longrightarrow> unpruned c"
  by (cases c) simp_all

lemma unpruned_spares: "unpruned c \<Longrightarrow> spares i c"
  by (cases c) simp_all

section \<open>Up to the pruning\<close>

definition silent :: "NeutronAPI \<Rightarrow> rstate \<Rightarrow> bool" where
  "silent i s \<longleftrightarrow> list_all unpruned (trace s) \<and> DeletionTimestamp (inst s) = DeletionTimestamp i"

definition held :: "rstate \<Rightarrow> rstate \<Rightarrow> bool" where
  "held s t \<longleftrightarrow> grown unpruned s t \<and> DeletionTimestamp (inst t) = DeletionTimestamp (inst s)"

interpretation held: step_frame held
  by unfold_locales (auto simp: held_def grown_refl intro: grown_trans)

lemma silent_spared: "silent i s \<Longrightarrow> spared s"
  by (auto simp: silent_def spared_def list_all_iff intro: unpruned_spares)

lemma silent_held: "always held m \<Longrightarrow> guarded (silent i) m (\<lambda>_. silent i) spared"
  by (erule guarded_frame) (auto simp: silent_def held_def grown_def list_all_iff intro: silent_spared)

lemma held_steady: "always (steady unpruned) m \<Longrightarrow> always held m"
  by (erule always_weaken) (auto simp: steady_def held_def dest: status_onlyD)

lemma held_cool: "always (cool late routine) m \<Longrightarrow> always held m"
  by (erule always_weaken)
     (auto simp: cool_def held_def grown_def list_all_iff intro: unpruned_routine dest: status_onlyD)

lemmas held_calm = held_cool [OF cool_of_calm]

lemma held_rbac: "always held (rbac_phase E)"
proof -
  have "DeletionTimestamp (foldl (RbacConditionsSet C) i cs) = DeletionTimestamp i" for C i cs
    by (induction cs arbitrary: i) (simp_all add: RbacConditionsSet_def)
  then have "always held (update (\<lambda>s. s\<lparr>inst := foldl (RbacConditionsSet (cnd E)) (inst s) cs\<rparr>))" for cs
    by (intro held.frame_update) (simp add: held_def grown_def)
  then show ?thesis
    unfolding rbac_phase_def
    by (intro held.frame_rules held_steady [OF steady_basic(1)] held_steady [OF steady_basic(3)]
        held_steady [OF steady_invoke]) simp_all
qed

lemma held_prepare:
  assumes C: "condition_laws (cnd E)"
  shows "always held (prepare E)"
  unfolding prepare_def by (intro held.frame_andthen [OF held_rbac]) (rule held_cool [OF cool_prepare_rest [OF C]])

lemma steady_deployments:
  "always (steady unpruned) (deployment_phase E an tp mc h w)"
  "always (steady unpruned) (workers_phase E an tp mc h w)"
  unfolding deployment_phase_def deployment_failed_def deployment_running_def observe_deployment_def
    workers_phase_def rpc_phase_def worker_phase_def eventlet_phase_def roll_out_def delete_deployment_def
    must_build_def set_false_def set_cond_def mark_true_def remove_cond_def on_conds_def
  by (intro steady_rules always_res; simp)+

lemma held_deploy:
  assumes C: "condition_laws (cnd E)"
  shows "always held (deploy E mc an)"
proof -
  have "always (calm late routine) (fcall (IsWSGIEffective E ls an))" for ls
    by (intro calm.frame_fcall calm_IsWSGIEffective) simp_all
  then show ?thesis
    unfolding deploy_def
    by (intro held.frame_andthen steady_deployments [THEN held_steady] held_calm calm_init_phases C)
qed

lemma held_rotation:
  "always held (rotate_transport E c g)" "always held (rotate_credential E g)"
  "always held (rotate_notifications E n g)"
  unfolding rotate_transport_def rotate_credential_def rotate_notifications_def
    finalize_rotation_def transportURLDeleted_def
  by (intro held_steady steady_rules; simp)+

section \<open>The pruning and after\<close>

lemma prune_spares: "guarded (silent i) (prune_phase E cur notif) (\<lambda>_. spared) spared"
  unfolding guarded_def
  by (auto simp: prune_phase_def the_inst_def invoke_def or_return_def prog_defs spared_def silent_def list_all_iff
      intro: unpruned_spares split: option.split)

lemma spares_cong:
  assumes "tracked (Status i) = tracked (Status j)" and "Spec i = Spec j" and "Namespace i = Namespace j"
  shows "spares i c = spares j c"
  using assms by (cases c) (simp_all add: tracked_def)

lemma spared_calm: "always (calm {} unpruned) m \<Longrightarrow> guarded spared m (\<lambda>_. spared) spared"
proof (erule guarded_frame)
  fix s t assume "spared s" and st: "calm {} unpruned s t"
  then have "spares (inst t) c = spares (inst s) c" for c
    by (intro spares_cong) (auto simp: calm_def dest: status_onlyD)
  with \<open>spared s\<close> st show "spared t"
    by (auto simp: spared_def calm_def grown_def list_all_iff dest: status_onlyD intro: unpruned_spares)
qed

lemma calm_conds: "always (calm {} unpruned) (on_conds f)"
  unfolding on_conds_def by (rule calm_status) (simp_all add: on_conds_tracked)

lemma conclude_spares: "guarded (silent i) (conclude E cur notif) (\<lambda>_. spared) spared"
proof -
  have "always (calm {} unpruned) (ready_phase E)"
    unfolding ready_phase_def mark_true_def by (intro calm_rules calm_conds)
  then show ?thesis
    unfolding conclude_def guard_ready_def
    by (intro guarded_andthen [OF silent_held] held_rotation held_calm [OF accounts_calm] held.frame_reads
        guarded_andthen [OF prune_spares] spared_calm)
qed

lemma reconcileNormal_spares:
  assumes C: "condition_laws (cnd E)"
  shows "guarded (silent i) (reconcileNormal E) (\<lambda>_. spared) spared"
  unfolding reconcileNormal_def
  by (intro guarded_andthen [OF silent_held [OF held_prepare [OF C]]])
     (auto intro!: guarded_andthen [OF silent_held [OF held_deploy [OF C]]] conclude_spares split: prod.split)

text \<open>A deletion prunes every finalizer; it is recognised by the timestamp, which it keeps.\<close>

lemma reconcileDelete_spares:
  assumes "DeletionTimestamp i \<noteq> None"
  shows "guarded (silent i) (reconcileDelete E) (\<lambda>_. spared) spared"
proof -
  have "always owned_fields (reconcileDelete E)"
    unfolding reconcileDelete_def
    by (intro owned.frame_rules owned_finalizers owned_untouched [OF untouched_release_all]
        owned_steady [OF steady_basic(1)])
  then show ?thesis
  proof (rule guarded_frame)
    fix s t assume "silent i s" and "owned_fields s t"
    with assms show "spared t"
      by (cases "inst s"; cases "inst t") (auto simp: silent_def owned_fields_def spared_def)
  qed
qed

lemma held_first_steps:
  "always held (set_status f)" "always held (on_conds g)" "always held (first_pass E isNew)"
proof -
  have "always held (set_finalizers fs :: (rstate, answer, unit) prog)" for fs
    unfolding set_finalizers_def by (rule held.frame_update) (simp add: held_def grown_def)
  then show "always held (first_pass E isNew)"
    unfolding first_pass_def by (intro held.frame_rules held_steady [OF steady_basic(1)])
qed (simp_all add: on_conds_def held_steady [OF steady_status])

lemma reconcile_body_spares:
  assumes C: "condition_laws (cnd E)"
  shows "guarded (silent i) (reconcile_body E isNew) (\<lambda>_. spared) spared"
proof -
  have known: "guarded (\<lambda>s. silent i s \<and> inst s = j) m Q R"
    if "DeletionTimestamp j = DeletionTimestamp i \<Longrightarrow> guarded (silent i) m Q R" for j m Q R
    by (rule guarded_pre [OF guarded_assume [where b = "DeletionTimestamp j = DeletionTimestamp i", OF that]])
       (auto simp: silent_def)
  show ?thesis
    unfolding reconcile_body_def
    apply (rule guarded_andthen [OF silent_held [OF held_first_steps(2)]], rule guarded_the_inst, rule known)
    apply (intro guarded_andthen [OF silent_held] held_first_steps guarded_if guarded_ret silent_spared
        reconcileNormal_spares [OF C] reconcileDelete_spares)
    apply simp_all
    done
qed

lemma Reconcile_spares:
  assumes C: "condition_laws (cnd E)"
  shows "guarded (\<lambda>s. trace s = []) (Reconcile E name ns) (\<lambda>_. spared) spared"
proof (rule Reconcile_guarded)
  show "guarded (entered name ns i) (reconcile_body E isNew) (\<lambda>_. spared) spared" for i isNew
    by (rule guarded_pre [OF reconcile_body_spares [OF C, of i]]) (simp add: entered_def silent_def)
  show "guarded spared (deferred E saved a) (\<lambda>_. spared) spared" for saved a
    unfolding deferred_def set_cond_def by (intro spared_calm calm_rules calm_conds) simp
qed (auto simp: spared_def list_all_iff)

section \<open>Property\<close>

text \<open>
  C7. Pruning never drops a Secret in use: unless the resource is being deleted, every pruning
  call of a reconcile is made in the namespace of the resource and with a list that contains the
  Secrets tracked by the resource it writes back; for the application credential also the one of
  the spec. So pruning cannot get ahead of the rotation, although nothing holds it back until the
  rollout is confirmed.
\<close>

theorem pruning_spares_tracked:
  assumes C: "condition_laws (cnd E)" and s: "trace s = []"
    and run: "Reconcile E name ns s = (Return a, t)" and live: "DeletionTimestamp (inst t) = None"
    and prune: "PruneSecretConsumerFinalizers ns' f keep \<in> set (trace t)"
  shows "ns' = Namespace (inst t) \<and>
     (f = TransportConsumerFinalizer \<and> TransportURLSecret (st_of t) \<in> set keep \<and>
        set_option (NotificationsTransportURLSecret (st_of t)) \<subseteq> set keep \<or>
      f = ACConsumerFinalizer \<and> ApplicationCredentialSecret (st_of t) \<in> set keep \<and>
        AuthApplicationCredentialSecret (Spec (inst t)) \<in> set keep)"
proof -
  have "spared t" using guarded_final [OF Reconcile_spares [OF C] s, of name ns] by (simp add: run)
  with live prune have "spares (inst t) (PruneSecretConsumerFinalizers ns' f keep)"
    by (auto simp: spared_def list_all_iff)
  then show ?thesis by simp
qed

section \<open>A run that prunes\<close>

definition prunes :: "rstate \<Rightarrow> bool" where
  "prunes s \<longleftrightarrow> (\<exists>ns keep. PruneSecretConsumerFinalizers ns TransportConsumerFinalizer keep \<in> set (trace s))"

lemma prunes_grown: "prunes s \<Longrightarrow> grown P s t \<Longrightarrow> prunes t"
  unfolding prunes_def grown_def by fastforce

lemma loud_conclude:
  "loud (accounts_phase E)" "loud (guard_ready E)" "loud (rotate_transport E cur g)"
  "loud (rotate_notifications E notif g)" "loud (rotate_credential E g)" "loud (prune_phase E cur notif)"
  unfolding accounts_phase_def guard_ready_def rotate_transport_def rotate_notifications_def rotate_credential_def
    prune_phase_def finalize_rotation_def or_return_def
  by (intro loud_rules loud_ret; simp)+

lemma conclude_prunes:
  assumes "conclude E cur notif s = (Return (NoResult, None), t)"
  shows "prunes t"
proof -
  have passed: "prunes v" if "prune_phase E cur notif u = (Next (), v)" for u v
  proof -
    let ?c = "PruneSecretConsumerFinalizers (Namespace (inst u)) TransportConsumerFinalizer
      [TransportURLSecret (st_of u), cur, case NotificationsTransportURLSecret (st_of u) of None \<Rightarrow> [] | Some x \<Rightarrow> x,
       case notif of None \<Rightarrow> [] | Some tu \<Rightarrow> TUSecretName tu]"
    have "?c \<in> set (trace v)"
      using that by (auto simp: prune_phase_def the_inst_def invoke_def or_return_def prog_defs split: option.splits)
    then show ?thesis unfolding prunes_def by blast
  qed
  have "always (calm {} unpruned) (ready_phase E)"
    unfolding ready_phase_def mark_true_def by (intro calm_rules calm_conds)
  then have "prunes t" if "prunes v" and "ready_phase E v = (Return (NoResult, None), t)" for v
    using alwaysD [of "calm {} unpruned" "ready_phase E" v] that by (auto simp: calm_def intro: prunes_grown)
  with passed assms loud_conclude show ?thesis
    unfolding conclude_def loud_def
    by (elim andthen_ReturnE [of "accounts_phase E"] andthen_ReturnE [of "guard_ready E"]
        andthen_ReturnE [of "rotate_transport E _ _"] andthen_ReturnE [of "rotate_notifications E _ _"]
        andthen_ReturnE [of "rotate_credential E _"] andthen_ReturnE [of "prune_phase E _ _"]) (metis old.unit.exhaust)+
qed

text \<open>The last three parts of a healthy reconcile, one after the other.\<close>

lemma healthy_parts:
  assumes H: "healthy E i" and i: "reconcilable E i"
    and fetched: "aInstance (cl E) [GetNeutronAPI name ns] = Inr i" and s: "trace s = []"
  obtains mc an v w cur notif x y where "deploy E mc an v = (Next (), w)"
    and "conclude E cur notif w = (Return (NoResult, None), x)" and "grown (\<lambda>_. True) x y"
    and "Reconcile E name ns s = (Return (NoResult, None), y)"
proof -
  let ?s = "s\<lparr>inst := i, trace := [GetNeutronAPI name ns, NewHelper]\<rparr>"
  let ?T = "if TopologyRef (Spec i) = None then {TopologyReadyCondition} else {}"
  obtain st where body: "reconcile_body E False ?s = reconcileNormal E (?s\<lparr>inst := i\<lparr>Status := st\<rparr>\<rparr>)"
    and st: "StatusConditions st = Some (CInit (cnd E) (conds (Status i)) (init_conditions E))" "Hash st \<noteq> None"
    using body_enters [OF i, of ?s] by auto
  let ?u = "?s\<lparr>inst := i\<lparr>Status := st\<rparr>\<rparr>"
  have good: "good E i ?T False any_tracked ?u \<and> rbac_present (inst ?u)"
    using entered_good [OF H i _ st refl, of ?u] by simp
  obtain cur notif mc an v where v: "prepare E ?u = (Next (cur, notif, mc, an), v)"
    and "good E i (prepared \<union> ?T) True any_tracked v"
    using triple_total [OF prepare_runs [OF H] good] by auto
  then obtain w where w: "deploy E mc an v = (Next (), w)"
    and good_w: "good E i (deployed_types \<union> (prepared \<union> ?T)) True any_tracked w"
    using triple_total [OF deploy_runs [OF H, of "prepared \<union> ?T" mc an], of v] by auto
  have T: "known_types - {ReadyCondition} \<subseteq> deployed_types \<union> (prepared \<union> ?T)"
    using types_complete by blast
  obtain x where x: "conclude E cur notif w = (Return (NoResult, None), x)"
    using conclude_returns [OF H T, of True cur notif] good_w
    by (cases "conclude E cur notif w" rule: outcome_prod_cases) (auto simp: triple_def)
  have err: "aErr (cl E) cs = None" for cs using healthyD(5) [OF H] by (simp add: answers_well_def)
  have "fst (deferred E (conds (Status i)) (NoResult, None) x) = Return (NoResult, None)"
    by (auto simp: deferred_def on_conds_def set_cond_def set_status_def the_inst_def invoke_def prog_defs err
        split: option.split)
  moreover have "always (steady (\<lambda>_. True)) (deferred E (conds (Status i)) (NoResult, None))"
    unfolding deferred_def on_conds_def by (intro steady_rules) simp
  then have "grown (\<lambda>_. True) x (snd (deferred E (conds (Status i)) (NoResult, None) x))"
    by (auto simp: steady_def dest: alwaysD)
  ultimately obtain y where y: "deferred E (conds (Status i)) (NoResult, None) x = (Return (NoResult, None), y)"
    and grown: "grown (\<lambda>_. True) x y" by (metis prod.collapse)
  have "reconcile_body E False ?s = (Return (NoResult, None), x)"
    unfolding body reconcileNormal_def andthen_def v by (simp add: w x)
  with y have "Reconcile E name ns s = (Return (NoResult, None), y)"
    unfolding healthy_enters [OF assms] by (simp add: with_deferred_def fcall_def andthen_def)
  with w x grown show thesis by (rule that)
qed

theorem pruning_spares_tracked_witness:
  "\<exists>t keep. Reconcile (plain_ext live_cluster) ''neutron'' ''openstack'' fresh_state = (Return (NoResult, None), t) \<and>
     PruneSecretConsumerFinalizers (Namespace (inst t)) TransportConsumerFinalizer keep \<in> set (trace t) \<and>
     TransportURLSecret (st_of t) \<in> set keep"
proof -
  let ?E = "plain_ext live_cluster"
  have C: "condition_laws (cnd ?E)" by (simp add: list_conditions_laws)
  have s: "trace fresh_state = []" by (simp add: fresh_fields)
  have i: "aInstance (cl ?E) [GetNeutronAPI ''neutron'' ''openstack''] = Inr live_api" by (simp add: live_answers)
  obtain cur notif w x t where x: "conclude ?E cur notif w = (Return (NoResult, None), x)" "grown (\<lambda>_. True) x t"
    and run: "Reconcile ?E ''neutron'' ''openstack'' fresh_state = (Return (NoResult, None), t)"
    by (rule healthy_parts [OF live_healthy live_reconcilable i s])
  from prunes_grown [OF conclude_prunes [OF x(1)] x(2)] obtain ns keep
    where c: "PruneSecretConsumerFinalizers ns TransportConsumerFinalizer keep \<in> set (trace t)"
    unfolding prunes_def by blast
  have "DeletionTimestamp (inst t) = None"
    using arg_cong [OF Reconcile_owned [OF C i s], of DeletionTimestamp] by (simp add: run live_api_def blank_api_def)
  from pruning_spares_tracked [OF C s run this c] run c show ?thesis
    by (auto simp: TransportConsumerFinalizer_def ACConsumerFinalizer_def)
qed

end
