(* ===== verification/Written.thy ===== *)
theory Written
  imports Pruning
begin

text \<open>
  The Deployments a reconcile writes: each is built by one of the three builders from the resource
  it fetched, so the contract of the builders holds of what reaches the cluster.
\<close>

section \<open>What is written\<close>

definition built :: "ext \<Rightarrow> NeutronAPI \<Rightarrow> DeploymentObj \<Rightarrow> bool" where
  "built E i d \<longleftrightarrow> (\<exists>j h ls an tp mc. kin i j \<and>
     ((\<exists>w. Deployment (pod E) j h ls an tp mc w = Ok d) \<or> RPCDeployment (pod E) j h ls an tp mc = Ok d \<or>
      WorkerDeployment (pod E) j h ls an tp mc = Ok d))"

fun undeployed :: "call \<Rightarrow> bool" where
  "undeployed (CreateOrPatchDeployment d n) = False"
| "undeployed c = True"

fun builds :: "ext \<Rightarrow> NeutronAPI \<Rightarrow> call \<Rightarrow> bool" where
  "builds E i (CreateOrPatchDeployment d n) = built E i d"
| "builds E i c = True"

definition genuine :: "ext \<Rightarrow> NeutronAPI \<Rightarrow> rstate \<Rightarrow> bool" where
  "genuine E i s \<longleftrightarrow> kin i (inst s) \<and> list_all (builds E i) (trace s)"

lemma undeployed_builds: "undeployed c \<Longrightarrow> builds E i c"
  by (cases c) simp_all

lemma undeployed_routine: "routine c \<Longrightarrow> undeployed c"
  by (cases c) simp_all

definition loyal :: "rstate \<Rightarrow> rstate \<Rightarrow> bool" where
  "loyal s t \<longleftrightarrow> kin (inst s) (inst t) \<and> grown undeployed s t"

interpretation loyal: step_frame loyal
  by unfold_locales (auto simp: loyal_def kin_def grown_refl intro: grown_trans)

lemma genuine_kept: "always loyal m \<Longrightarrow> guarded (genuine E i) m (\<lambda>_. genuine E i) (genuine E i)"
  by (erule guarded_frame)
     (auto simp: genuine_def loyal_def kin_def grown_def list_all_iff intro: undeployed_builds)

lemma loyal_steady: "always (steady undeployed) m \<Longrightarrow> always loyal m"
  by (erule always_weaken) (auto simp: steady_def loyal_def kin_def dest: status_onlyD)

lemma loyal_cool: "always (cool late routine) m \<Longrightarrow> always loyal m"
  by (erule always_weaken)
     (auto simp: cool_def loyal_def kin_def grown_def list_all_iff intro: undeployed_routine dest: status_onlyD)

lemmas loyal_calm = loyal_cool [OF cool_of_calm]

section \<open>The phases that write no Deployment\<close>

lemma undeployed_rbac: "always loyal (rbac_phase E)"
proof -
  have "kin i (foldl (RbacConditionsSet C) i cs)" for C i cs
    by (induction cs arbitrary: i) (auto simp: kin_def RbacConditionsSet_def)
  then have "always loyal (update (\<lambda>s. s\<lparr>inst := foldl (RbacConditionsSet (cnd E)) (inst s) cs\<rparr>))" for cs
    by (intro loyal.frame_update) (simp add: loyal_def grown_def)
  then show ?thesis
    unfolding rbac_phase_def
    by (intro loyal.frame_rules loyal_steady [OF steady_basic(1)] loyal_steady [OF steady_basic(3)]
        loyal_steady [OF steady_invoke]) simp_all
qed

lemma undeployed_prepare:
  assumes "condition_laws (cnd E)"
  shows "always loyal (prepare E)"
  unfolding prepare_def
  by (intro loyal.frame_andthen [OF undeployed_rbac]) (rule loyal_cool [OF cool_prepare_rest [OF assms]])

lemma loyal_conclude: "always loyal (conclude E cur notif)"
  unfolding conclude_def accounts_phase_def guard_ready_def rotate_transport_def rotate_credential_def
    rotate_notifications_def finalize_rotation_def transportURLDeleted_def prune_phase_def ready_phase_def mark_true_def
    on_conds_def
  by (intro loyal_steady steady_rules; simp)

lemma undeployed_live_secrets: "always (steady undeployed) (live_secrets E ns tus acc)"
  by (induction tus arbitrary: acc) (auto intro!: steady_rules)

lemma loyal_delete: "always loyal (reconcileDelete E)"
proof -
  have "always loyal (release_all E)"
    unfolding release_all_def release_database_def release_keystone_def release_topology_def
      release_transport_def remove_consumer_def prune_all_def release_credential_def
    by (intro loyal_steady steady_rules undeployed_live_secrets; simp)
  moreover have "always loyal (set_finalizers fs :: unit reconcile)" for fs
    unfolding set_finalizers_def by (rule loyal.frame_update) (simp add: loyal_def kin_def grown_def)
  ultimately show ?thesis
    unfolding reconcileDelete_def by (intro loyal.frame_rules loyal_steady [OF steady_basic(1)])
qed

section \<open>The phases that write Deployments\<close>

abbreviation stays_genuine :: "ext \<Rightarrow> NeutronAPI \<Rightarrow> 'a reconcile \<Rightarrow> bool" where
  "stays_genuine E i m \<equiv> guarded (genuine E i) m (\<lambda>_. genuine E i) (genuine E i)"

lemma genuine_then: "stays_genuine E i m \<Longrightarrow> (\<And>x. stays_genuine E i (f x)) \<Longrightarrow> stays_genuine E i (andthen m f)"
  by (rule guarded_andthen)

lemma genuine_inst:
  assumes "\<And>j. kin i j \<Longrightarrow> stays_genuine E i (f j)"
  shows "stays_genuine E i (andthen the_inst f)"
proof (rule guarded_the_inst)
  fix j
  show "guarded (\<lambda>s. genuine E i s \<and> inst s = j) (f j) (\<lambda>_. genuine E i) (genuine E i)"
    by (rule guarded_pre [OF guarded_assume [where b = "kin i j", OF assms]]) (auto simp: genuine_def)
qed

lemma genuine_write: "built E i d \<Longrightarrow> stays_genuine E i (invoke g (CreateOrPatchDeployment d n))"
  by (rule guarded_invoke) (simp add: genuine_def)

lemma roll_out_genuine:
  assumes "\<And>d. dd = Ok d \<Longrightarrow> built E i d"
  shows "stays_genuine E i (roll_out E c rm um em dd k h)"
proof -
  have rest: "stays_genuine E i (set_false E t r v m a)" "stays_genuine E i (set_status f)"
    "stays_genuine E i (invoke (aBool (cl E)) (IsReadyForInput n ns h))" "stays_genuine E i (mark_true E t m)"
    for t r v m a f n ns
    unfolding set_false_def set_cond_def mark_true_def on_conds_def
    by (intro genuine_kept loyal_steady steady_rules; simp)+
  have build: "stays_genuine E i (andthen (must_build dd) f)"
    if "\<And>d. built E i d \<Longrightarrow> stays_genuine E i (f d)" for f :: "DeploymentObj \<Rightarrow> unit reconcile"
    using assms that by (cases dd) (auto simp: must_build_def andthen_def ok_def panic_def guarded_def)
  show ?thesis
    unfolding roll_out_def
    by (intro genuine_then [OF rest(1)] build)
       (auto intro!: genuine_then [OF genuine_write] genuine_then [OF rest(1)] genuine_then [OF rest(2)]
          genuine_then [OF rest(3)] rest guarded_ret guarded_ok split: option.split sum.split)
qed

lemma deployment_genuine: "stays_genuine E i (deployment_phase E an tp mc h w)"
proof -
  have rest: "stays_genuine E i (deployment_failed E r e)" "stays_genuine E i (deployment_running E)"
    "stays_genuine E i (observe_deployment E ds h)" for r e ds
    unfolding deployment_failed_def deployment_running_def observe_deployment_def set_false_def set_cond_def
      mark_true_def on_conds_def
    by (intro genuine_kept loyal_steady steady_rules; simp)+
  have "built E i d" if "kin i j" "Deployment (pod E) j h (serviceLabels E) an tp mc w = Ok d" for j d
    using that unfolding built_def by blast
  then show ?thesis
    unfolding deployment_phase_def
    by (intro genuine_inst)
       (auto intro!: genuine_then [OF genuine_write] genuine_then [OF rest(2)] rest guarded_ret guarded_ok
          guarded_panic split: res.split option.split)
qed

lemma workers_genuine: "stays_genuine E i (workers_phase E an tp mc h w)"
proof -
  have rest: "stays_genuine E i (delete_deployment E n)" "stays_genuine E i (set_status f)"
    "stays_genuine E i (mark_true E t m)" "stays_genuine E i (remove_cond E t)" for n f t m
    unfolding delete_deployment_def mark_true_def remove_cond_def on_conds_def
    by (intro genuine_kept loyal_steady steady_rules; simp)+
  have "built E i d" if "kin i j" "RPCDeployment (pod E) j h ls an tp mc = Ok d" for j d ls
    using that unfolding built_def by blast
  then have rpc: "stays_genuine E i (rpc_phase E an tp mc h)"
    unfolding rpc_phase_def
    by (intro genuine_inst) (auto intro!: roll_out_genuine genuine_then [OF rest(1)] genuine_then [OF rest(2)] rest)
  have "built E i d" if "kin i j" "WorkerDeployment (pod E) j h ls an tp mc = Ok d" for j d ls
    using that unfolding built_def by blast
  then have worker: "stays_genuine E i (worker_phase E an tp mc h)"
    unfolding worker_phase_def by (intro genuine_inst roll_out_genuine)
  have "stays_genuine E i (eventlet_phase E)"
    unfolding eventlet_phase_def delete_deployment_def remove_cond_def on_conds_def
    by (intro genuine_kept loyal_steady steady_rules; simp)
  with rpc worker show ?thesis
    unfolding workers_phase_def by (auto intro: genuine_then)
qed

lemma reconcileNormal_genuine:
  assumes C: "condition_laws (cnd E)"
  shows "stays_genuine E i (reconcileNormal E)"
proof -
  have "always (calm late routine) (fcall (IsWSGIEffective E ls an))" for ls an
    by (intro calm.frame_fcall calm_IsWSGIEffective) simp_all
  then have "stays_genuine E i (deploy E mc an)" for mc an
    unfolding deploy_def
    by (intro genuine_then deployment_genuine workers_genuine genuine_kept [OF loyal_calm] calm_init_phases C)
  then show ?thesis
    unfolding reconcileNormal_def
    by (intro genuine_then [OF genuine_kept [OF undeployed_prepare [OF C]]])
       (auto intro!: genuine_then genuine_kept [OF loyal_conclude] split: prod.split)
qed

lemma reconcile_body_genuine:
  assumes C: "condition_laws (cnd E)"
  shows "stays_genuine E i (reconcile_body E isNew)"
proof -
  have steps: "stays_genuine E i (set_status f)" "stays_genuine E i (on_conds g)"
    "stays_genuine E i (first_pass E isNew)" for f g
  proof -
    have fin: "always loyal (set_finalizers fs :: unit reconcile)" for fs
      unfolding set_finalizers_def by (rule loyal.frame_update) (simp add: loyal_def kin_def grown_def)
    show "stays_genuine E i (first_pass E isNew)"
      unfolding first_pass_def by (intro genuine_kept loyal.frame_rules fin loyal_steady [OF steady_basic(1)])
  qed (auto simp: on_conds_def intro!: genuine_kept loyal_steady steady_status)
  show ?thesis
    unfolding reconcile_body_def
    by (intro genuine_then [OF steps(2)] genuine_inst genuine_then [OF steps(1)] genuine_then [OF steps(3)] guarded_if
        guarded_ret reconcileNormal_genuine [OF C] genuine_kept [OF loyal_delete])
qed

lemma Reconcile_builds:
  assumes C: "condition_laws (cnd E)" and i: "aInstance (cl E) [GetNeutronAPI name ns] = Inr i"
  shows "guarded (\<lambda>s. trace s = []) (Reconcile E name ns) (\<lambda>_ s. list_all (builds E i) (trace s))
     (\<lambda>s. list_all (builds E i) (trace s))"
proof (rule Reconcile_guarded [where R = "genuine E i"])
  show "guarded (entered name ns j) (reconcile_body E isNew) (\<lambda>_. genuine E i) (genuine E i)"
    if "aInstance (cl E) [GetNeutronAPI name ns] = Inr j" for j isNew
    by (rule guarded_pre [OF reconcile_body_genuine [OF C]])
       (use that i in \<open>auto simp: entered_def genuine_def kin_def\<close>)
  have "stays_genuine E i (deferred E saved a)" for saved a
    unfolding deferred_def set_cond_def on_conds_def by (intro genuine_kept loyal_steady steady_rules; simp)
  then show "guarded (genuine E i) (deferred E saved a) (\<lambda>_ s. list_all (builds E i) (trace s))
      (\<lambda>s. list_all (builds E i) (trace s))" for saved a
    by (rule guarded_post) (simp_all add: genuine_def)
qed (auto simp: genuine_def list_all_iff)

text \<open>What the contract of the builders says of one Deployment of the resource.\<close>

definition fits :: "NeutronAPI \<Rightarrow> DeploymentObj \<Rightarrow> bool" where
  "fits i d \<longleftrightarrow> DeplNamespace d = Namespace i \<and> MatchLabels d = TmplLabels (Template d) \<and>
     ServiceAccountName (pod_of d) = RbacResourceName i \<and> Containers (pod_of d) \<noteq> [] \<and>
     (\<forall>c \<in> set (Containers (pod_of d)). Image c = ContainerImage (Spec i))"

context neutron_workload
begin

lemma fitting:
  assumes "pod_laws L" and "build L i h ls an t mc = Ok d"
  shows "DeplName d = nm \<and> fits i d"
  using identity [OF assms(2)] account [OF assms] runs [OF assms] container [OF assms] by (simp add: fits_def)

end

lemma built_fits:
  assumes L: "pod_laws (pod E)" and "built E i d"
  shows "DeplName d \<in> {ServiceName, rpcName, workerName} \<and> fits i d"
proof -
  obtain j h ls an tp mc where j: "kin i j"
    and d: "(\<exists>w. Deployment (pod E) j h ls an tp mc w = Ok d) \<or> RPCDeployment (pod E) j h ls an tp mc = Ok d \<or>
      WorkerDeployment (pod E) j h ls an tp mc = Ok d"
    using assms(2) unfolding built_def by blast
  from d have "DeplName d \<in> {ServiceName, rpcName, workerName} \<and> fits j d"
    by (auto dest!: api.fitting [OF L] rpc.fitting [OF L] worker.fitting [OF L] simp: rpcName_def workerName_def)
  with j show ?thesis by (simp add: fits_def kin_def RbacResourceName_def)
qed

section \<open>From admission to the cluster\<close>

text \<open>
  C9. What the user asked for is what runs: when the resource that a reconcile fetches went through
  defaulting, every Deployment the reconcile writes is one of the three of the operator, lies in the
  namespace of the resource, selects its own pods, runs under the service account of the resource,
  and each of its containers runs the image of the resource as the user gave it, or the default
  image if the user gave none; the image is never empty.
\<close>

theorem admitted_resource_deployed:
  assumes C: "condition_laws (cnd E)" and L: "pod_laws (pod E)" and dflt: "ContainerImageURL dflt \<noteq> []"
    and i: "aInstance (cl E) [GetNeutronAPI name ns] = Inr (Default dflt r)" and s: "trace s = []"
    and d: "CreateOrPatchDeployment d n \<in> set (trace (snd (Reconcile E name ns s)))"
  shows "DeplName d \<in> {ServiceName, rpcName, workerName} \<and> fits (Default dflt r) d \<and>
    (\<forall>c \<in> set (Containers (pod_of d)). Image c \<noteq> [] \<and>
       Image c = (if ContainerImage (Spec r) = [] then ContainerImageURL dflt else ContainerImage (Spec r)))"
proof -
  have "list_all (builds E (Default dflt r)) (trace (snd (Reconcile E name ns s)))"
    using guarded_final [OF Reconcile_builds [OF C i] s] .
  with d have "built E (Default dflt r) d" by (auto simp: list_all_iff)
  from built_fits [OF L this] dflt show ?thesis
    by (auto simp: fits_def Default_def Spec_Default_simps)
qed

text \<open>A run: the resource of the examples, defaulted.\<close>

definition stock :: NeutronAPIDefaults where
  "stock = SetupDefaults (\<lambda>n v. v)"

lemma admitted_sample:
  "Default stock live_api = sample_api [] NeutronAPIContainerImage 120 (blank_rabbit\<lparr>Cluster := ''rabbitmq''\<rparr>)"
  by (simp add: Default_def Spec_Default_def SpecCore_Default_def stock_def SetupDefaults_def sample_api_def
      sample_spec_def live_api_def blank_api_def blank_spec_def blank_rabbit_def Let_def)

definition writes :: "rstate \<Rightarrow> bool" where
  "writes s \<longleftrightarrow> (\<exists>d n. CreateOrPatchDeployment d n \<in> set (trace s))"

lemma writes_steady: "always (steady P) m \<Longrightarrow> writes s \<Longrightarrow> m s = (x, t) \<Longrightarrow> writes t"
  using alwaysD [of "steady P" m s] unfolding writes_def steady_def grown_def by fastforce

lemma invoke_traced:
  assumes run: "andthen (invoke g c) k s = (r, t)" and k: "\<And>x. always (steady P) (k x)"
  shows "c \<in> set (trace t)"
proof -
  let ?u = "s\<lparr>trace := trace s @ [c]\<rparr>"
  have "k (g (trace s @ [c])) ?u = (r, t)" using run by (simp add: andthen_def invoke_def)
  with alwaysD [OF k [of "g (trace s @ [c])"], of ?u] show ?thesis by (auto simp: steady_def grown_def)
qed

lemma deployment_writes:
  assumes run: "deployment_phase E an tp mc h w s = (Next (), t)"
  shows "writes t"
proof -
  obtain d where d: "Deployment (pod E) (inst s) h (serviceLabels E) an tp mc w = Ok d"
    using run by (cases "Deployment (pod E) (inst s) h (serviceLabels E) an tp mc w")
      (auto simp: deployment_phase_def the_inst_def deployment_failed_def set_false_def set_cond_def on_conds_def
        set_status_def prog_defs)
  have "andthen (invoke (aDeployment (cl E)) (CreateOrPatchDeployment d 5)) (\<lambda>((ctrlResult, err), deploy).
     case err of
       Some e \<Rightarrow> deployment_failed E ctrlResult e
     | None \<Rightarrow>
     if ctrlResult \<noteq> NoResult then andthen (deployment_running E) (\<lambda>_. ret (ctrlResult, None))
     else if DSGeneration deploy = DSObservedGeneration deploy then observe_deployment E deploy h
     else ok ()) s = (Next (), t)"
    using run unfolding deployment_phase_def the_inst_def andthen_def [of "reads inst"] by (simp add: reads_def d)
  from this have "CreateOrPatchDeployment d 5 \<in> set (trace t)"
    by (rule invoke_traced [where P = "\<lambda>_. True"])
       (unfold deployment_failed_def deployment_running_def observe_deployment_def set_false_def set_cond_def
          mark_true_def on_conds_def, intro steady_rules; simp)
  then show ?thesis unfolding writes_def by blast
qed

lemma deploy_writes:
  assumes "deploy E mc an s = (Next (), t)"
  shows "writes t"
proof -
  have "always (steady (\<lambda>_. True)) (workers_phase E an tp mc h w)" for tp h w
    unfolding workers_phase_def rpc_phase_def worker_phase_def eventlet_phase_def roll_out_def delete_deployment_def
      must_build_def set_false_def set_cond_def mark_true_def remove_cond_def on_conds_def
    by (intro steady_rules always_res; simp)
  with assms show ?thesis
    unfolding deploy_def by (elim andthen_NextE) (metis deployment_writes writes_steady old.unit.exhaust)
qed

lemma loyal_grown: "always loyal m \<Longrightarrow> m s = (x, t) \<Longrightarrow> writes s \<Longrightarrow> writes t"
  using alwaysD [of loyal m s] unfolding writes_def loyal_def grown_def by fastforce

lemma writes_grown: "writes s \<Longrightarrow> grown P s t \<Longrightarrow> writes t"
  unfolding writes_def grown_def by fastforce

theorem admitted_resource_deployed_witness:
  "\<exists>t d n. Reconcile (plain_ext (live_cluster\<lparr>aInstance := \<lambda>_. Inr (Default stock live_api)\<rparr>)) ''neutron'' ''openstack''
       fresh_state = (Return (NoResult, None), t) \<and> CreateOrPatchDeployment d n \<in> set (trace t) \<and>
     (\<forall>c \<in> set (Containers (pod_of d)). Image c = NeutronAPIContainerImage)"
proof -
  let ?E = "plain_ext (live_cluster\<lparr>aInstance := \<lambda>_. Inr (Default stock live_api)\<rparr>)"
  have H: "healthy ?E (Default stock live_api)" unfolding admitted_sample by (rule sample_healthy)
  have R: "reconcilable ?E (Default stock live_api)"
    unfolding admitted_sample
    by (simp add: reconcilable_def sample_api_def live_api_def blank_api_def blank_status_def plain_util_def conds_def
        status_of_def get_cond_def)
  have C: "condition_laws (cnd ?E)" by (simp add: list_conditions_laws)
  have L: "pod_laws (pod ?E)" by (simp add: plain_pod_laws)
  have s: "trace fresh_state = []" by (simp add: fresh_fields)
  have i: "aInstance (cl ?E) [GetNeutronAPI ''neutron'' ''openstack''] = Inr (Default stock live_api)" by simp
  have img: "ContainerImageURL stock = NeutronAPIContainerImage" "ContainerImage (Spec live_api) = []"
    "NeutronAPIContainerImage \<noteq> []"
    by (simp_all add: stock_def SetupDefaults_def live_api_def blank_api_def blank_spec_def NeutronAPIContainerImage_def)
  obtain mc an v w cur notif x t where w: "deploy ?E mc an v = (Next (), w)"
    and x: "conclude ?E cur notif w = (Return (NoResult, None), x)" "grown (\<lambda>_. True) x t"
    and run: "Reconcile ?E ''neutron'' ''openstack'' fresh_state = (Return (NoResult, None), t)"
    by (rule healthy_parts [OF H R i s])
  have "writes t" by (rule writes_grown [OF loyal_grown [OF loyal_conclude x(1) deploy_writes [OF w]] x(2)])
  then obtain d n where d: "CreateOrPatchDeployment d n \<in> set (trace t)" unfolding writes_def by blast
  with admitted_resource_deployed [OF C L _ i s, of d n] img have
    "\<forall>c \<in> set (Containers (pod_of d)). Image c = NeutronAPIContainerImage" by (simp add: run)
  with run d show ?thesis by blast
qed

end
