(* ===== verification/RbacOutcome.thy ===== *)
theory RbacOutcome
  imports Liveness
begin

text \<open>
  What becomes of the conditions that \<^verbatim>\<open>ReconcileRbac\<close> reports. They are set through
  \<^verbatim>\<open>RbacConditionsSet\<close>, whose receiver is a value, so that only a condition that is already in the
  list is set; none is lost, because a reconcile initialises the three conditions first.
\<close>

section \<open>The reported conditions\<close>

fun unbound :: "call \<Rightarrow> bool" where
  "unbound (ReconcileRbac n ns rules) = False"
| "unbound c = True"

text \<open>The last status reported of a type.\<close>

primrec reported :: "ctype \<Rightarrow> cstatus \<Rightarrow> Condition list \<Rightarrow> cstatus" where
  "reported t v [] = v"
| "reported t v (c # cs) = reported t (if CondType c = t then CondStatus c else v) cs"

definition awaiting :: "rstate \<Rightarrow> bool" where
  "awaiting s \<longleftrightarrow> list_all unbound (trace s) \<and> StatusConditions (st_of s) \<noteq> None \<and>
     (\<forall>t \<in> rbac_types. cond_status s t = Some CondUnknown)"

definition told :: "ext \<Rightarrow> rstate \<Rightarrow> bool" where
  "told E s \<longleftrightarrow> (\<forall>cs n ns rules ds. trace s = cs @ ReconcileRbac n ns rules # ds \<longrightarrow>
     n = RbacResourceName (inst s) \<and> ns = RbacNamespace (inst s) \<and> rules = rbacRules \<and>
     (\<forall>t \<in> rbac_types. cond_status s t =
        Some (reported t CondUnknown (fst (aRbac (cl E) (cs @ [ReconcileRbac n ns rules]))))))"

lemma unbound_split: "list_all unbound xs \<Longrightarrow> xs \<noteq> cs @ ReconcileRbac n ns rules # ds"
  by auto

lemma unbound_told: "list_all unbound (trace s) \<Longrightarrow> told E s"
  by (simp add: told_def unbound_split)

lemma awaiting_told: "awaiting s \<Longrightarrow> told E s"
  by (simp add: awaiting_def unbound_told)

lemma awaiting_present: "awaiting s \<Longrightarrow> rbac_present (inst s)"
  by (auto simp: awaiting_def rbac_present_def)

lemma unbound_append:
  assumes "list_all unbound ys" and "xs @ ys = cs @ ReconcileRbac n ns rules # ds"
  obtains ds' where "xs = cs @ ReconcileRbac n ns rules # ds'"
  using assms by (auto simp: append_eq_append_conv2 append_eq_Cons_conv)

abbreviation aside :: "rstate \<Rightarrow> rstate \<Rightarrow> bool" where
  "aside \<equiv> cool rbac_types unbound"

lemma told_aside:
  assumes "told E s" and "aside s t"
  shows "told E t"
  unfolding told_def
proof (intro allI impI)
  fix cs n ns rules ds assume t: "trace t = cs @ ReconcileRbac n ns rules # ds"
  from assms(2) obtain ys where "trace t = trace s @ ys" "list_all unbound ys" by (auto simp: cool_def grown_def)
  with t obtain ds' where "trace s = cs @ ReconcileRbac n ns rules # ds'" using unbound_append by metis
  then have "n = RbacResourceName (inst s) \<and> ns = RbacNamespace (inst s) \<and> rules = rbacRules \<and>
     (\<forall>ty \<in> rbac_types. cond_status s ty =
        Some (reported ty CondUnknown (fst (aRbac (cl E) (cs @ [ReconcileRbac n ns rules])))))"
    using assms(1) unfolding told_def by blast
  with assms(2) show "n = RbacResourceName (inst t) \<and> ns = RbacNamespace (inst t) \<and> rules = rbacRules \<and>
     (\<forall>ty \<in> rbac_types. cond_status t ty =
        Some (reported ty CondUnknown (fst (aRbac (cl E) (cs @ [ReconcileRbac n ns rules])))))"
    by (auto simp: cool_def RbacResourceName_def RbacNamespace_def status_onlyD)
qed

lemma told_frame: "always aside m \<Longrightarrow> guarded (told E) m (\<lambda>_. told E) (told E)"
  by (erule guarded_frame) (auto intro: told_aside)

lemma aside_untouched: "always untouched m \<Longrightarrow> always aside m"
proof (erule always_weaken)
  have "plain c \<Longrightarrow> unbound c" for c by (cases c) simp_all
  then show "untouched s t \<Longrightarrow> aside s t" for s t
    by (auto simp: cool_def grown_def list_all_iff reserved_def)
qed

section \<open>The RBAC step\<close>

lemma RbacConditionsSet_fold_reported:
  assumes C: "condition_laws C"
  shows "CondType ` set cs \<subseteq> rbac_types \<Longrightarrow> rbac_present i \<Longrightarrow> status_of (conds (Status i)) t = Some v \<Longrightarrow>
    status_of (conds (Status (foldl (RbacConditionsSet C) i cs))) t = Some (reported t v cs)"
proof (induction cs arbitrary: i v)
  case (Cons c cs)
  then have c: "CondType c \<in> rbac_types" and cs: "CondType ` set cs \<subseteq> rbac_types" by auto
  have "status_of (conds (Status (RbacConditionsSet C i c))) t = Some (if CondType c = t then CondStatus c else v)"
    using Cons.prems c
    by (auto simp: RbacConditionsSet_def conds_def rbac_present_def status_of_SetOnCopy [OF C])
  from Cons.IH [OF cs RbacConditionsSet_keeps(1) [OF C c Cons.prems(2)] this] show ?case by simp
qed simp

lemma foldl_RbacConditionsSet:
  "Name (foldl (RbacConditionsSet C) i cs) = Name i" "Namespace (foldl (RbacConditionsSet C) i cs) = Namespace i"
  by (induction cs arbitrary: i) (simp_all add: RbacConditionsSet_def)

lemma settle_state: "snd (settle a s) = s"
  by (simp add: settle_def ret_def ok_def split: prod.split option.split)

lemma rbac_told:
  assumes C: "condition_laws (cnd E)" and B: "rbac_laws (cl E)"
  shows "guarded awaiting (rbac_phase E) (\<lambda>_. told E) (told E)"
proof -
  have "told E (snd (rbac_phase E s))" if s: "awaiting s" for s
  proof -
    let ?c = "ReconcileRbac (RbacResourceName (inst s)) (RbacNamespace (inst s)) rbacRules"
    let ?r = "aRbac (cl E) (trace s @ [?c])"
    let ?t = "s\<lparr>inst := foldl (RbacConditionsSet (cnd E)) (inst s) (fst ?r), trace := trace s @ [?c]\<rparr>"
    have "snd (rbac_phase E s) = ?t"
      by (simp add: rbac_phase_def the_inst_def andthen_def reads_def update_def invoke_def case_prod_unfold
          settle_state)
    moreover have "cond_status ?t t = Some (reported t CondUnknown (fst ?r))" if "t \<in> rbac_types" for t
      using RbacConditionsSet_fold_reported [OF C _ awaiting_present [OF s], of "fst ?r" t CondUnknown] B s that
      by (simp add: rbac_laws_def awaiting_def)
    moreover have "cs = trace s \<and> ReconcileRbac n ns rules = ?c"
      if "trace s @ [?c] = cs @ ReconcileRbac n ns rules # ds" for cs n ns rules ds
      using that s by (auto simp: awaiting_def append_eq_append_conv2 append_eq_Cons_conv Cons_eq_append_conv)
    ultimately show ?thesis
      by (auto simp: told_def RbacResourceName_def RbacNamespace_def foldl_RbacConditionsSet)
  qed
  then show ?thesis
    unfolding guarded_def by (auto split: prod.splits outcome.splits) (metis snd_conv)+
qed

section \<open>The rest of a reconcile\<close>

lemma reconcileNormal_told:
  assumes C: "condition_laws (cnd E)" and B: "rbac_laws (cl E)"
  shows "guarded awaiting (reconcileNormal E) (\<lambda>_. told E) (told E)"
proof -
  have prep: "guarded awaiting (prepare E) (\<lambda>_. told E) (told E)"
    unfolding prepare_def
    by (rule guarded_andthen [OF rbac_told [OF C B]])
       (rule told_frame [OF aside_untouched [OF untouched_cool [OF cool_prepare_rest [OF C]]]])
  have "ReadyCondition \<notin> rbac_types" by (simp add: rbac_types_def)
  then have ready: "always aside (ready_phase E)"
    unfolding ready_phase_def by (intro cool_rules C) simp_all
  have "always aside (conclude E c n)" for c n
    unfolding conclude_def guard_ready_def
    by (intro cool.frame_andthen ready cool.frame_reads untouched_rotation [THEN aside_untouched]
        aside_untouched [OF untouched_prune] aside_untouched [OF untouched_calm [OF accounts_calm]])
  then show ?thesis
    unfolding reconcileNormal_def
    by (intro guarded_andthen [OF prep])
       (auto intro!: told_frame cool.frame_andthen aside_untouched [OF untouched_deploy [OF C]] split: prod.split)
qed

lemma awaiting_status:
  assumes "\<And>st. StatusConditions (f st) = StatusConditions st"
  shows "guarded awaiting (set_status f) (\<lambda>_. awaiting) R"
  unfolding set_status_def by (rule guarded_update) (simp add: awaiting_def conds_def assms)

lemma set_finalizers_told: "guarded awaiting (set_finalizers fs) (\<lambda>_. awaiting) R"
  unfolding set_finalizers_def by (rule guarded_update) (simp add: awaiting_def)

lemma reconcileDelete_told: "guarded awaiting (reconcileDelete E) (\<lambda>_. told E) (told E)"
proof -
  let ?U = "\<lambda>s. list_all unbound (trace s)"
  have release: "guarded awaiting (release_all E) (\<lambda>_. ?U) (told E)"
    by (rule guarded_frame [OF aside_untouched [OF untouched_release_all]])
       (auto simp: awaiting_def cool_def grown_def intro: unbound_told)
  have "guarded ?U (set_finalizers fs) (\<lambda>_. ?U) (told E)" for fs
    unfolding set_finalizers_def by (rule guarded_update) simp
  then show ?thesis
    unfolding reconcileDelete_def
    by (intro guarded_andthen [OF release] guarded_any_inst) (auto intro!: guarded_andthen guarded_ret unbound_told)
qed

lemma reconcile_body_told:
  assumes C: "condition_laws (cnd E)" and B: "rbac_laws (cl E)"
  shows "guarded (entered name ns i) (reconcile_body E isNew) (\<lambda>_. told E) (told E)"
proof -
  have init: "guarded (entered name ns i) (on_conds (\<lambda>cs. CInit (cnd E) cs (init_conditions E))) (\<lambda>_. awaiting) R"
    for R
    unfolding on_conds_def set_status_def
    by (rule guarded_update)
       (use init_conditions_unknown [OF C subsetD [OF init_types(2)]] in \<open>auto simp: awaiting_def entered_def\<close>)
  have first: "guarded awaiting (first_pass E b) (\<lambda>_. awaiting) R" for b R
    unfolding first_pass_def
    by (intro guarded_any_inst guarded_cases guarded_andthen [OF set_finalizers_told] guarded_ok)
  show ?thesis
    unfolding reconcile_body_def
    by (intro guarded_andthen [OF init] guarded_any_inst guarded_andthen [OF awaiting_status]
        guarded_andthen [OF first] guarded_if guarded_ret reconcileNormal_told [OF C B] reconcileDelete_told)
       (auto intro: awaiting_told)
qed

lemma deferred_told:
  assumes C: "condition_laws (cnd E)"
  shows "guarded (told E) (deferred E saved a) (\<lambda>_. told E) (told E)"
proof -
  have restore: "always aside (on_conds (\<lambda>cs. RestoreLastTransitionTimes (cnd E) cs saved))"
    unfolding on_conds_def by (intro cool_status) (simp add: condition_simps [OF C])
  have "always aside (set_cond E c)" if "CMirror (cnd E) cs ReadyCondition = Some c" for c cs
    unfolding set_cond_def on_conds_def
    by (intro cool_status) (use Mirror_type [OF C that] in \<open>auto simp: condition_simps [OF C] rbac_types_def\<close>)
  then have mirror: "always aside (if b then (case CMirror (cnd E) cs ReadyCondition of None \<Rightarrow> ok () | Some c \<Rightarrow> set_cond E c)
      else ok ())" for b cs
    by (auto intro: cool.frame_rules split: option.split)
  show ?thesis
    unfolding deferred_def by (intro told_frame cool.frame_andthen restore mirror; intro cool_rules; simp)
qed

text \<open>
  C14. No outcome of the RBAC step is lost: when a reconcile of a resource calls \<^verbatim>\<open>ReconcileRbac\<close>, it
  calls it for the service account name and namespace of the resource with the rules of the
  operator, and the resource it leaves shows, for each of the service account, the role and the
  role binding, the last status that the call reported, and Unknown if it reported none, whatever
  the rest of the reconcile did.
\<close>

theorem rbac_outcome_recorded:
  assumes C: "condition_laws (cnd E)" and B: "rbac_laws (cl E)" and s: "trace s = []"
    and run: "Reconcile E name ns s = (r, t)" and call: "trace t = cs @ ReconcileRbac n m rules # ds"
    and ty: "ty \<in> {ServiceAccountReadyCondition, RoleReadyCondition, RoleBindingReadyCondition}"
  shows "n = RbacResourceName (inst t) \<and> m = RbacNamespace (inst t) \<and> rules = rbacRules \<and>
     status_of (conds (Status (inst t))) ty =
       Some (reported ty CondUnknown (fst (aRbac (cl E) (cs @ [ReconcileRbac n m rules]))))"
proof -
  have "guarded (\<lambda>s. trace s = []) (Reconcile E name ns) (\<lambda>_. told E) (told E)"
    by (rule Reconcile_guarded [OF reconcile_body_told [OF C B] deferred_told [OF C]])
       (force intro!: unbound_told simp: list_all_iff)+
  from guarded_final [OF this s] have "told E t" by (simp add: run)
  with call ty show ?thesis unfolding told_def rbac_types_def by blast
qed

text \<open>A run: the role cannot be created.\<close>

definition denied :: "Condition list" where
  "denied = [list_true ServiceAccountReadyCondition (LibMsg ''ServiceAccountReadyMessage''),
     \<lparr>CondType = RoleReadyCondition, CondStatus = CondFalse, CondReason = ErrorReason,
       CondSeverity = SeverityWarning, CondMessage = ''forbidden''\<rparr>]"

definition denying :: cluster where
  "denying = live_cluster\<lparr>aRbac := \<lambda>_. (denied, NoResult, Some (LibErr False ''forbidden''))\<rparr>"

lemma denying_answers:
  "aInstance denying cs = Inr live_api" "aErr denying cs = None" "rbac_laws denying"
  "aRbac denying cs = (denied, NoResult, Some (LibErr False ''forbidden''))"
  by (auto simp: denying_def live_answers rbac_laws_def rbac_types_def denied_def list_true_def)

theorem rbac_outcome_recorded_witness:
  "\<exists>t. Reconcile (plain_ext denying) ''neutron'' ''openstack'' fresh_state =
       (Return (NoResult, Some (LibErr False ''forbidden'')), t) \<and>
     status_of (conds (Status (inst t))) ServiceAccountReadyCondition = Some CondTrue \<and>
     status_of (conds (Status (inst t))) RoleReadyCondition = Some CondFalse \<and>
     status_of (conds (Status (inst t))) RoleBindingReadyCondition = Some CondUnknown"
proof -
  let ?E = "plain_ext denying" and ?g = "[GetNeutronAPI ''neutron'' ''openstack'', NewHelper]"
  let ?e = "LibErr False ''forbidden''"
  have C: "condition_laws (cnd ?E)" by (simp add: list_conditions_laws)
  have B: "rbac_laws (cl ?E)" by (simp add: denying_answers)
  have s: "trace fresh_state = []" by (simp add: fresh_fields)
  have R: "reconcilable ?E live_api"
    by (simp add: reconcilable_def live_api_def blank_api_def blank_status_def plain_util_def conds_def status_of_def
        get_cond_def)
  then obtain saved where saved: "StatusConditions (Status live_api) = Some saved" by (auto simp: reconcilable_def)
  obtain st where body: "reconcile_body ?E False (fresh_state\<lparr>inst := live_api, trace := ?g\<rparr>) =
      reconcileNormal ?E (fresh_state\<lparr>trace := ?g, inst := live_api\<lparr>Status := st\<rparr>\<rparr>)"
    using body_enters [OF R, of "fresh_state\<lparr>inst := live_api, trace := ?g\<rparr>"] by auto
  obtain n m rules j where normal: "reconcile_body ?E False (fresh_state\<lparr>inst := live_api, trace := ?g\<rparr>) =
      (Return (NoResult, Some ?e), fresh_state\<lparr>trace := ?g @ [ReconcileRbac n m rules], inst := j\<rparr>)"
    unfolding body reconcileNormal_def prepare_def rbac_phase_def
    by (auto simp: the_inst_def invoke_def settle_def prog_defs denying_answers)
  have "Reconcile ?E ''neutron'' ''openstack'' fresh_state =
      with_deferred ?E (conds (Status live_api)) (reconcile_body ?E False) (fresh_state\<lparr>inst := live_api, trace := ?g\<rparr>)"
    by (simp add: Reconcile_def invoke_def prog_defs s denying_answers or_return_def saved)
  then have "\<exists>t ds. Reconcile ?E ''neutron'' ''openstack'' fresh_state = (Return (NoResult, Some ?e), t) \<and>
      trace t = ?g @ ReconcileRbac n m rules # ds"
    by (auto simp: with_deferred_def fcall_def andthen_def normal deferred_def on_conds_def set_cond_def set_status_def
        the_inst_def invoke_def prog_defs denying_answers split: option.split)
  then obtain t ds where run: "Reconcile ?E ''neutron'' ''openstack'' fresh_state = (Return (NoResult, Some ?e), t)"
    and t: "trace t = ?g @ ReconcileRbac n m rules # ds" by blast
  note recorded = rbac_outcome_recorded [OF C B s run t]
  show ?thesis
    using run recorded [of ServiceAccountReadyCondition] recorded [of RoleReadyCondition]
      recorded [of RoleBindingReadyCondition]
    by (simp add: denying_answers denied_def list_true_def)
qed

end
