(* ===== verification/Strategy.thy ===== *)
theory Strategy
  imports ReconcileNormal
begin

text \<open>
  Which worker Deployments exist for which serving strategy: the effect of the worker phase of
  \<^verbatim>\<open>reconcileNormal\<close> on the Deployments, the conditions and the replica counts.
\<close>

section \<open>Deployments written and deleted\<close>

fun written :: "call list \<Rightarrow> (string \<times> string) list" where
  "written [] = []"
| "written (CreateOrPatchDeployment d timeout # cs) = (DeplName d, DeplNamespace d) # written cs"
| "written (_ # cs) = written cs"

fun deleted :: "call list \<Rightarrow> (string \<times> string) list" where
  "deleted [] = []"
| "deleted (DeleteDeployment n ns # cs) = (n, ns) # deleted cs"
| "deleted (_ # cs) = deleted cs"

lemma written_append: "written (cs @ ds) = written cs @ written ds"
  by (induction cs rule: written.induct) simp_all

lemma deleted_append: "deleted (cs @ ds) = deleted cs @ deleted ds"
  by (induction cs rule: deleted.induct) simp_all

text \<open>
  A step that writes and deletes these Deployments of the resource, touches no condition outside
  the given types and leaves the resource itself as it was.
\<close>

definition step_effect ::
  "string list \<Rightarrow> string list \<Rightarrow> ctype set \<Rightarrow> rstate \<Rightarrow> rstate \<Rightarrow> bool" where
  "step_effect w d T s t \<longleftrightarrow>
     (\<exists>calls. trace t = trace s @ calls \<and> written calls = map (\<lambda>n. (n, Namespace (inst s))) w \<and>
        deleted calls = map (\<lambda>n. (n, Namespace (inst s))) d) \<and>
     (\<exists>st. inst t = (inst s)\<lparr>Status := st\<rparr>) \<and>
     (\<forall>c. c \<notin> T \<longrightarrow> cond_status t c = cond_status s c)"

lemma step_effect_trans:
  assumes "step_effect w d T s t" and "step_effect w' d' T' t u"
  shows "step_effect (w @ w') (d @ d') (T \<union> T') s u"
proof -
  from assms obtain cs cs' where
    "trace u = trace s @ (cs @ cs')" "written (cs @ cs') = map (\<lambda>n. (n, Namespace (inst s))) (w @ w')"
    "deleted (cs @ cs') = map (\<lambda>n. (n, Namespace (inst s))) (d @ d')"
    by (auto simp: step_effect_def written_append deleted_append)
  moreover from assms have "\<exists>st. inst u = (inst s)\<lparr>Status := st\<rparr>" by (auto simp: step_effect_def)
  moreover from assms have "\<forall>c. c \<notin> T \<union> T' \<longrightarrow> cond_status u c = cond_status s c"
    by (auto simp: step_effect_def)
  ultimately show ?thesis unfolding step_effect_def by blast
qed

text \<open>
  The replica count \<open>new\<close> of a Deployment written between \<open>s\<close> and \<open>t\<close>: what the cluster answered to
  the write, once it has observed the generation, and the count from before until then.
\<close>

definition counts :: "ext \<Rightarrow> string \<Rightarrow> rstate \<Rightarrow> rstate \<Rightarrow> int \<Rightarrow> int \<Rightarrow> bool" where
  "counts E n s t old new \<longleftrightarrow>
     (\<exists>p q d. trace t = trace s @ p @ CreateOrPatchDeployment d 5 # q \<and> DeplName d = n \<and>
        new = (let x = snd (aDeployment (cl E) (trace s @ p @ [CreateOrPatchDeployment d 5])) in
          if DSGeneration x = DSObservedGeneration x then DSReadyReplicas x else old))"

lemma counts_before:
  assumes "counts E n u t old new" and "step_effect w d T s u"
  shows "counts E n s t old new"
proof -
  from assms(2) obtain cs where cs: "trace u = trace s @ cs" by (auto simp: step_effect_def)
  from assms(1) obtain p q dp where "trace t = trace s @ (cs @ p) @ CreateOrPatchDeployment dp 5 # q" "DeplName dp = n"
    "new = (let x = snd (aDeployment (cl E) (trace s @ (cs @ p) @ [CreateOrPatchDeployment dp 5])) in
       if DSGeneration x = DSObservedGeneration x then DSReadyReplicas x else old)"
    unfolding counts_def cs by auto
  then show ?thesis unfolding counts_def by blast
qed

lemma counts_after:
  assumes "counts E n s u old new" and "step_effect w d T u t"
  shows "counts E n s t old new"
  using assms unfolding counts_def step_effect_def by fastforce

section \<open>The steps of the worker phase\<close>

lemma same_resource: "\<exists>st. i = i\<lparr>Status := st\<rparr>" for i :: NeutronAPI
  by (rule exI [of _ "Status i"]) simp

lemma delete_effect:
  assumes "delete_deployment E n s = (Next (), t)"
  shows "step_effect [] [n] {} s t"
  using assms
  by (auto simp: delete_deployment_def the_inst_def invoke_def prog_defs step_effect_def or_return_def same_resource
      split: if_splits option.splits)

lemma roll_out_effect:
  assumes C: "condition_laws (cnd E)" and run: "roll_out E c rm um em dd k h s = (Next (), t)"
    and k: "\<And>n st. StatusConditions (k n st) = StatusConditions st"
    and d: "\<And>d. dd = Ok d \<Longrightarrow> DeplName d = n \<and> DeplNamespace d = Namespace (inst s)"
    and count: "\<And>n st. count (k n st) = n" "\<And>st cs. count (st\<lparr>StatusConditions := cs\<rparr>) = count st"
    and other: "\<And>n st. other (k n st) = other st" "\<And>st cs. other (st\<lparr>StatusConditions := cs\<rparr>) = other st"
  shows "step_effect [n] [] {c} s t" and "cond_status t c \<noteq> None"
    and "counts E n s t (count (st_of s)) (count (st_of t))" and "other (st_of t) = (other (st_of s) :: int)"
proof -
  obtain d where dd: "dd = Ok d"
    using run by (cases dd) (auto simp: roll_out_def must_build_def set_false_def set_cond_def on_conds_def
        set_status_def prog_defs)
  have "step_effect [n] [] {c} s t \<and> cond_status t c \<noteq> None"
    using run d [OF dd]
    by (auto simp: dd roll_out_def must_build_def set_false_def set_cond_def mark_true_def on_conds_def
        set_status_def invoke_def prog_defs step_effect_def conds_def k condition_simps [OF C]
        split: option.splits if_splits sum.splits prod.splits)
  then show "step_effect [n] [] {c} s t" and "cond_status t c \<noteq> None" by simp_all
  let ?w = "CreateOrPatchDeployment d 5"
  let ?x = "snd (aDeployment (cl E) (trace s @ [?w]))"
  have "(\<exists>q. trace t = trace s @ ?w # q) \<and> count (st_of t) =
      (if DSGeneration ?x = DSObservedGeneration ?x then DSReadyReplicas ?x else count (st_of s))"
    using run
    by (auto simp: dd roll_out_def must_build_def set_false_def set_cond_def mark_true_def on_conds_def
        set_status_def invoke_def prog_defs count split: option.splits if_splits sum.splits prod.splits)
  then obtain q where "trace t = trace s @ [] @ ?w # q" "DeplName d = n" "count (st_of t) =
      (let x = snd (aDeployment (cl E) (trace s @ [] @ [?w])) in
       if DSGeneration x = DSObservedGeneration x then DSReadyReplicas x else count (st_of s))"
    using d [OF dd] by (auto simp: Let_def)
  then show "counts E n s t (count (st_of s)) (count (st_of t))" unfolding counts_def by blast
  show "other (st_of t) = other (st_of s)"
    using run
    by (auto simp: dd roll_out_def must_build_def set_false_def set_cond_def mark_true_def on_conds_def
        set_status_def invoke_def prog_defs other split: option.splits if_splits sum.splits prod.splits)
qed

lemma names_differ: "rpcName \<noteq> workerName"
  by (simp add: rpcName_def workerName_def RPCDeploymentSuffix_def WorkerDeploymentSuffix_def)

lemma rpc_named:
  assumes "RPCDeployment L i h ls an tp mc = Ok d"
  shows "DeplName d = rpcName \<and> DeplNamespace d = Namespace i"
  using assms by (auto simp: RPCDeployment_def rpcName_def split: option.splits)

lemma worker_named:
  assumes "WorkerDeployment L i h ls an tp mc = Ok d"
  shows "DeplName d = workerName \<and> DeplNamespace d = Namespace i"
  using assms by (auto simp: WorkerDeployment_def workerName_def split: option.splits)

lemma rpc_off_effect:
  assumes C: "condition_laws (cnd E)" and run: "rpc_phase E an tp mc h s = (Next (), t)"
    and off: "GetRPCWorkers (CustomServiceConfig (Spec (inst s))) = 0"
  shows "step_effect [] [rpcName] {NeutronRPCReadyCondition} s t"
    and "cond_status t NeutronRPCReadyCondition = Some CondTrue" and "RPCReadyCount (st_of t) = 0"
    and "WorkerReadyCount (st_of t) = WorkerReadyCount (st_of s)"
proof -
  from run off obtain u where u: "delete_deployment E rpcName s = (Next (), u)"
    and t: "t = u\<lparr>inst := (inst u)\<lparr>Status := (st_of u)\<lparr>RPCReadyCount := 0, StatusConditions :=
      Some (CMarkTrue (cnd E) (conds (st_of u)) NeutronRPCReadyCondition NeutronRPCDisabledMessage)\<rparr>\<rparr>\<rparr>"
    by (auto simp: rpc_phase_def the_inst_def set_status_def mark_true_def on_conds_def conds_def
        update_def reads_def elim!: andthen_NextE)
  have "inst u = inst s"
    using u by (auto simp: delete_deployment_def the_inst_def invoke_def prog_defs or_return_def
        split: if_splits option.splits)
  moreover have "step_effect [] [rpcName] {} s u" using u by (simp add: delete_effect)
  ultimately show "step_effect [] [rpcName] {NeutronRPCReadyCondition} s t"
    and "cond_status t NeutronRPCReadyCondition = Some CondTrue" and "RPCReadyCount (st_of t) = 0"
    and "WorkerReadyCount (st_of t) = WorkerReadyCount (st_of s)"
    by (auto simp: t step_effect_def conds_def condition_simps [OF C])
qed

lemma rpc_on_effect:
  assumes C: "condition_laws (cnd E)" and run: "rpc_phase E an tp mc h s = (Next (), t)"
    and "GetRPCWorkers (CustomServiceConfig (Spec (inst s))) \<noteq> 0"
  shows "step_effect [rpcName] [] {NeutronRPCReadyCondition} s t"
    and "cond_status t NeutronRPCReadyCondition \<noteq> None"
    and "counts E rpcName s t (RPCReadyCount (st_of s)) (RPCReadyCount (st_of t))"
    and "WorkerReadyCount (st_of t) = WorkerReadyCount (st_of s)"
proof -
  let ?d = "RPCDeployment (pod E) (inst s) h [AppSelector (pod E) \<mapsto> rpcName] an tp mc"
  have "roll_out E NeutronRPCReadyCondition NeutronRPCReadyMessage NeutronRPCReadyRunningMessage
      NeutronRPCReadyErrorMessage ?d (\<lambda>n st. st\<lparr>RPCReadyCount := n\<rparr>) h s = (Next (), t)"
    using assms(2,3) by (simp add: rpc_phase_def the_inst_def prog_defs)
  note effect = roll_out_effect [OF C this _ rpc_named, where count = RPCReadyCount and other = WorkerReadyCount]
  show "step_effect [rpcName] [] {NeutronRPCReadyCondition} s t"
    and "cond_status t NeutronRPCReadyCondition \<noteq> None"
    and "counts E rpcName s t (RPCReadyCount (st_of s)) (RPCReadyCount (st_of t))"
    and "WorkerReadyCount (st_of t) = WorkerReadyCount (st_of s)"
    by (rule effect; simp)+
qed

lemma worker_effect:
  assumes C: "condition_laws (cnd E)" and run: "worker_phase E an tp mc h s = (Next (), t)"
  shows "step_effect [workerName] [] {NeutronWorkerReadyCondition} s t"
    and "cond_status t NeutronWorkerReadyCondition \<noteq> None"
    and "counts E workerName s t (WorkerReadyCount (st_of s)) (WorkerReadyCount (st_of t))"
    and "RPCReadyCount (st_of t) = RPCReadyCount (st_of s)"
proof -
  let ?d = "WorkerDeployment (pod E) (inst s) h [AppSelector (pod E) \<mapsto> workerName] an tp mc"
  have "roll_out E NeutronWorkerReadyCondition NeutronWorkerReadyMessage NeutronWorkerReadyRunningMessage
      NeutronWorkerReadyErrorMessage ?d (\<lambda>n st. st\<lparr>WorkerReadyCount := n\<rparr>) h s = (Next (), t)"
    using run by (simp add: worker_phase_def the_inst_def prog_defs)
  note effect = roll_out_effect [OF C this _ worker_named, where count = WorkerReadyCount and other = RPCReadyCount]
  show "step_effect [workerName] [] {NeutronWorkerReadyCondition} s t"
    and "cond_status t NeutronWorkerReadyCondition \<noteq> None"
    and "counts E workerName s t (WorkerReadyCount (st_of s)) (WorkerReadyCount (st_of t))"
    and "RPCReadyCount (st_of t) = RPCReadyCount (st_of s)"
    by (rule effect; simp)+
qed

lemma eventlet_effect:
  assumes C: "condition_laws (cnd E)" and run: "eventlet_phase E s = (Next (), t)"
  shows "step_effect [] [rpcName, workerName] {NeutronRPCReadyCondition, NeutronWorkerReadyCondition} s t"
    and "cond_status t NeutronRPCReadyCondition = None" "cond_status t NeutronWorkerReadyCondition = None"
    and "RPCReadyCount (st_of t) = 0" "WorkerReadyCount (st_of t) = 0"
proof -
  from run obtain u v where uv: "delete_deployment E rpcName s = (Next (), u)"
      "delete_deployment E workerName u = (Next (), v)"
    and t: "t = v\<lparr>inst := (inst v)\<lparr>Status := (st_of v)\<lparr>RPCReadyCount := 0, WorkerReadyCount := 0, StatusConditions :=
      Some (CRemove (cnd E) (CRemove (cnd E) (conds (st_of v)) NeutronRPCReadyCondition)
        NeutronWorkerReadyCondition)\<rparr>\<rparr>\<rparr>"
    by (auto simp: eventlet_phase_def set_status_def remove_cond_def on_conds_def conds_def update_def ok_def
        elim!: andthen_NextE)
  have "step_effect ([] @ []) ([rpcName] @ [workerName]) ({} \<union> {}) s v"
    using uv by (intro step_effect_trans [OF delete_effect delete_effect])
  then show "step_effect [] [rpcName, workerName] {NeutronRPCReadyCondition, NeutronWorkerReadyCondition} s t"
    unfolding t by (auto simp: step_effect_def conds_def condition_simps [OF C])
  show "cond_status t NeutronRPCReadyCondition = None" "cond_status t NeutronWorkerReadyCondition = None"
    "RPCReadyCount (st_of t) = 0" "WorkerReadyCount (st_of t) = 0"
    by (simp_all add: t conds_def condition_simps [OF C])
qed

section \<open>Property\<close>

text \<open>
  The Deployments beside the API that a serving strategy calls for: none under eventlet; under WSGI
  the workers, and \<^verbatim>\<open>neutron-rpc\<close> unless the configuration turns its workers off.
\<close>

definition wanted :: "bool \<Rightarrow> NeutronAPI \<Rightarrow> string list" where
  "wanted wsgi i =
     (if \<not> wsgi then []
      else if GetRPCWorkers (CustomServiceConfig (Spec i)) = 0 then [workerName]
      else [rpcName, workerName])"

definition unwanted :: "bool \<Rightarrow> NeutronAPI \<Rightarrow> string list" where
  "unwanted wsgi i = filter (\<lambda>n. n \<notin> set (wanted wsgi i)) [rpcName, workerName]"

text \<open>
  C13. The worker phase writes exactly the Deployments the serving strategy calls for and deletes
  exactly the others, in the namespace of the resource. It leaves a condition for each WSGI
  Deployment when the strategy is WSGI (True for an RPC Deployment that is turned off) and removes
  both when it is eventlet, so that a change of strategy leaves no condition that could hold back
  readiness; no other condition is touched. The replica counts match: 0 for every Deployment that
  is not wanted, and for every other one what the cluster answered to the write, once it has
  observed the generation, or the count from before.
\<close>

theorem worker_deployments_follow_strategy:
  assumes C: "condition_laws (cnd E)" and run: "workers_phase E an tp mc h wsgi s = (Next (), t)"
  shows "step_effect (wanted wsgi (inst s)) (unwanted wsgi (inst s))
       {NeutronRPCReadyCondition, NeutronWorkerReadyCondition} s t \<and>
     (cond_status t NeutronRPCReadyCondition \<noteq> None \<longleftrightarrow> wsgi) \<and>
     (cond_status t NeutronWorkerReadyCondition \<noteq> None \<longleftrightarrow> wsgi) \<and>
     (wsgi \<and> rpcName \<in> set (unwanted wsgi (inst s)) \<longrightarrow>
        cond_status t NeutronRPCReadyCondition = Some CondTrue) \<and>
     (if rpcName \<in> set (wanted wsgi (inst s))
      then counts E rpcName s t (RPCReadyCount (st_of s)) (RPCReadyCount (st_of t))
      else RPCReadyCount (st_of t) = 0) \<and>
     (if workerName \<in> set (wanted wsgi (inst s))
      then counts E workerName s t (WorkerReadyCount (st_of s)) (WorkerReadyCount (st_of t))
      else WorkerReadyCount (st_of t) = 0)"
proof (cases wsgi)
  case True
  with run obtain u where u: "rpc_phase E an tp mc h s = (Next (), u)" "worker_phase E an tp mc h u = (Next (), t)"
    by (auto simp: workers_phase_def elim!: andthen_NextE)
  note worker = worker_effect [OF C u(2)]
  have rpc: "cond_status t NeutronRPCReadyCondition = cond_status u NeutronRPCReadyCondition"
    using worker(1) by (simp add: step_effect_def)
  show ?thesis
  proof (cases "GetRPCWorkers (CustomServiceConfig (Spec (inst s))) = 0")
    case off: True
    note effects = rpc_off_effect [OF C u(1) off]
    from step_effect_trans [OF effects(1) worker(1)] counts_before [OF worker(3) effects(1)]
    show ?thesis
      using effects(2-4) worker(2,4) True off rpc names_differ
      by (simp add: wanted_def unwanted_def insert_commute)
  next
    case on: False
    note effects = rpc_on_effect [OF C u(1) on]
    from step_effect_trans [OF effects(1) worker(1)] counts_before [OF worker(3) effects(1)]
      counts_after [OF effects(3) worker(1)]
    show ?thesis
      using effects(2,4) worker(2,4) True on rpc names_differ
      by (simp add: wanted_def unwanted_def insert_commute)
  qed
next
  case False
  with run have "eventlet_phase E s = (Next (), t)" by (simp add: workers_phase_def)
  from eventlet_effect [OF C this] False show ?thesis by (simp add: wanted_def unwanted_def)
qed

theorem worker_deployments_follow_strategy_witness:
  "\<exists>t. workers_phase (plain_ext plain_cluster) Map.empty None plain_memcached ''h'' False fresh_state = (Next (), t) \<and>
     step_effect [] [rpcName, workerName] {NeutronRPCReadyCondition, NeutronWorkerReadyCondition} fresh_state t"
proof -
  obtain t where run: "workers_phase (plain_ext plain_cluster) Map.empty None plain_memcached ''h'' False fresh_state
      = (Next (), t)"
    by (simp add: workers_phase_def eventlet_phase_def delete_deployment_def the_inst_def invoke_def prog_defs
        set_status_def remove_cond_def on_conds_def plain_cluster_def)
  from worker_deployments_follow_strategy [OF _ run] run show ?thesis
    by (auto simp: wanted_def unwanted_def list_conditions_laws)
qed

end
