(* ===== verification/Deletion.thy ===== *)
theory Deletion
  imports Reconcile
begin

text \<open>
  Deletion of a resource (\<^verbatim>\<open>reconcileDelete\<close>): its own finalizer goes only after everything it
  holds in other objects was given back, and a failure on the way leaves the resource as it was.
\<close>

section \<open>What was done since the start\<close>

text \<open>The call \<open>c\<close> was made after \<open>tr0\<close> and succeeded.\<close>

definition did :: "ext \<Rightarrow> call list \<Rightarrow> call list \<Rightarrow> call \<Rightarrow> bool" where
  "did E tr0 tr c \<longleftrightarrow> (\<exists>p q. tr = tr0 @ p @ c # q \<and> aErr (cl E) (tr0 @ p @ [c]) = None)"

text \<open>A live TransportURL fetched after \<open>tr0\<close> names the Secret \<open>x\<close>.\<close>

definition offered :: "ext \<Rightarrow> call list \<Rightarrow> call list \<Rightarrow> string \<Rightarrow> bool" where
  "offered E tr0 tr x \<longleftrightarrow> (\<exists>p q n ns tu. tr = tr0 @ p @ GetTransportURL n ns # q \<and>
     aTransportURL (cl E) (tr0 @ p @ [GetTransportURL n ns]) = Inr tu \<and> x = TUSecretName tu)"

definition keeps ::
  "ext \<Rightarrow> call list \<Rightarrow> NeutronAPI \<Rightarrow> call set \<Rightarrow> string set \<Rightarrow> rstate \<Rightarrow> bool" where
  "keeps E tr0 i C L s \<longleftrightarrow> inst s = i \<and> (\<exists>cs. trace s = tr0 @ cs) \<and>
     (\<forall>c \<in> C. did E tr0 (trace s) c) \<and> (\<forall>x. offered E tr0 (trace s) x \<longrightarrow> x \<in> L)"

definition failed_as :: "NeutronAPI \<Rightarrow> answer \<Rightarrow> rstate \<Rightarrow> bool" where
  "failed_as i a s \<longleftrightarrow> snd a \<noteq> None \<and> inst s = i"

fun fetches :: "call \<Rightarrow> bool" where
  "fetches (GetTransportURL n ns) = True"
| "fetches c = False"

lemma did_later: "did E tr0 tr c \<Longrightarrow> did E tr0 (tr @ cs) c"
  unfolding did_def by force

lemma did_now: "aErr (cl E) (tr0 @ cs @ [c]) = None \<Longrightarrow> did E tr0 (tr0 @ cs @ [c]) c"
  unfolding did_def by blast

lemma offered_snoc:
  assumes "offered E tr0 (tr0 @ cs @ [c]) x"
  shows "offered E tr0 (tr0 @ cs) x \<or> (\<exists>n ns tu. c = GetTransportURL n ns \<and>
     aTransportURL (cl E) (tr0 @ cs @ [c]) = Inr tu \<and> x = TUSecretName tu)"
proof -
  from assms obtain p q n ns tu where eq: "cs @ [c] = p @ GetTransportURL n ns # q"
    and tu: "aTransportURL (cl E) (tr0 @ p @ [GetTransportURL n ns]) = Inr tu" "x = TUSecretName tu"
    by (auto simp: offered_def)
  show ?thesis
  proof (cases q rule: rev_cases)
    case Nil
    with eq tu show ?thesis by auto
  next
    case (snoc q' d)
    with eq have "cs = p @ GetTransportURL n ns # q'" by simp
    with tu show ?thesis unfolding offered_def by blast
  qed
qed

section \<open>The rules\<close>

lemma keeps_call:
  assumes "\<not> fetches c"
  shows "triple (keeps E tr0 i C L) (invoke (aErr (cl E)) c)
     (\<lambda>r. keeps E tr0 i (if r = None then insert c C else C) L) F"
    and "triple (keeps E tr0 i C L) (invoke f c) (\<lambda>_. keeps E tr0 i C L) F"
  using assms
  by (auto simp: triple_def invoke_def keeps_def did_later did_now dest!: offered_snoc)

lemma keeps_fetch:
  "triple (keeps E tr0 i C L) (invoke (aTransportURL (cl E)) (GetTransportURL n ns))
     (\<lambda>r. keeps E tr0 i C (case r of Inl _ \<Rightarrow> L | Inr tu \<Rightarrow> insert (TUSecretName tu) L)) F"
  by (auto simp: triple_def invoke_def keeps_def dest!: offered_snoc split: sum.splits)
     (metis append_assoc did_later)+

lemma keeps_inst:
  assumes "triple (keeps E tr0 i C L) (f i) Q F"
  shows "triple (keeps E tr0 i C L) (andthen the_inst f) Q F"
  using assms by (auto simp: triple_def the_inst_def keeps_def prog_defs)

lemma keeps_or_return:
  "triple (\<lambda>s. keeps E tr0 i (if e = None then C' else C) L s) (or_return e)
     (\<lambda>_. keeps E tr0 i C' L) (failed_as i)"
  unfolding or_return_def
  by (cases e) (auto intro!: triple_ok triple_ret simp: failed_as_def keeps_def)

lemma keeps_mono: "keeps E tr0 i C L s \<Longrightarrow> C' \<subseteq> C \<Longrightarrow> L \<subseteq> L' \<Longrightarrow> keeps E tr0 i C' L' s"
  by (auto simp: keeps_def)

lemma keeps_ret: "snd a \<noteq> None \<Longrightarrow> triple (keeps E tr0 i C L) (ret a) Q (failed_as i)"
  by (rule triple_ret) (auto simp: failed_as_def keeps_def)

lemma keeps_ok: "triple (keeps E tr0 i C L) (ok x) (\<lambda>_. keeps E tr0 i C L) F"
  by (rule triple_ok)

lemma keeps_must:
  assumes "\<not> fetches c"
  shows "triple (keeps E tr0 i C L) (andthen (invoke (aErr (cl E)) c) or_return)
     (\<lambda>_. keeps E tr0 i (insert c C) L) (failed_as i)"
  by (rule triple_andthen [OF keeps_call(1) [OF assms]]) (rule keeps_or_return)

text \<open>An error other than not-found ends the function.\<close>

lemma keeps_tolerant:
  "triple (keeps E tr0 i C L) (if e \<noteq> None \<and> \<not> notFound e then or_return e else ok ())
     (\<lambda>_. keeps E tr0 i C L) (failed_as i)"
  using keeps_or_return [of E tr0 i e C C L] by (auto intro: keeps_ok)

section \<open>The blocks\<close>

lemma keeps_database:
  "triple (keeps E tr0 i C L) (release_database E) (\<lambda>_. keeps E tr0 i C L) (failed_as i)"
proof -
  have weaken: "triple (keeps E tr0 i C L) (andthen (invoke (aErr (cl E)) DatabaseDeleteFinalizer) or_return)
      (\<lambda>_. keeps E tr0 i C L) (failed_as i)"
    by (rule triple_post [OF keeps_must]) (auto intro: keeps_mono)
  have error: "triple (keeps E tr0 i C L) (or_return e) (\<lambda>_. keeps E tr0 i C L) (failed_as i)" for e
    using keeps_or_return [of E tr0 i e C C L] by simp
  show ?thesis
    unfolding release_database_def
    by (intro keeps_inst triple_andthen [OF keeps_call(2)] triple_if weaken error keeps_ok) simp
qed

lemma keeps_keystone:
  assumes "\<And>n ns. \<not> fetches (get n ns)" and "\<And>x. \<not> fetches (put x)"
  shows "triple (keeps E tr0 i C L) (release_keystone E get put) (\<lambda>_. keeps E tr0 i C L) (failed_as i)"
  unfolding release_keystone_def
  by (intro keeps_inst triple_andthen [OF keeps_call(2)] triple_cases keeps_ret keeps_ok keeps_tolerant)
     (simp_all add: assms)

lemma keeps_topology:
  "triple (keeps E tr0 i C L) (release_topology E) (\<lambda>_. keeps E tr0 i C L) (failed_as i)"
  unfolding release_topology_def
  by (intro keeps_inst triple_andthen [OF keeps_call(2)] triple_cases keeps_ret keeps_ok) simp_all

lemma keeps_live_secrets:
  assumes "L \<subseteq> set acc"
  shows "triple (keeps E tr0 i C L) (live_secrets E ns tus acc)
     (\<lambda>xs s. keeps E tr0 i C (set xs) s \<and> set acc \<subseteq> set xs) (failed_as i)"
  using assms
proof (induction tus arbitrary: acc L)
  case Nil
  then show ?case by (auto intro!: triple_ok elim: keeps_mono)
next
  case (Cons n tus)
  have more: "triple (keeps E tr0 i C L') (live_secrets E ns tus acc')
      (\<lambda>xs s. keeps E tr0 i C (set xs) s \<and> set acc \<subseteq> set xs) (failed_as i)"
    if "L' \<subseteq> set acc'" "set acc \<subseteq> set acc'" for L' acc'
    using that by (intro triple_post [OF Cons.IH]) auto
  show ?case
    unfolding live_secrets.simps
  proof (rule triple_andthen [OF keeps_fetch])
    fix r :: "goerror + TransportURL"
    show "triple (keeps E tr0 i C (case r of Inl _ \<Rightarrow> L | Inr tu \<Rightarrow> insert (TUSecretName tu) L))
       (case r of
         Inl e \<Rightarrow> if \<not> IsNotFound e then ret (NoResult, Some e) else live_secrets E ns tus acc
       | Inr tu \<Rightarrow> live_secrets E ns tus (acc @ [TUSecretName tu]))
       (\<lambda>xs s. keeps E tr0 i C (set xs) s \<and> set acc \<subseteq> set xs) (failed_as i)"
      using Cons.prems by (cases r) (auto intro!: more keeps_ret)
  qed
qed

definition removals :: "NeutronAPI \<Rightarrow> string \<Rightarrow> string set \<Rightarrow> call set" where
  "removals i finalizer xs = (\<lambda>x. RemoveSecretConsumerFinalizer (Namespace i) x finalizer) ` xs"

lemma keeps_removals:
  "triple (keeps E tr0 i C L) (foreach (remove_consumer E f) xs)
     (\<lambda>_. keeps E tr0 i (C \<union> removals i f (set xs)) L) (failed_as i)"
proof (induction xs arbitrary: C)
  case Nil
  then show ?case by (auto intro!: triple_ok simp: removals_def)
next
  case (Cons x xs)
  have one: "triple (keeps E tr0 i C L) (remove_consumer E f x)
     (\<lambda>_. keeps E tr0 i (insert (RemoveSecretConsumerFinalizer (Namespace i) x f) C) L) (failed_as i)"
    unfolding remove_consumer_def by (intro keeps_inst keeps_must) simp
  show ?case
    using triple_andthen [OF one Cons.IH] by (simp add: removals_def)
qed

section \<open>reconcileDelete\<close>

text \<open>The Secrets the status and the spec say the resource consumes.\<close>

definition transport_secrets :: "NeutronAPI \<Rightarrow> string set" where
  "transport_secrets i = insert (TransportURLSecret (Status i))
     (set_option (NotificationsTransportURLSecret (Status i)))"

definition credential_secrets :: "NeutronAPI \<Rightarrow> string set" where
  "credential_secrets i =
     {ApplicationCredentialSecret (Status i), AuthApplicationCredentialSecret (Spec i)}"

text \<open>
  The claims on other objects: the database, given up unless it is gone; a Keystone object, whose
  finalizer is taken off unless the object is gone or does not have it; the applied topology.
\<close>

definition happened :: "call list \<Rightarrow> call list \<Rightarrow> call \<Rightarrow> (call list \<Rightarrow> bool) \<Rightarrow> bool" where
  "happened tr0 tr c V \<longleftrightarrow> (\<exists>p q. tr = tr0 @ p @ c # q \<and> V (tr0 @ p @ [c]))"

definition database_back :: "ext \<Rightarrow> NeutronAPI \<Rightarrow> call list \<Rightarrow> call list \<Rightarrow> bool" where
  "database_back E i tr0 tr \<longleftrightarrow> did E tr0 tr DatabaseDeleteFinalizer \<or>
     happened tr0 tr (GetDatabaseByNameAndAccount DatabaseCRName (DatabaseAccount (Spec i)) (Namespace i))
       (\<lambda>cs. notFound (aErr (cl E) cs))"

definition keystone_back ::
  "ext \<Rightarrow> (string \<Rightarrow> string \<Rightarrow> call) \<Rightarrow> (KeystoneObj \<Rightarrow> call) \<Rightarrow> NeutronAPI \<Rightarrow> call list \<Rightarrow> call list \<Rightarrow> bool" where
  "keystone_back E get put i tr0 tr \<longleftrightarrow> (\<exists>r. happened tr0 tr (get ServiceName (Namespace i)) (\<lambda>cs. aKeystoneObj (cl E) cs = r) \<and>
     (case r of
        Inl e \<Rightarrow> IsNotFound e
      | Inr obj \<Rightarrow> HelperFinalizer (ut E) \<notin> set (KFinalizers obj) \<or>
          (\<exists>fs. set fs = set (KFinalizers obj) - {HelperFinalizer (ut E)} \<and>
             happened tr0 tr (put (obj\<lparr>KFinalizers := fs\<rparr>)) (\<lambda>cs. aErr (cl E) cs = None \<or> notFound (aErr (cl E) cs)))))"

definition topology_back :: "ext \<Rightarrow> NeutronAPI \<Rightarrow> call list \<Rightarrow> call list \<Rightarrow> bool" where
  "topology_back E i tr0 tr \<longleftrightarrow>
     happened tr0 tr (EnsureDeletedTopologyRef (LastAppliedTopology (Status i)) (Name i))
       (\<lambda>cs. snd (aResult (cl E) cs) = None)"

definition others_back :: "ext \<Rightarrow> NeutronAPI \<Rightarrow> call list \<Rightarrow> call list \<Rightarrow> bool" where
  "others_back E i tr0 tr \<longleftrightarrow> database_back E i tr0 tr \<and>
     keystone_back E GetKeystoneEndpointWithName UpdateKeystoneEndpoint i tr0 tr \<and>
     keystone_back E GetKeystoneServiceWithName UpdateKeystoneService i tr0 tr \<and> topology_back E i tr0 tr"

definition given_back :: "ext \<Rightarrow> NeutronAPI \<Rightarrow> call list \<Rightarrow> call list \<Rightarrow> bool" where
  "given_back E i tr0 tr \<longleftrightarrow> others_back E i tr0 tr \<and>
     (\<forall>x. x \<in> transport_secrets i \<or> offered E tr0 tr x \<longrightarrow>
        did E tr0 tr (RemoveSecretConsumerFinalizer (Namespace i) x TransportConsumerFinalizer)) \<and>
     (\<forall>x \<in> credential_secrets i.
        did E tr0 tr (RemoveSecretConsumerFinalizer (Namespace i) x ACConsumerFinalizer)) \<and>
     did E tr0 tr (PruneSecretConsumerFinalizers (Namespace i) TransportConsumerFinalizer []) \<and>
     did E tr0 tr (PruneSecretConsumerFinalizers (Namespace i) ACConsumerFinalizer [])"

lemma happened_later: "happened tr0 tr c V \<Longrightarrow> happened tr0 (tr @ cs) c V"
  unfolding happened_def by force

lemma back_later:
  "database_back E i tr0 tr \<Longrightarrow> database_back E i tr0 (tr @ cs)"
  "keystone_back E get put i tr0 tr \<Longrightarrow> keystone_back E get put i tr0 (tr @ cs)"
  "topology_back E i tr0 tr \<Longrightarrow> topology_back E i tr0 (tr @ cs)"
  by (auto simp: database_back_def keystone_back_def topology_back_def intro: did_later happened_later
      split: sum.splits) (meson happened_later)+

text \<open>A block that does its part, from any state of the deletion.\<close>

abbreviation deleting :: "NeutronAPI \<Rightarrow> call list \<Rightarrow> rstate \<Rightarrow> bool" where
  "deleting i tr0 s \<equiv> inst s = i \<and> (\<exists>cs. trace s = tr0 @ cs)"

lemma guarded_happens:
  assumes "\<And>tr cs. H tr \<Longrightarrow> H (tr @ cs)"
  shows "guarded (\<lambda>s. deleting i tr0 s \<and> H (trace s)) (invoke f c)
    (\<lambda>r s. deleting i tr0 s \<and> H (trace s) \<and> happened tr0 (trace s) c (\<lambda>cs. f cs = r)) R"
proof -
  have "happened tr0 (tr0 @ cs @ [c]) c (\<lambda>es. f es = f (tr0 @ cs @ [c]))" for cs
    unfolding happened_def by (intro exI [of _ cs] exI [of _ "[]"]) simp
  then show ?thesis using assms by (auto simp: guarded_def invoke_def)
qed

lemmas guarded_happens_first = guarded_happens [where H = "\<lambda>_. True", simplified]

lemma guarded_exit: "e \<noteq> None \<Longrightarrow> guarded P (or_return e) Q (\<lambda>_. True)"
  by (auto simp: or_return_def guarded_def prog_defs)

lemma guarded_deleting:
  assumes "guarded (deleting i tr0) (f i) Q R"
  shows "guarded (deleting i tr0) (andthen the_inst f) Q R"
  using assms by (auto simp: guarded_def the_inst_def prog_defs)

lemma did_happened: "did E tr0 tr c = happened tr0 tr c (\<lambda>cs. aErr (cl E) cs = None)"
  by (simp add: did_def happened_def)

lemma database_released:
  "guarded (deleting i tr0) (release_database E) (\<lambda>_ s. database_back E i tr0 (trace s)) (\<lambda>_. True)"
proof -
  have delete: "guarded (deleting i tr0) (andthen (invoke (aErr (cl E)) DatabaseDeleteFinalizer) or_return)
      (\<lambda>_ s. database_back E i tr0 (trace s)) (\<lambda>_. True)"
    by (rule guarded_andthen [OF guarded_happens_first])
       (auto simp: or_return_def database_back_def did_happened intro!: guarded_option guarded_ok guarded_ret)
  show ?thesis
    unfolding release_database_def
    by (rule guarded_deleting, rule guarded_andthen [OF guarded_happens_first],
        intro guarded_if guarded_exit guarded_pre [OF delete] guarded_ok)
       (auto simp: database_back_def happened_def)
qed

lemma topology_released:
  "guarded (deleting i tr0) (release_topology E) (\<lambda>_ s. topology_back E i tr0 (trace s)) (\<lambda>_. True)"
  unfolding release_topology_def
  by (rule guarded_deleting, rule guarded_andthen [OF guarded_happens_first])
     (auto simp: topology_back_def happened_def intro!: guarded_ok guarded_ret split: prod.split option.split)

lemma keystone_released:
  assumes U: "util_laws (ut E)"
  shows "guarded (deleting i tr0) (release_keystone E get put)
    (\<lambda>_ s. keystone_back E get put i tr0 (trace s)) (\<lambda>_. True)"
  unfolding release_keystone_def
proof (rule guarded_deleting, rule guarded_andthen [OF guarded_happens_first], goal_cases)
  case (1 r)
  let ?H = "\<lambda>tr. happened tr0 tr (get ServiceName (Namespace i)) (\<lambda>cs. aKeystoneObj (cl E) cs = r)"
  show ?case
  proof (cases r)
    case (Inl e)
    then show ?thesis by (auto intro!: guarded_ret guarded_ok simp: keystone_back_def)
  next
    case (Inr obj)
    obtain fs removed where rm: "RemoveFinalizer (ut E) (KFinalizers obj) (HelperFinalizer (ut E)) = (fs, removed)"
      by fastforce
    with U have fs: "set fs = set (KFinalizers obj) - {HelperFinalizer (ut E)}"
      "removed \<longleftrightarrow> HelperFinalizer (ut E) \<in> set (KFinalizers obj)"
      unfolding util_laws_def by (metis fst_conv, metis snd_conv)
    have "guarded (\<lambda>s. deleting i tr0 s \<and> ?H (trace s))
      (andthen (invoke (aErr (cl E)) (put (obj\<lparr>KFinalizers := fs\<rparr>))) (\<lambda>err.
       if err \<noteq> None \<and> \<not> notFound err then or_return err else ok ()))
      (\<lambda>_ s. keystone_back E get put i tr0 (trace s)) (\<lambda>_. True)"
    proof (rule guarded_andthen [OF guarded_happens [where H = ?H]], goal_cases)
      case (2 err)
      have "keystone_back E get put i tr0 tr" if "?H tr" "err = None \<or> notFound err"
        "happened tr0 tr (put (obj\<lparr>KFinalizers := fs\<rparr>)) (\<lambda>cs. aErr (cl E) cs = err)" for tr
      proof -
        have "happened tr0 tr (put (obj\<lparr>KFinalizers := fs\<rparr>)) (\<lambda>cs. aErr (cl E) cs = None \<or> notFound (aErr (cl E) cs))"
          using that(2,3) unfolding happened_def by blast
        with that(1) fs(1) show ?thesis unfolding keystone_back_def by (intro exI [of _ r]) (auto simp: Inr)
      qed
      then show ?case by (intro guarded_if guarded_exit guarded_ok) auto
    qed (rule happened_later)
    then show ?thesis
      using fs(2) by (auto simp: Inr rm keystone_back_def intro!: guarded_ok)
  qed
qed

lemma keeps_block:
  assumes "triple (keeps E tr0 i C L) m (\<lambda>_. keeps E tr0 i C L) F"
    and "guarded (deleting i tr0) m (\<lambda>_ s. B (trace s)) (\<lambda>_. True)"
    and "always (steady (\<lambda>_. True)) m" and "\<And>tr cs. G tr \<Longrightarrow> G (tr @ cs)"
  shows "triple (\<lambda>s. keeps E tr0 i C L s \<and> G (trace s)) m (\<lambda>_ s. keeps E tr0 i C L s \<and> G (trace s) \<and> B (trace s)) F"
proof -
  have "guarded (\<lambda>s. G (trace s)) m (\<lambda>_ s. G (trace s)) (\<lambda>_. True)"
    by (rule guarded_frame [OF assms(3)]) (auto simp: steady_def grown_def assms(4))
  note triple_guarded [OF assms(1) guarded_conj [OF assms(2) this]]
  then show ?thesis
    by (rule triple_pre [OF triple_post]) (auto simp: keeps_def)
qed

lemma steady_releases:
  "always (steady (\<lambda>_. True)) (release_database E)" "always (steady (\<lambda>_. True)) (release_keystone E get put)"
  "always (steady (\<lambda>_. True)) (release_topology E)"
  unfolding release_database_def release_keystone_def release_topology_def
  by (intro steady_rules; simp)+

lemma keeps_others:
  assumes U: "util_laws (ut E)" and k: "\<And>G. (\<And>tr cs. G tr \<Longrightarrow> G (tr @ cs)) \<Longrightarrow> (\<And>tr. G tr \<Longrightarrow> others_back E i tr0 tr) \<Longrightarrow>
      triple (\<lambda>s. keeps E tr0 i C L s \<and> G (trace s)) k Q (failed_as i)"
  shows "triple (keeps E tr0 i C L)
    (andthen (release_database E) (\<lambda>_.
     andthen (release_keystone E GetKeystoneEndpointWithName UpdateKeystoneEndpoint) (\<lambda>_.
     andthen (release_keystone E GetKeystoneServiceWithName UpdateKeystoneService) (\<lambda>_.
     andthen (release_topology E) (\<lambda>_. k))))) Q (failed_as i)"
proof -
  note blocks = keeps_block [OF keeps_database database_released steady_releases(1), where G = "\<lambda>_. True"]
    keeps_block [OF keeps_keystone keystone_released [OF U] steady_releases(2)]
    keeps_block [OF keeps_topology topology_released steady_releases(3)]
  show ?thesis
    by (rule triple_pre, rule triple_andthen [OF blocks(1)], rule TrueI,
        rule triple_andthen [OF blocks(2)], simp, simp, blast intro: back_later,
        rule triple_andthen [OF blocks(2)], simp, simp, blast intro: back_later,
        rule triple_andthen [OF blocks(3)], blast intro: back_later,
        rule k, auto intro: back_later simp: others_back_def)
qed

lemma keeps_transport:
  "triple (keeps E tr0 i {} {}) (release_transport E)
     (\<lambda>_ s. \<exists>xs. keeps E tr0 i (removals i TransportConsumerFinalizer (transport_secrets i \<union> xs)) xs s)
     (failed_as i)"
proof -
  let ?n = "case NotificationsTransportURLSecret (Status i) of None \<Rightarrow> [] | Some x \<Rightarrow> [x]"
  let ?start = "[TransportURLSecret (Status i)]"
  have "triple (\<lambda>s. keeps E tr0 i {} (set xs) s \<and> set ?start \<subseteq> set xs)
     (foreach (remove_consumer E TransportConsumerFinalizer) (xs @ ?n))
     (\<lambda>_ s. \<exists>xs. keeps E tr0 i (removals i TransportConsumerFinalizer (transport_secrets i \<union> xs)) xs s)
     (failed_as i)" (is "triple ?P ?m ?Q _") for xs
  proof (cases "TransportURLSecret (Status i) \<in> set xs")
    case True
    then have "transport_secrets i \<union> set xs \<subseteq> set (xs @ ?n)"
      by (auto simp: transport_secrets_def)
    then have more: "removals i f (transport_secrets i \<union> set xs) \<subseteq> removals i f (set (xs @ ?n))" for f
      unfolding removals_def by blast
    show ?thesis
      by (rule triple_pre [OF triple_post [OF keeps_removals [where C = "{}" and L = "set xs"]]])
         (auto intro!: exI [of _ "set xs"] elim!: keeps_mono [OF _ more] simp del: set_append)
  next
    case False
    then show ?thesis by (simp add: triple_def)
  qed
  then show ?thesis
    unfolding release_transport_def
    by (intro keeps_inst triple_andthen [OF keeps_live_secrets]) simp_all
qed

lemma keeps_prune:
  "triple (keeps E tr0 i C L) (prune_all E f)
     (\<lambda>_. keeps E tr0 i (insert (PruneSecretConsumerFinalizers (Namespace i) f []) C) L) (failed_as i)"
  unfolding prune_all_def by (intro keeps_inst keeps_must) simp

lemma triple_some:
  assumes "\<And>x. triple (P x) m Q F"
  shows "triple (\<lambda>s. \<exists>x. P x s) m Q F"
  unfolding triple_def
proof (intro allI impI)
  fix s assume "\<exists>x. P x s"
  then obtain x where "P x s" by blast
  with assms [of x] show "case m s of (Next x, t) \<Rightarrow> Q x t | (Return r, t) \<Rightarrow> F r t | (Panic _, _) \<Rightarrow> False"
    by (simp add: triple_def)
qed

lemma keeps_facts: "keeps E tr0 i C L s \<Longrightarrow> inst s = i \<and> (\<exists>cs. trace s = tr0 @ cs)"
  by (simp add: keeps_def)

lemma keeps_given_back:
  assumes "keeps E tr0 i (insert (PruneSecretConsumerFinalizers (Namespace i) ACConsumerFinalizer [])
       (insert (PruneSecretConsumerFinalizers (Namespace i) TransportConsumerFinalizer [])
          (removals i TransportConsumerFinalizer (transport_secrets i \<union> xs)
           \<union> removals i ACConsumerFinalizer (credential_secrets i)))) xs s"
    and "others_back E i tr0 (trace s)"
  shows "given_back E i tr0 (trace s)"
  using assms by (auto simp: keeps_def given_back_def removals_def)

lemma steady_live_secrets: "always (steady P) (live_secrets E ns tus acc)" if "\<And>n ns. P (GetTransportURL n ns)"
  by (induction tus arbitrary: acc) (auto intro!: steady_rules that)

lemma release_all_gives_back:
  assumes U: "util_laws (ut E)"
  shows "triple (keeps E tr0 i {} {}) (release_all E)
     (\<lambda>_ s. inst s = i \<and> (\<exists>cs. trace s = tr0 @ cs) \<and> given_back E i tr0 (trace s)) (failed_as i)"
proof -
  let ?tail = "andthen (release_transport E) (\<lambda>_. andthen (prune_all E TransportConsumerFinalizer) (\<lambda>_.
      andthen (prune_all E ACConsumerFinalizer) (\<lambda>_. release_credential E)))"
  let ?done = "\<lambda>xs. keeps E tr0 i (insert (PruneSecretConsumerFinalizers (Namespace i) ACConsumerFinalizer [])
       (insert (PruneSecretConsumerFinalizers (Namespace i) TransportConsumerFinalizer [])
          (removals i TransportConsumerFinalizer (transport_secrets i \<union> xs)
           \<union> removals i ACConsumerFinalizer (credential_secrets i)))) xs"
  have credential: "triple (keeps E tr0 i C L) (release_credential E)
      (\<lambda>_. keeps E tr0 i (C \<union> removals i ACConsumerFinalizer (credential_secrets i)) L) (failed_as i)" for C L
    using keeps_removals [of E tr0 i C L ACConsumerFinalizer
        "[ApplicationCredentialSecret (Status i), AuthApplicationCredentialSecret (Spec i)]"]
    unfolding release_credential_def by (intro keeps_inst) (simp add: credential_secrets_def)
  have rest: "triple (keeps E tr0 i (removals i TransportConsumerFinalizer (transport_secrets i \<union> xs)) xs)
     (andthen (prune_all E TransportConsumerFinalizer) (\<lambda>_.
      andthen (prune_all E ACConsumerFinalizer) (\<lambda>_. release_credential E)))
     (\<lambda>_ s. \<exists>xs. ?done xs s) (failed_as i)" for xs
    by (intro triple_post [OF triple_andthen [OF keeps_prune triple_andthen [OF keeps_prune credential]]])
       (auto simp: insert_commute)
  have tail: "triple (keeps E tr0 i {} {}) ?tail (\<lambda>_ s. \<exists>xs. ?done xs s) (failed_as i)"
    by (intro triple_andthen [OF keeps_transport] triple_some rest)
  have "always (steady (\<lambda>_. True)) ?tail"
    unfolding release_transport_def prune_all_def release_credential_def remove_consumer_def
    by (intro steady_rules steady_live_secrets; simp)
  then have grows: "guarded (\<lambda>s. G (trace s)) ?tail (\<lambda>_ s. G (trace s)) (\<lambda>_. True)" if "\<And>tr cs. G tr \<Longrightarrow> G (tr @ cs)" for G
    by (rule guarded_frame) (auto simp: steady_def grown_def that)
  show ?thesis
    unfolding release_all_def
    by (rule keeps_others [OF U], rule triple_post [OF triple_guarded [OF tail grows]])
       (auto dest: keeps_given_back keeps_facts)
qed

text \<open>
  C10. Deletion: \<^verbatim>\<open>reconcileDelete\<close> never panics. When it returns no error, the operator's
  finalizer is gone from the resource and nothing else of it changed, and before that every claim
  on another object was given back: the database finalizer deleted unless the database was not
  found; the operator's finalizer taken off the Keystone endpoint and service unless they were not
  found or did not have it; the applied topology released; the consumer finalizer removed, with
  success, from every Secret the resource tracks in its status, names in its spec or that a live
  TransportURL offered, and stranded ones pruned for both finalizers. When it returns an error the
  resource is unchanged, so its finalizer still holds it.
\<close>

theorem reconcileDelete_releases:
  assumes U: "util_laws (ut E)"
  shows "case reconcileDelete E s of
     (Return (r, None), t) \<Rightarrow> r = NoResult \<and>
        HelperFinalizer (ut E) \<notin> set (Finalizers (inst t)) \<and>
        set (Finalizers (inst s)) - {HelperFinalizer (ut E)} = set (Finalizers (inst t)) \<and>
        inst t = (inst s)\<lparr>Finalizers := Finalizers (inst t)\<rparr> \<and>
        given_back E (inst s) (trace s) (trace t)
   | (Return (r, Some e), t) \<Rightarrow> inst t = inst s
   | (_, t) \<Rightarrow> False"
proof -
  let ?i = "inst s"
  have start: "keeps E (trace s) ?i {} {} s"
    by (auto simp: keeps_def offered_def)
  note all = release_all_gives_back [OF U, of "trace s" ?i]
  show ?thesis
  proof (cases "release_all E s" rule: outcome_prod_cases)
    case (Next x t)
    from tripleD_Next [OF all start Next]
    have t: "inst t = ?i" "given_back E ?i (trace s) (trace t)" by auto
    have "reconcileDelete E s = (Return (NoResult, None),
        t\<lparr>inst := (inst t)\<lparr>Finalizers :=
          fst (RemoveFinalizer (ut E) (Finalizers (inst t)) (HelperFinalizer (ut E)))\<rparr>\<rparr>)"
      by (simp add: reconcileDelete_def Next prog_defs the_inst_def set_finalizers_def)
    with t U show ?thesis by (simp add: util_laws_def)
  next
    case (Return r t)
    from tripleD_Return [OF all start Return] have "snd r \<noteq> None" "inst t = ?i"
      by (auto simp: failed_as_def)
    moreover obtain a e where "r = (a, e)" by fastforce
    ultimately show ?thesis using Return by (auto simp: reconcileDelete_def andthen_def)
  next
    case (Panic m t)
    then have False using tripleD_Panic [OF all start] by blast
    then show ?thesis ..
  qed
qed

text \<open>A resource in the middle of two rotations, on a cluster where every call succeeds.\<close>

definition held_state :: rstate where
  "held_state = fresh_state\<lparr>inst := blank_api\<lparr>
     Finalizers := [''other'', ''openstack.org/neutronapi''], DeletionTimestamp := Some 0,
     Status := blank_status\<lparr>TransportURLSecret := ''old'', ApplicationCredentialSecret := ''ac''\<rparr>\<rparr>\<rparr>"

lemma held_run:
  "fst (reconcileDelete (plain_ext plain_cluster) held_state) = Return (NoResult, None)"
  "Finalizers (inst (snd (reconcileDelete (plain_ext plain_cluster) held_state))) = [''other'']"
  by (simp_all add: reconcileDelete_def release_all_def release_database_def release_keystone_def
      release_topology_def release_transport_def remove_consumer_def prune_all_def
      release_credential_def set_finalizers_def or_return_def invoke_def the_inst_def prog_defs
      plain_cluster_def plain_util_def held_state_def blank_status_def)

theorem reconcileDelete_releases_witness:
  "Finalizers (inst (snd (reconcileDelete (plain_ext plain_cluster) held_state))) = [''other''] \<and>
   given_back (plain_ext plain_cluster) (inst held_state) []
     (trace (snd (reconcileDelete (plain_ext plain_cluster) held_state)))"
proof -
  have "trace held_state = []" by (simp add: held_state_def fresh_state_def)
  moreover note held_run reconcileDelete_releases [of "plain_ext plain_cluster" held_state]
  ultimately show ?thesis
    by (cases "reconcileDelete (plain_ext plain_cluster) held_state") (simp add: plain_util_laws)
qed

end
