(* ===== verification/Completion.thy ===== *)
theory Completion
  imports Deletion Patching
begin

text \<open>
  The end of a resource: when the cluster lets the operator give back what it holds, a resource being
  deleted loses the operator's finalizer after at most two reconciles.
\<close>

section \<open>Nothing in the way\<close>

text \<open>
  No call of a deletion fails, except that an object asked for may be gone already. The calls whose
  error may be \<^verbatim>\<open>NotFound\<close>:
\<close>

fun tolerated :: "call \<Rightarrow> bool" where
  "tolerated (GetDatabaseByNameAndAccount n a ns) = True"
| "tolerated (UpdateKeystoneEndpoint k) = True"
| "tolerated (UpdateKeystoneService k) = True"
| "tolerated c = False"

definition unobstructed :: "cluster \<Rightarrow> bool" where
  "unobstructed c \<longleftrightarrow>
     (\<forall>cs k. aErr c (cs @ [k]) = None \<or> tolerated k \<and> notFound (aErr c (cs @ [k]))) \<and>
     (\<forall>cs e. aKeystoneObj c cs = Inl e \<longrightarrow> IsNotFound e) \<and>
     (\<forall>cs e. aTransportURL c cs = Inl e \<longrightarrow> IsNotFound e) \<and>
     (\<forall>cs. snd (aResult c cs) = None)"

section \<open>Every release goes through\<close>

abbreviation passes :: "NeutronAPI \<Rightarrow> 'a reconcile \<Rightarrow> bool" where
  "passes i m \<equiv> triple (\<lambda>s. inst s = i) m (\<lambda>_ s. inst s = i) (\<lambda>_ _. False)"

lemma pass_then: "passes i m \<Longrightarrow> (\<And>x. passes i (f x)) \<Longrightarrow> passes i (andthen m f)"
  by (rule triple_andthen)

lemma pass_ok: "passes i (ok x)"
  by (rule triple_ok)

lemma pass_inst: "passes i (f i) \<Longrightarrow> passes i (andthen the_inst f)"
  by (auto simp: triple_def the_inst_def prog_defs)

lemma pass_call: "(\<And>cs. passes i (k (g (cs @ [c])))) \<Longrightarrow> passes i (andthen (invoke g c) k)"
  by (simp add: triple_def invoke_def andthen_def)

lemma pass_err:
  assumes "unobstructed (cl E)" and "passes i (k None)"
    and "\<And>e. tolerated c \<Longrightarrow> IsNotFound e \<Longrightarrow> passes i (k (Some e))"
  shows "passes i (andthen (invoke (aErr (cl E)) c) k)"
proof (rule pass_call)
  fix cs
  have "aErr (cl E) (cs @ [c]) = None \<or> tolerated c \<and> notFound (aErr (cl E) (cs @ [c]))"
    using assms(1) by (simp add: unobstructed_def)
  with assms(2,3) show "passes i (k (aErr (cl E) (cs @ [c])))"
    by (auto simp: notFound_def split: option.splits)
qed

lemma pass_live_secrets:
  assumes "unobstructed (cl E)"
  shows "passes i (live_secrets E ns tus acc)"
proof (induction tus arbitrary: acc)
  case (Cons tu tus)
  have "IsNotFound e" if "aTransportURL (cl E) cs = Inl e" for cs e
    using assms that by (auto simp: unobstructed_def)
  with Cons.IH show ?case by (auto intro!: pass_call split: sum.split)
qed (simp add: pass_ok)

lemma pass_foreach: "(\<And>x. passes i (f x)) \<Longrightarrow> passes i (foreach f xs)"
  by (rule triple_foreach)

lemma pass_remove:
  assumes "unobstructed (cl E)"
  shows "passes i (remove_consumer E f n)"
  unfolding remove_consumer_def by (auto intro!: pass_inst pass_err [OF assms] simp: or_return_def pass_ok)

lemma pass_keystone:
  assumes U: "unobstructed (cl E)" and put: "\<And>k. tolerated (put k)"
  shows "passes i (release_keystone E get put)"
proof -
  have "IsNotFound e" if "aKeystoneObj (cl E) cs = Inl e" for cs e
    using U that by (auto simp: unobstructed_def)
  moreover have "passes i (andthen (invoke (aErr (cl E)) (put k)) (\<lambda>err.
      if err \<noteq> None \<and> \<not> notFound err then or_return err else ok ()))" for k
    by (auto intro!: pass_err [OF U] simp: pass_ok notFound_def)
  ultimately show ?thesis
    unfolding release_keystone_def
    by (intro pass_inst pass_call) (auto simp: pass_ok split: sum.split prod.split)
qed

lemma release_all_passes:
  assumes U: "unobstructed (cl E)"
  shows "passes i (release_all E)"
proof -
  have "passes i (release_database E)"
    unfolding release_database_def
    by (auto intro!: pass_inst pass_err [OF U] simp: pass_ok notFound_def or_return_def)
  moreover have "passes i (release_topology E)"
    using U unfolding release_topology_def
    by (auto intro!: pass_inst pass_call simp: pass_ok unobstructed_def case_prod_unfold)
  moreover have "passes i (prune_all E f)" for f
    unfolding prune_all_def by (auto intro!: pass_inst pass_err [OF U] simp: or_return_def pass_ok)
  moreover have "passes i (release_transport E)" "passes i (release_credential E)"
    unfolding release_transport_def release_credential_def
    by (intro pass_inst pass_then pass_live_secrets [OF U] pass_foreach pass_remove [OF U])+
  ultimately show ?thesis
    unfolding release_all_def by (intro pass_then pass_keystone [OF U]) simp_all
qed

lemma reconcileDelete_completes:
  assumes U: "unobstructed (cl E)" and R: "util_laws (ut E)"
  shows "\<exists>t fs. reconcileDelete E s = (Return (NoResult, None), t) \<and> inst t = (inst s)\<lparr>Finalizers := fs\<rparr> \<and>
    HelperFinalizer (ut E) \<notin> set fs"
proof -
  obtain u where u: "release_all E s = (Next (), u)" "inst u = inst s"
    using release_all_passes [OF U, of "inst s"]
    by (cases "release_all E s" rule: outcome_prod_cases) (auto simp: triple_def)
  have "HelperFinalizer (ut E) \<notin> set (fst (RemoveFinalizer (ut E) (Finalizers (inst s)) (HelperFinalizer (ut E))))"
    using R by (simp add: util_laws_def)
  with u show ?thesis
    by (fastforce simp: reconcileDelete_def andthen_def the_inst_def reads_def set_finalizers_def update_def ret_def)
qed

section \<open>The reconciles of a deletion\<close>

text \<open>A resource being deleted that has conditions: every reconcile but the first of its life.\<close>

definition leaving :: "NeutronAPI \<Rightarrow> bool" where
  "leaving i \<longleftrightarrow> DeletionTimestamp i \<noteq> None \<and> StatusConditions (Status i) \<noteq> None"

lemma body_deletes:
  assumes U: "unobstructed (cl E)" and R: "util_laws (ut E)" and i: "DeletionTimestamp (inst s) \<noteq> None"
  shows "\<exists>t. reconcile_body E isNew s = (Return (NoResult, None), t) \<and> leaving (inst t) \<and>
    (\<not> isNew \<longrightarrow> HelperFinalizer (ut E) \<notin> set (Finalizers (inst t)))"
proof -
  obtain d where d: "DeletionTimestamp (inst s) = Some d" using i by blast
  show ?thesis
  proof (cases isNew)
    case True
    with d show ?thesis
      by (simp add: reconcile_body_def first_pass_def on_conds_def set_status_def the_inst_def prog_defs leaving_def)
  next
    case False
    let ?st = "(st_of s)\<lparr>StatusConditions := Some (CInit (cnd E) (conds (st_of s)) (init_conditions E)),
      ObservedGeneration := Generation (inst s)\<rparr>"
    define st1 where "st1 = (if Hash ?st = None then ?st\<lparr>Hash := Some Map.empty\<rparr> else ?st)"
    define st2 where "st2 = (if StatusNetworkAttachments st1 = None
      then st1\<lparr>StatusNetworkAttachments := Some Map.empty\<rparr> else st1)"
    have "reconcile_body E isNew s = reconcileDelete E (s\<lparr>inst := (inst s)\<lparr>Status := st2\<rparr>\<rparr>)"
      using False d
      by (auto simp: reconcile_body_def first_pass_def on_conds_def set_status_def the_inst_def prog_defs st1_def st2_def)
    moreover have "StatusConditions st2 \<noteq> None" by (simp add: st2_def st1_def)
    ultimately show ?thesis
      using reconcileDelete_completes [OF U R, of "s\<lparr>inst := (inst s)\<lparr>Status := st2\<rparr>\<rparr>"] i
      by (auto simp: leaving_def)
  qed
qed

lemma deferred_passes:
  assumes U: "unobstructed (cl E)"
  shows "\<exists>t st. deferred E saved a s = (Return a, t) \<and> inst t = (inst s)\<lparr>Status := st\<rparr> \<and> StatusConditions st \<noteq> None"
proof -
  have "aErr (cl E) (cs @ [PatchInstance j]) = None" for cs j
    using U unfolding unobstructed_def by (metis tolerated.simps(6))
  then show ?thesis
    by (auto simp: deferred_def on_conds_def set_cond_def set_status_def the_inst_def invoke_def prog_defs
        split: option.split)
qed

lemma Reconcile_deletes:
  assumes U: "unobstructed (cl E)" and R: "util_laws (ut E)" and s: "trace s = []"
    and i: "aInstance (cl E) [GetNeutronAPI name ns] = Inr i" "DeletionTimestamp i \<noteq> None"
  shows "\<exists>t. Reconcile E name ns s = (Return (NoResult, None), t) \<and> leaving (inst t) \<and>
    (leaving i \<longrightarrow> HelperFinalizer (ut E) \<notin> set (Finalizers (inst t)))"
proof -
  have h: "aErr (cl E) [GetNeutronAPI name ns, NewHelper] = None"
    using U unfolding unobstructed_def by (metis append_Cons append_Nil tolerated.simps(5))
  let ?new = "StatusConditions (Status i) = None"
  obtain u where u: "entered name ns i u"
    and run: "Reconcile E name ns s = with_deferred E (conds (Status i)) (reconcile_body E ?new) u"
    by (rule Reconcile_entered [OF i(1) h s])
  obtain v where v: "reconcile_body E ?new u = (Return (NoResult, None), v)" "leaving (inst v)"
      "\<not> ?new \<Longrightarrow> HelperFinalizer (ut E) \<notin> set (Finalizers (inst v))"
    using body_deletes [OF U R, of u ?new] u i(2) by (auto simp: entered_def)
  obtain t st where t: "deferred E (conds (Status i)) (NoResult, None) v = (Return (NoResult, None), t)"
      "inst t = (inst v)\<lparr>Status := st\<rparr>" "StatusConditions st \<noteq> None"
    using deferred_passes [OF U] by blast
  have "Reconcile E name ns s = (Return (NoResult, None), t)"
    unfolding run by (simp add: with_deferred_def andthen_def fcall_def v(1) t(1))
  with v t show ?thesis by (auto simp: leaving_def)
qed

text \<open>
  C11. Deletion ends: when nothing obstructs it, a reconcile of a resource being deleted returns
  without error or requeue, and the resource that the second such reconcile writes back no longer
  holds the operator's finalizer (the first one already, unless the resource was never reconciled
  before).
\<close>

theorem deletion_ends:
  assumes U: "unobstructed (cl E)" "unobstructed (cl E')" and R: "util_laws (ut E)" and same: "ut E' = ut E"
    and s: "trace s = []" "trace s' = []"
    and i: "aInstance (cl E) [GetNeutronAPI name ns] = Inr i" "DeletionTimestamp i \<noteq> None"
    and again: "aInstance (cl E') [GetNeutronAPI name ns] = Inr (inst (snd (Reconcile E name ns s)))"
  shows "fst (Reconcile E name ns s) = Return (NoResult, None) \<and>
    fst (Reconcile E' name ns s') = Return (NoResult, None) \<and>
    HelperFinalizer (ut E) \<notin> set (Finalizers (inst (snd (Reconcile E' name ns s')))) \<and>
    (StatusConditions (Status i) \<noteq> None \<longrightarrow>
       HelperFinalizer (ut E) \<notin> set (Finalizers (inst (snd (Reconcile E name ns s)))))"
proof -
  obtain t where t: "Reconcile E name ns s = (Return (NoResult, None), t)" "leaving (inst t)"
      "leaving i \<Longrightarrow> HelperFinalizer (ut E) \<notin> set (Finalizers (inst t))"
    using Reconcile_deletes [OF U(1) R s(1) i] by blast
  with Reconcile_deletes [OF U(2) _ s(2) again] R same i(2) show ?thesis
    by (auto simp: leaving_def)
qed

lemma plain_unobstructed: "unobstructed (plain_cluster\<lparr>aInstance := f\<rparr>)"
  by (auto simp: unobstructed_def plain_cluster_def)

definition leaving_api :: NeutronAPI where
  "leaving_api = blank_api\<lparr>DeletionTimestamp := Some 0, Finalizers := [''openstack.org/neutronapi'']\<rparr>"

definition serving :: "NeutronAPI \<Rightarrow> ext" where
  "serving i = plain_ext (plain_cluster\<lparr>aInstance := \<lambda>_. Inr i\<rparr>)"

theorem deletion_ends_witness:
  "\<exists>i. i = inst (snd (Reconcile (serving leaving_api) ''neutron'' ''openstack'' fresh_state)) \<and>
     ''openstack.org/neutronapi'' \<notin>
       set (Finalizers (inst (snd (Reconcile (serving i) ''neutron'' ''openstack'' fresh_state))))"
proof -
  let ?i = "inst (snd (Reconcile (serving leaving_api) ''neutron'' ''openstack'' fresh_state))"
  have "HelperFinalizer (ut (serving leaving_api)) \<notin>
      set (Finalizers (inst (snd (Reconcile (serving ?i) ''neutron'' ''openstack'' fresh_state))))"
    using deletion_ends [of "serving leaving_api" "serving ?i" fresh_state fresh_state "''neutron''" "''openstack''" leaving_api]
    by (simp add: serving_def plain_unobstructed plain_util_laws fresh_fields leaving_api_def)
  then show ?thesis by (simp add: serving_def plain_util_def)
qed

end
