(* ===== verification/Flags.thy ===== *)
theory Flags
  imports GoRuntime
begin

text \<open>
  The command line of the manager: what \<^verbatim>\<open>cmd/main.go\<close> uses of the \<^verbatim>\<open>flag\<close>, \<^verbatim>\<open>strconv\<close> and
  \<^verbatim>\<open>path/filepath\<close> packages of the language's library, and the flags the manager defines.
\<close>

section \<open>Integers and Booleans of a flag\<close>

text \<open>
  \<^verbatim>\<open>strconv.ParseInt(s, 0, 64)\<close>: the base is given by a prefix, and underscores may separate
  digits. \<open>None\<close> stands for the non-nil error.
\<close>

definition lower :: "char \<Rightarrow> char" where
  "lower c = (if 65 \<le> (of_char c :: nat) \<and> (of_char c :: nat) \<le> 90 then char_of (of_char c + 32 :: nat) else c)"

definition letter_value :: "char \<Rightarrow> nat option" where
  "letter_value c =
     (if is_digit c then Some (of_char c - 48)
      else if 97 \<le> (of_char (lower c) :: nat) \<and> (of_char (lower c) :: nat) \<le> 122
      then Some (of_char (lower c) - 97 + 10) else None)"

fun read_digits :: "nat \<Rightarrow> nat \<Rightarrow> string \<Rightarrow> nat option" where
  "read_digits base n [] = Some n"
| "read_digits base n (c # cs) =
     (if c = CHR ''_'' then read_digits base n cs
      else (case letter_value c of
              None \<Rightarrow> None
            | Some d \<Rightarrow> if base \<le> d then None else read_digits base (n * base + d) cs))"

text \<open>Base and digits of an unsigned literal.\<close>

definition base_of :: "string \<Rightarrow> nat \<times> string" where
  "base_of s =
     (case s of
        z # r \<Rightarrow>
          if z \<noteq> CHR ''0'' then (10, s)
          else if 3 \<le> length s \<and> lower (hd r) = CHR ''b'' then (2, tl r)
          else if 3 \<le> length s \<and> lower (hd r) = CHR ''o'' then (8, tl r)
          else if 3 \<le> length s \<and> lower (hd r) = CHR ''x'' then (16, tl r)
          else (8, r)
      | [] \<Rightarrow> (10, s))"

datatype saw = Begin | Digit | Underscore | Other

fun underscore_scan :: "bool \<Rightarrow> saw \<Rightarrow> string \<Rightarrow> bool" where
  "underscore_scan hex i [] = (i \<noteq> Underscore)"
| "underscore_scan hex i (c # cs) =
     (if is_digit c \<or> (hex \<and> 97 \<le> (of_char (lower c) :: nat) \<and> (of_char (lower c) :: nat) \<le> 102)
      then underscore_scan hex Digit cs
      else if c = CHR ''_'' then i = Digit \<and> underscore_scan hex Underscore cs
      else i \<noteq> Underscore \<and> underscore_scan hex Other cs)"

definition underscoreOK :: "string \<Rightarrow> bool" where
  "underscoreOK s =
     (if 2 \<le> length s \<and> s ! 0 = CHR ''0'' \<and> lower (s ! 1) \<in> set ''box''
      then underscore_scan (lower (s ! 1) = CHR ''x'') Digit (drop 2 s)
      else underscore_scan False Begin s)"

definition parse_uint :: "string \<Rightarrow> nat option" where
  "parse_uint s =
     (if s = [] then None
      else (case read_digits (fst (base_of s)) 0 (snd (base_of s)) of
              None \<Rightarrow> None
            | Some n \<Rightarrow> if CHR ''_'' \<in> set (snd (base_of s)) \<and> \<not> underscoreOK s then None else Some n))"

definition ParseInt0 :: "string \<Rightarrow> int option" where
  "ParseInt0 s = (case s of
      [] \<Rightarrow> None
    | c # cs \<Rightarrow>
       (if c = CHR ''-'' then
          (case parse_uint cs of None \<Rightarrow> None
           | Some n \<Rightarrow> if n \<le> 2 ^ 63 then Some (- int n) else None)
        else
          (case parse_uint (if c = CHR ''+'' then cs else s) of None \<Rightarrow> None
           | Some n \<Rightarrow> if n < 2 ^ 63 then Some (int n) else None)))"

text \<open>\<^verbatim>\<open>strconv.ParseBool\<close>\<close>

definition ParseBool :: "string \<Rightarrow> bool option" where
  "ParseBool s =
     (if s \<in> set [''1'', ''t'', ''T'', ''true'', ''TRUE'', ''True''] then Some True
      else if s \<in> set [''0'', ''f'', ''F'', ''false'', ''FALSE'', ''False''] then Some False
      else None)"

section \<open>Flag sets\<close>

text \<open>
  A defined flag: a variable of a type, or a value of another package (whether it is Boolean,
  and the texts it accepts).
\<close>

datatype 'f flagdef =
    BoolVar "bool \<Rightarrow> 'f \<Rightarrow> 'f"
  | StringVar "string \<Rightarrow> 'f \<Rightarrow> 'f"
  | IntVar "int \<Rightarrow> 'f \<Rightarrow> 'f"
  | OtherVar bool "string \<Rightarrow> bool"

fun IsBoolFlag :: "'f flagdef \<Rightarrow> bool" where
  "IsBoolFlag (BoolVar _) = True"
| "IsBoolFlag (OtherVar b _) = b"
| "IsBoolFlag _ = False"

fun set_flag :: "'f flagdef \<Rightarrow> string \<Rightarrow> 'f \<Rightarrow> 'f option" where
  "set_flag (BoolVar g) v f = map_option (\<lambda>b. g b f) (ParseBool v)"
| "set_flag (StringVar g) v f = Some (g v f)"
| "set_flag (IntVar g) v f = map_option (\<lambda>n. g n f) (ParseInt0 v)"
| "set_flag (OtherVar _ accepts) v f = (if accepts v then Some f else None)"

datatype flag_error = ErrHelp | BadSyntax | NotDefined | NeedsArgument | InvalidValue

datatype 'f parsed = Seen "string list" 'f | Stop | Fail flag_error

definition assign :: "'f flagdef \<Rightarrow> string \<Rightarrow> string list \<Rightarrow> 'f \<Rightarrow> 'f parsed" where
  "assign flag value args f =
     (case set_flag flag value f of None \<Rightarrow> Fail InvalidValue | Some g \<Rightarrow> Seen args g)"

text \<open>\<^verbatim>\<open>FlagSet.parseOne\<close>\<close>

definition parseOne :: "(string \<times> 'f flagdef) list \<Rightarrow> string list \<Rightarrow> 'f \<Rightarrow> 'f parsed" where
  "parseOne formal args f =
     (case args of
        [] \<Rightarrow> Stop
      | s # rest \<Rightarrow>
          if length s < 2 \<or> s ! 0 \<noteq> CHR ''-'' then Stop
          else if s = ''--'' then Stop
          else let name = drop (if s ! 1 = CHR ''-'' then 2 else 1) s in
          if name = [] \<or> hd name = CHR ''-'' \<or> hd name = CHR ''='' then Fail BadSyntax
          else let (key, value) =
            (case SplitN2 (CHR ''='') name of k # v # _ \<Rightarrow> (k, Some v) | _ \<Rightarrow> (name, None)) in
          case map_of formal key of
            None \<Rightarrow> if key = ''help'' \<or> key = ''h'' then Fail ErrHelp else Fail NotDefined
          | Some flag \<Rightarrow>
              if IsBoolFlag flag then assign flag (case value of None \<Rightarrow> ''true'' | Some v \<Rightarrow> v) rest f
              else (case value of
                  Some v \<Rightarrow> assign flag v rest f
                | None \<Rightarrow> (case rest of [] \<Rightarrow> Fail NeedsArgument | v # rest' \<Rightarrow> assign flag v rest' f)))"

lemma parseOne_consumes: "parseOne formal args f = Seen args' g \<Longrightarrow> length args' < length args"
  by (auto simp: parseOne_def assign_def Let_def split: list.splits if_splits option.splits prod.splits)

lemma parseOne_assigns:
  assumes seen: "parseOne formal args f = Seen args' g"
  obtains d v rest where "d \<in> snd ` set formal" and "assign d v rest f = Seen args' g"
proof (rule ccontr)
  assume "\<not> thesis"
  with that have "assign d v rest f \<noteq> Seen args' g" if "map_of formal k = Some d" for k d v rest
    using map_of_SomeD [OF that] by force
  with seen show False
    by (auto simp: parseOne_def Let_def split: list.splits if_splits option.splits prod.splits)
qed

text \<open>\<^verbatim>\<open>FlagSet.Parse\<close>\<close>

function Parse :: "(string \<times> 'f flagdef) list \<Rightarrow> string list \<Rightarrow> 'f \<Rightarrow> flag_error + 'f" where
  "Parse formal args f =
     (case parseOne formal args f of
        Seen args' g \<Rightarrow> Parse formal args' g
      | Stop \<Rightarrow> Inr f
      | Fail e \<Rightarrow> Inl e)"
  by pat_completeness auto
termination
  by (relation "measure (\<lambda>(formal, args, f). length args)") (auto dest: parseOne_consumes)

declare Parse.simps [simp del]

section \<open>Reading a setting back\<close>

definition setting :: "string \<Rightarrow> string \<Rightarrow> string" where
  "setting name value = ''--'' @ name @ ''='' @ value"

lemma Parse_setting:
  assumes name: "name \<noteq> []" "hd name \<noteq> CHR ''-''" "CHR ''='' \<notin> set name"
    and flag: "map_of formal name = Some flag" and v: "set_flag flag v f = Some g"
  shows "Parse formal (setting name v # rest) f = Parse formal rest g"
proof -
  obtain c cs where cs: "name = c # cs" using name(1) by (cases name) auto
  have "SplitN2 (CHR ''='') (name @ CHR ''='' # v) = [name, v]"
    by (rule SplitN2_sep [OF name(3)])
  with cs name flag v have "parseOne formal (setting name v # rest) f = Seen rest g"
    by (auto simp: parseOne_def setting_def assign_def)
  then show ?thesis by (simp add: Parse.simps [of formal "setting name v # rest"])
qed

lemma Parse_end: "Parse formal [] f = Inr f"
  by (simp add: Parse.simps [of formal "[]"] parseOne_def)

lemma read_digits_decimal:
  "list_all is_digit ds \<Longrightarrow>
   read_digits 10 n ds = Some (foldl (\<lambda>a c. 10 * a + (of_char c - 48)) n ds)"
proof (induction ds arbitrary: n)
  case (Cons c cs)
  then have "of_char c - 48 < (10 :: nat)" and "c \<noteq> CHR ''_''" by (auto simp: is_digit_def)
  with Cons show ?case by (simp add: letter_value_def mult.commute)
qed simp

lemma nat_str_head: "0 < n \<Longrightarrow> hd (nat_str n) \<noteq> CHR ''0''"
proof (induction n rule: nat_str.induct)
  case (1 n)
  show ?case
  proof (cases "n < 10")
    case True
    then have "of_char (digit n) \<noteq> (of_char (CHR ''0'') :: nat)"
      using "1.prems" by (simp add: of_char_digit)
    with True show ?thesis by (auto simp: nat_str.simps [of n])
  next
    case False
    with "1" show ?thesis by (simp add: nat_str.simps [of n] nat_str_nonempty)
  qed
qed

lemma parse_uint_nat_str: "parse_uint (nat_str n) = Some n"
proof (cases "n = 0")
  case True
  have "of_char (digit 0) = (of_char (CHR ''0'') :: nat)" by (simp add: of_char_digit)
  then have "digit 0 = CHR ''0''" by (simp only: of_char_eq_iff)
  with True show ?thesis
    by (simp add: nat_str.simps [of 0] parse_uint_def base_of_def)
next
  case False
  then have "base_of (nat_str n) = (10, nat_str n)"
    using nat_str_head [of n] nat_str_nonempty [of n]
    by (cases "nat_str n") (auto simp: base_of_def)
  moreover have "CHR ''_'' \<notin> set (nat_str n)"
    using nat_str_digits [of n] by (auto simp: list_all_iff is_digit_def)
  ultimately show ?thesis
    using nat_str_value [of n] nat_str_nonempty [of n]
    by (simp add: parse_uint_def read_digits_decimal [OF nat_str_digits] digits_value_def)
qed

lemma ParseInt0_fmt_d:
  assumes "- (2 ^ 63) \<le> i" and "i < 2 ^ 63"
  shows "ParseInt0 (fmt_d i) = Some i"
proof (cases "i < 0")
  case True
  with assms(1) have "nat (- i) \<le> 2 ^ 63" by simp
  with True show ?thesis by (simp add: fmt_d_def ParseInt0_def parse_uint_nat_str)
next
  case False
  then obtain c cs where cs: "nat_str (nat i) = c # cs"
    using nat_str_nonempty [of "nat i"] by (cases "nat_str (nat i)") auto
  with nat_str_digits [of "nat i"] have sign: "c \<noteq> CHR ''-'' \<and> c \<noteq> CHR ''+''"
    by (intro is_digit_not_sign) simp
  from False assms(2) have "nat i < 2 ^ 63" by simp
  with False sign parse_uint_nat_str [of "nat i"] cs show ?thesis
    by (simp add: fmt_d_def ParseInt0_def)
qed

lemma ParseInt0_range: "ParseInt0 s = Some i \<Longrightarrow> - (2 ^ 63) \<le> i \<and> i < 2 ^ 63"
  by (auto simp: ParseInt0_def split: list.splits if_splits option.splits)

definition fmt_t :: "bool \<Rightarrow> string" where
  "fmt_t b = (if b then ''true'' else ''false'')"

lemma ParseBool_fmt_t: "ParseBool (fmt_t b) = Some b"
  by (simp add: ParseBool_def fmt_t_def)

section \<open>File paths\<close>

text \<open>\<^verbatim>\<open>filepath.Clean\<close> and \<^verbatim>\<open>filepath.Join\<close>: lexical processing of the path elements.\<close>

definition clean_step :: "bool \<Rightarrow> string list \<Rightarrow> string \<Rightarrow> string list" where
  "clean_step rooted stack c =
     (if c = [] \<or> c = ''.'' then stack
      else if c = ''..'' then
        (case stack of
           [] \<Rightarrow> if rooted then [] else [''..'']
         | d # ds \<Rightarrow> if d = ''..'' then ''..'' # stack else ds)
      else c # stack)"

definition filepath_Clean :: "string \<Rightarrow> string" where
  "filepath_Clean p =
     (let rooted = (p \<noteq> [] \<and> hd p = CHR ''/'');
          elems = rev (foldl (clean_step rooted) [] (Split (CHR ''/'') p))
      in if rooted then CHR ''/'' # Join elems ''/''
         else if elems = [] then ''.'' else Join elems ''/'')"

definition filepath_Join :: "string \<Rightarrow> string \<Rightarrow> string" where
  "filepath_Join a b =
     (if a \<noteq> [] then filepath_Clean (a @ ''/'' @ b)
      else if b \<noteq> [] then filepath_Clean b else [])"

end
