(* ===== verification/Watches.thy ===== *)
theory Watches
  imports ApiWebhook
begin

text \<open>
  Which resources a changed object wakes: the field indexes that \<^verbatim>\<open>SetupWithManager\<close>
  registers and the map functions of the watches, from
  \<^verbatim>\<open>internal/controller/neutronapi_controller.go\<close>. The cluster's List calls are parameters.
\<close>

section \<open>Indexed fields\<close>

definition passwordSecretField :: string where "passwordSecretField = ''.spec.secret''"
definition caBundleSecretNameField :: string where
  "caBundleSecretNameField = ''.spec.tls.caBundleSecretName''"
definition tlsAPIInternalField :: string where
  "tlsAPIInternalField = ''.spec.tls.api.internal.secretName''"
definition tlsAPIPublicField :: string where
  "tlsAPIPublicField = ''.spec.tls.api.public.secretName''"
definition tlsOVNField :: string where "tlsOVNField = ''.spec.tls.ovn.secretName''"
definition topologyField :: string where "topologyField = ''.spec.topologyRef.Name''"
definition authAppCredSecretField :: string where
  "authAppCredSecretField = ''.spec.auth.applicationCredentialSecret''"

definition allWatchFields :: "string list" where
  "allWatchFields = [passwordSecretField, caBundleSecretNameField, tlsAPIInternalField,
     tlsAPIPublicField, tlsOVNField, topologyField, authAppCredSecretField]"

definition index_string :: "string \<Rightarrow> string list" where
  "index_string v = (if v = [] then [] else [v])"

definition index_pointer :: "string option \<Rightarrow> string list" where
  "index_pointer v = (case v of None \<Rightarrow> [] | Some x \<Rightarrow> [x])"

text \<open>The indexers, by the field they are registered for.\<close>

definition indexers :: "(string \<times> (NeutronAPI \<Rightarrow> string list)) list" where
  "indexers =
     [(passwordSecretField, \<lambda>cr. index_string (Secret (Spec cr))),
      (caBundleSecretNameField, \<lambda>cr. index_string (CaBundleSecretName (TLS (Spec cr)))),
      (tlsAPIInternalField, \<lambda>cr. index_pointer (SecretName (Internal (TLS_API (TLS (Spec cr)))))),
      (tlsAPIPublicField, \<lambda>cr. index_pointer (SecretName (Public (TLS_API (TLS (Spec cr)))))),
      (tlsOVNField, \<lambda>cr. index_pointer (SecretName (Ovn (TLS (Spec cr))))),
      (topologyField, \<lambda>cr. index_pointer (map_option TopoName (TopologyRef (Spec cr)))),
      (authAppCredSecretField, \<lambda>cr. index_string (AuthApplicationCredentialSecret (Spec cr)))]"

section \<open>Map functions\<close>

type_synonym request = "string \<times> string" \<comment> \<open>name and namespace\<close>

definition request_of :: "NeutronAPI \<Rightarrow> request" where
  "request_of item = (Name item, Namespace item)"

text \<open>
  \<open>listByField field name namespace\<close> is the List call with a field selector. The first
  error ends the loop with the requests collected so far.
\<close>

fun find_loop ::
  "(string \<Rightarrow> string \<Rightarrow> string \<Rightarrow> goerror + NeutronAPI list) \<Rightarrow> string \<Rightarrow> string
     \<Rightarrow> string list \<Rightarrow> request list \<Rightarrow> request list" where
  "find_loop listByField name namespace [] requests = requests"
| "find_loop listByField name namespace (field # rest) requests =
     (case listByField field name namespace of
        Inl e \<Rightarrow> requests
      | Inr items \<Rightarrow>
          find_loop listByField name namespace rest (requests @ map request_of items))"

definition findObjectsForSrc ::
  "(string \<Rightarrow> string \<Rightarrow> string \<Rightarrow> goerror + NeutronAPI list) \<Rightarrow> string \<Rightarrow> string \<Rightarrow> request list" where
  "findObjectsForSrc listByField name namespace =
     find_loop listByField name namespace allWatchFields []"

definition findObjectForSrc ::
  "(string \<Rightarrow> goerror + NeutronAPI list) \<Rightarrow> string \<Rightarrow> request list" where
  "findObjectForSrc listAll namespace =
     (case listAll namespace of Inl e \<Rightarrow> [] | Inr items \<Rightarrow> map request_of items)"

definition memcachedNamespaceMapFunc ::
  "(string \<Rightarrow> goerror + NeutronAPI list) \<Rightarrow> string \<Rightarrow> string \<Rightarrow> request list" where
  "memcachedNamespaceMapFunc listAll name namespace =
     (case listAll namespace of
        Inl e \<Rightarrow> []
      | Inr items \<Rightarrow> map (\<lambda>cr. (Name cr, namespace))
                      (filter (\<lambda>cr. name = MemcachedInstance (Spec cr)) items))"

section \<open>Every user of a changed object is woken\<close>

text \<open>
  The List calls answer from the stored resources: those of the namespace, and with a field
  selector those whose index for the field holds the value.
\<close>

definition stored_by_field ::
  "NeutronAPI list \<Rightarrow> string \<Rightarrow> string \<Rightarrow> string \<Rightarrow> goerror + NeutronAPI list" where
  "stored_by_field store field name namespace =
     (case map_of indexers field of
        None \<Rightarrow> Inl (LibErr False ''no such index'')
      | Some ix \<Rightarrow> Inr (filter (\<lambda>cr. Namespace cr = namespace \<and> name \<in> set (ix cr)) store))"

text \<open>The Secrets and the Topology a resource names in its spec.\<close>

definition secret_names :: "NeutronAPI \<Rightarrow> string set" where
  "secret_names cr =
     ({Secret (Spec cr), CaBundleSecretName (TLS (Spec cr)),
       AuthApplicationCredentialSecret (Spec cr)} - {[]}) \<union>
     {x. SecretName (Internal (TLS_API (TLS (Spec cr)))) = Some x \<or>
         SecretName (Public (TLS_API (TLS (Spec cr)))) = Some x \<or>
         SecretName (Ovn (TLS (Spec cr))) = Some x}"

definition topology_names :: "NeutronAPI \<Rightarrow> string set" where
  "topology_names cr = TopoName ` set_option (TopologyRef (Spec cr))"

text \<open>A List call that fails for the fields of \<open>F\<close>.\<close>

definition failing ::
  "string set \<Rightarrow> (string \<Rightarrow> string \<Rightarrow> string \<Rightarrow> goerror + NeutronAPI list)
     \<Rightarrow> string \<Rightarrow> string \<Rightarrow> string \<Rightarrow> goerror + NeutronAPI list" where
  "failing F listByField field name namespace =
     (if field \<in> F then Inl (LibErr False ''timeout'') else listByField field name namespace)"

lemma field_names_distinct: "distinct allWatchFields"
  by (simp add: allWatchFields_def passwordSecretField_def caBundleSecretNameField_def
      tlsAPIInternalField_def tlsAPIPublicField_def tlsOVNField_def topologyField_def
      authAppCredSecretField_def)

lemma indexers_keys: "map fst indexers = allWatchFields"
  by (simp add: indexers_def allWatchFields_def)

lemma index_mem [simp]:
  "x \<in> set (index_string v) \<longleftrightarrow> x = v \<and> x \<noteq> []" "x \<in> set (index_pointer p) \<longleftrightarrow> p = Some x"
  by (auto simp: index_string_def index_pointer_def split: option.splits)

lemma indexers_cover:
  "(\<exists>(f, ix) \<in> set indexers. x \<in> set (ix cr)) \<longleftrightarrow> x \<in> secret_names cr \<or> x \<in> topology_names cr"
  unfolding indexers_def secret_names_def topology_names_def
  by (cases "TopologyRef (Spec cr)") auto

lemma find_loop_failing:
  assumes "set rs \<subseteq> set rs'" and "\<forall>f \<in> set fs. \<exists>items. lb f name ns = Inr items"
  shows "set (find_loop (failing F lb) name ns fs rs) \<subseteq> set (find_loop lb name ns fs rs')"
  using assms
proof (induction fs arbitrary: rs rs')
  case (Cons f fs)
  from Cons.prems obtain items where items: "lb f name ns = Inr items" by auto
  have grows: "set ys \<subseteq> set (find_loop lb name ns gs ys)" for gs ys
  proof (induction gs arbitrary: ys)
    case (Cons g gs)
    show ?case
    proof (cases "lb g name ns")
      case (Inr items)
      with Cons.IH [of "ys @ map request_of items"] show ?thesis by simp
    qed simp
  qed simp
  show ?case
  proof (cases "f \<in> F")
    case True
    with items Cons.prems(1) grows [of "rs' @ map request_of items" fs] show ?thesis by (auto simp: failing_def)
  next
    case False
    then have "failing F lb f name ns = Inr items" by (simp add: failing_def items)
    with items Cons.prems Cons.IH [of "rs @ map request_of items" "rs' @ map request_of items"]
    show ?thesis by auto
  qed
qed simp

lemma find_loop_indexed:
  assumes "distinct (map fst ixs)" and "set ixs \<subseteq> set indexers"
  shows "set (find_loop (stored_by_field store) name ns (map fst ixs) rs) =
    set rs \<union> {request_of cr | cr. cr \<in> set store \<and> Namespace cr = ns \<and>
       (\<exists>(f, ix) \<in> set ixs. name \<in> set (ix cr))}"
  using assms
proof (induction ixs arbitrary: rs)
  case (Cons p ixs)
  obtain f ix where p: "p = (f, ix)" by fastforce
  have "map_of indexers f = Some ix"
    using Cons.prems(2) field_names_distinct indexers_keys p by (simp add: map_of_is_SomeI)
  then have "stored_by_field store f name ns =
      Inr (filter (\<lambda>cr. Namespace cr = ns \<and> name \<in> set (ix cr)) store)"
    by (simp add: stored_by_field_def)
  with Cons p show ?case by (auto simp: request_of_def)
qed simp

text \<open>
  C20. A changed Secret or Topology wakes exactly the resources of its namespace that name it in
  their spec, as one of the six Secrets or as the Topology; the two kinds share the loop over the
  indexes, so a Secret and a Topology of the same name wake each other's users too. A List call
  that fails loses requests but adds none. A changed Memcached wakes exactly the resources of
  its namespace that use it, and a changed KeystoneAPI every resource of the namespace.
\<close>

theorem watches_wake_users:
  "set (findObjectsForSrc (stored_by_field store) name ns) =
     {request_of cr | cr. cr \<in> set store \<and> Namespace cr = ns \<and>
        (name \<in> secret_names cr \<or> name \<in> topology_names cr)} \<and>
   set (findObjectsForSrc (failing F (stored_by_field store)) name ns) \<subseteq>
     set (findObjectsForSrc (stored_by_field store) name ns) \<and>
   set (memcachedNamespaceMapFunc (\<lambda>n. Inr (filter (\<lambda>cr. Namespace cr = n) store)) name ns) =
     {request_of cr | cr. cr \<in> set store \<and> Namespace cr = ns \<and> MemcachedInstance (Spec cr) = name} \<and>
   set (findObjectForSrc (\<lambda>n. Inr (filter (\<lambda>cr. Namespace cr = n) store)) ns) =
     {request_of cr | cr. cr \<in> set store \<and> Namespace cr = ns}"
proof (intro conjI)
  show "set (findObjectsForSrc (stored_by_field store) name ns) =
     {request_of cr | cr. cr \<in> set store \<and> Namespace cr = ns \<and>
        (name \<in> secret_names cr \<or> name \<in> topology_names cr)}"
    using find_loop_indexed [of indexers store name ns "[]"] field_names_distinct
    by (simp add: findObjectsForSrc_def indexers_keys indexers_cover)
  have "\<exists>ix. map_of indexers f = Some ix" if "f \<in> set allWatchFields" for f
    using that unfolding indexers_keys [symmetric] by (metis map_of_eq_None_iff not_Some_eq set_map)
  then show "set (findObjectsForSrc (failing F (stored_by_field store)) name ns) \<subseteq>
     set (findObjectsForSrc (stored_by_field store) name ns)"
    unfolding findObjectsForSrc_def
    by (intro find_loop_failing) (auto simp: stored_by_field_def split: option.split)
qed (auto simp: memcachedNamespaceMapFunc_def findObjectForSrc_def request_of_def)

end
