(* ===== verification/Startup.thy ===== *)
theory Startup
  imports Flags Watches "HOL-Library.Word"
begin

text \<open>
  The manager's start-up: \<^verbatim>\<open>cmd/main.go\<close> with \<^verbatim>\<open>SetupWithManager\<close> of the controller. The calls
  into controller-runtime and client-go are recorded in order; the parameter \<open>env\<close> answers them
  by the calls made so far. The TLS options are Go slices over a store of backing arrays, because
  two servers get slices that start out as the same one and are both appended to.
\<close>

section \<open>Command line\<close>

record flags =
  metricsAddr :: string
  probeAddr :: string
  enableLeaderElection :: bool
  secureMetrics :: bool
  webhookCertPath :: string
  webhookCertName :: string
  webhookCertKey :: string
  metricsCertPath :: string
  metricsCertName :: string
  metricsCertKey :: string
  pprofBindAddress :: string
  webhookPort :: int
  enableHTTP2 :: bool

definition default_flags :: flags where
  "default_flags =
     \<lparr>metricsAddr = ''0'', probeAddr = '':8081'', enableLeaderElection = False, secureMetrics = True,
      webhookCertPath = '''', webhookCertName = ''tls.crt'', webhookCertKey = ''tls.key'',
      metricsCertPath = '''', metricsCertName = ''tls.crt'', metricsCertKey = ''tls.key'',
      pprofBindAddress = '''', webhookPort = 9443, enableHTTP2 = False\<rparr>"

text \<open>The flags of this program, before those that other packages registered.\<close>

definition manager_flags :: "(string \<times> flags flagdef) list" where
  "manager_flags =
     [(''metrics-bind-address'', StringVar (\<lambda>v f. f\<lparr>metricsAddr := v\<rparr>)),
      (''health-probe-bind-address'', StringVar (\<lambda>v f. f\<lparr>probeAddr := v\<rparr>)),
      (''leader-elect'', BoolVar (\<lambda>v f. f\<lparr>enableLeaderElection := v\<rparr>)),
      (''metrics-secure'', BoolVar (\<lambda>v f. f\<lparr>secureMetrics := v\<rparr>)),
      (''webhook-cert-path'', StringVar (\<lambda>v f. f\<lparr>webhookCertPath := v\<rparr>)),
      (''webhook-cert-name'', StringVar (\<lambda>v f. f\<lparr>webhookCertName := v\<rparr>)),
      (''webhook-cert-key'', StringVar (\<lambda>v f. f\<lparr>webhookCertKey := v\<rparr>)),
      (''metrics-cert-path'', StringVar (\<lambda>v f. f\<lparr>metricsCertPath := v\<rparr>)),
      (''metrics-cert-name'', StringVar (\<lambda>v f. f\<lparr>metricsCertName := v\<rparr>)),
      (''metrics-cert-key'', StringVar (\<lambda>v f. f\<lparr>metricsCertKey := v\<rparr>)),
      (''pprof-bind-address'', StringVar (\<lambda>v f. f\<lparr>pprofBindAddress := v\<rparr>)),
      (''webhook-bind-address'', IntVar (\<lambda>v f. f\<lparr>webhookPort := v\<rparr>)),
      (''enable-http2'', BoolVar (\<lambda>v f. f\<lparr>enableHTTP2 := v\<rparr>))]"

text \<open>\<open>others\<close> are the flags of the logging and client packages, with the values they accept.\<close>

definition parse_flags ::
  "(string \<times> bool \<times> (string \<Rightarrow> bool)) list \<Rightarrow> string list \<Rightarrow> flag_error + flags" where
  "parse_flags others args =
     Parse (manager_flags @ map (\<lambda>(name, isBool, accepts). (name, OtherVar isBool accepts)) others)
       args default_flags"

section \<open>Slices\<close>

record slice =
  SArray :: nat \<comment> \<open>the backing array\<close>
  SLen :: nat
  SCap :: nat

definition nil_slice :: slice where
  "nil_slice = \<lparr>SArray = 0, SLen = 0, SCap = 0\<rparr>"

text \<open>
  \<^verbatim>\<open>append(sl, x)\<close>: in place while there is room, else into a new array with room for
  \<open>grow cap needed\<close> elements, which the language only requires to be enough.
\<close>

definition append_slice ::
  "(nat \<Rightarrow> nat \<Rightarrow> nat) \<Rightarrow> 'a option list list \<Rightarrow> slice \<Rightarrow> 'a \<Rightarrow> 'a option list list \<times> slice" where
  "append_slice grow store sl x =
     (if SLen sl < SCap sl
      then (store[SArray sl := (store ! SArray sl)[SLen sl := Some x]], sl\<lparr>SLen := SLen sl + 1\<rparr>)
      else let cap = grow (SCap sl) (SLen sl + 1) in
        (store @ [take (SLen sl) (store ! SArray sl) @ Some x # replicate (cap - SLen sl - 1) None],
         \<lparr>SArray = length store, SLen = SLen sl + 1, SCap = cap\<rparr>))"

definition contents :: "'a option list list \<Rightarrow> slice \<Rightarrow> 'a list" where
  "contents store sl = map the (take (SLen sl) (store ! SArray sl))"

section \<open>Servers\<close>

datatype CertWatcher = CertWatcher string string \<comment> \<open>certificate and key file\<close>

record tls_config =
  MinVersion :: "16 word"
  NextProtos :: "string list"
  GetCertificate :: "CertWatcher option"

type_synonym tlsopt = "tls_config \<Rightarrow> tls_config"

definition VersionTLS13 :: "16 word" where "VersionTLS13 = 0x0304"

definition require_TLS13 :: tlsopt where
  "require_TLS13 c = c\<lparr>MinVersion := VersionTLS13\<rparr>"

definition disableHTTP2 :: tlsopt where
  "disableHTTP2 c = c\<lparr>NextProtos := [''http/1.1'']\<rparr>"

definition use_watcher :: "CertWatcher \<Rightarrow> tlsopt" where
  "use_watcher w c = c\<lparr>GetCertificate := Some w\<rparr>"

record metrics_options =
  BindAddress :: string
  SecureServing :: bool
  MetricsTLSOpts :: slice
  FilterProvider :: bool \<comment> \<open>\<^verbatim>\<open>WithAuthenticationAndAuthorization\<close> is set\<close>

record manager_options =
  Metrics :: metrics_options
  HealthProbeBindAddress :: string
  PprofBindAddress :: string
  LeaderElection :: bool
  LeaderElectionID :: string

section \<open>Calls\<close>

datatype checker = Ping | WebhookStarted

datatype map_func = OVNCRNamespaceMapFunc | MemcachedNamespaceMapFunc | FindObjectsForSrc | FindObjectForSrc

datatype predicate = ResourceVersionChanged | GenerationChanged | KeystoneAPIStatusChanged

record controller =
  For :: string
  Owns :: "string list"
  WatchesOf :: "(string \<times> map_func \<times> predicate option) list"

datatype step =
    AddToScheme string
  | NewCertWatcher CertWatcher
  | NewWebhookServer int slice
  | SetManagerOptions manager_options
  | GetConfigOrDie
  | NewManager manager_options
  | GetConfig
  | NewForConfig
  | IndexField string
  | CompleteController controller
  | InitDefaults
  | CompleteWebhook
  | AddRunnable CertWatcher
  | AddHealthzCheck string checker
  | AddReadyzCheck string checker
  | StartManager

text \<open>
  What is outside the program: the error of a call (by the calls so far, itself last), what
  \<^verbatim>\<open>SetManagerOptions\<close> makes of the options, the environment, the flags of other packages and the
  runtime's growth of slices.
\<close>

record env =
  eErr :: "step list \<Rightarrow> goerror option"
  eManagerOptions :: "manager_options \<Rightarrow> manager_options"
  eGetenv :: "string \<Rightarrow> string"
  eGetEnvVar :: "string \<Rightarrow> string \<Rightarrow> string"
  eFlags :: "(string \<times> bool \<times> (string \<Rightarrow> bool)) list"
  eGrow :: "nat \<Rightarrow> nat \<Rightarrow> nat"

record mstate =
  mStore :: "tlsopt option list list"
  mSteps :: "step list"
  mDefaults :: "NeutronAPIDefaults option" \<comment> \<open>the package variable \<^verbatim>\<open>neutronAPIDefaults\<close>, once set\<close>

definition boot_state :: mstate where
  "boot_state = \<lparr>mStore = [], mSteps = [], mDefaults = None\<rparr>"

text \<open>The result of the process is its exit status.\<close>

type_synonym 'a startup = "(mstate, nat, 'a) prog"

definition attempt :: "env \<Rightarrow> step \<Rightarrow> (mstate, 'r, goerror option) prog" where
  "attempt V c = (\<lambda>s. (Next (eErr V (mSteps s @ [c])), s\<lparr>mSteps := mSteps s @ [c]\<rparr>))"

definition note_step :: "step \<Rightarrow> unit startup" where
  "note_step c = update (\<lambda>s. s\<lparr>mSteps := mSteps s @ [c]\<rparr>)"

text \<open>\<^verbatim>\<open>if err != nil { os.Exit(1) }\<close>\<close>

definition or_exit :: "env \<Rightarrow> step \<Rightarrow> unit startup" where
  "or_exit V c = andthen (attempt V c) (\<lambda>err. case err of None \<Rightarrow> ok () | Some _ \<Rightarrow> ret 1)"

definition append_opt :: "env \<Rightarrow> slice \<Rightarrow> tlsopt \<Rightarrow> slice startup" where
  "append_opt V sl f = (\<lambda>s. let (store, sl') = append_slice (eGrow V) (mStore s) sl f
     in (Next sl', s\<lparr>mStore := store\<rparr>))"

section \<open>SetupWithManager\<close>

definition neutron_controller :: controller where
  "neutron_controller =
     \<lparr>For = ''NeutronAPI'',
      Owns = [''MariaDBDatabase'', ''MariaDBAccount'', ''Job'', ''Service'', ''Secret'', ''Deployment'',
        ''KeystoneService'', ''KeystoneEndpoint'', ''TransportURL'', ''ServiceAccount'', ''Role'',
        ''RoleBinding''],
      WatchesOf =
        [(''OVNDBCluster'', OVNCRNamespaceMapFunc, None),
         (''Memcached'', MemcachedNamespaceMapFunc, None),
         (''Secret'', FindObjectsForSrc, Some ResourceVersionChanged),
         (''Topology'', FindObjectsForSrc, Some GenerationChanged),
         (''KeystoneAPI'', FindObjectForSrc, Some KeystoneAPIStatusChanged)]\<rparr>"

definition SetupWithManager :: "env \<Rightarrow> (mstate, goerror option, goerror option) prog" where
  "SetupWithManager V =
     andthen (foreach (\<lambda>(field, extract).
       andthen (attempt V (IndexField field)) (\<lambda>err.
       case err of None \<Rightarrow> ok () | Some e \<Rightarrow> ret (Some e))) indexers) (\<lambda>_.
     andthen (attempt V (CompleteController neutron_controller)) ret)"

section \<open>main\<close>

definition scheme_groups :: "string list" where
  "scheme_groups = [''clientgoscheme'', ''keystonev1beta1'', ''mariadbv1'', ''memcachedv1'',
     ''rabbitmqv1'', ''ovnv1alpha1'', ''neutronv1beta1'', ''networkv1'', ''topologyv1'']"

definition init_scheme :: "env \<Rightarrow> unit startup" where
  "init_scheme V = foreach (\<lambda>g. andthen (attempt V (AddToScheme g)) (\<lambda>err.
     case err of None \<Rightarrow> ok () | Some _ \<Rightarrow> panic ''AddToScheme'')) scheme_groups"

definition tls_options :: "env \<Rightarrow> flags \<Rightarrow> slice startup" where
  "tls_options V f =
     andthen (append_opt V nil_slice require_TLS13) (\<lambda>tlsOpts.
     if \<not> enableHTTP2 f then append_opt V tlsOpts disableHTTP2 else ok tlsOpts)"

text \<open>A server's options with its certificate watcher, if a directory is given.\<close>

definition watch_certificate ::
  "env \<Rightarrow> string \<Rightarrow> string \<Rightarrow> string \<Rightarrow> slice \<Rightarrow> (CertWatcher option \<times> slice) startup" where
  "watch_certificate V path cert key opts =
     (if path \<noteq> [] then
        let watcher = CertWatcher (filepath_Join path cert) (filepath_Join path key) in
        andthen (or_exit V (NewCertWatcher watcher)) (\<lambda>_.
        andthen (append_opt V opts (use_watcher watcher)) (\<lambda>opts'.
        ok (Some watcher, opts')))
      else ok (None, opts))"

definition options_of :: "flags \<Rightarrow> slice \<Rightarrow> manager_options" where
  "options_of f tls =
     \<lparr>Metrics = \<lparr>BindAddress = metricsAddr f, SecureServing = secureMetrics f,
        MetricsTLSOpts = tls, FilterProvider = secureMetrics f\<rparr>,
      HealthProbeBindAddress = probeAddr f, PprofBindAddress = pprofBindAddress f,
      LeaderElection = enableLeaderElection f, LeaderElectionID = ''972c7522.openstack.org''\<rparr>"

definition create_manager :: "env \<Rightarrow> manager_options \<Rightarrow> unit startup" where
  "create_manager V options =
     andthen (or_exit V (SetManagerOptions options)) (\<lambda>_.
     andthen (or_exit V GetConfigOrDie) (\<lambda>_.
     andthen (or_exit V (NewManager (eManagerOptions V options))) (\<lambda>_.
     andthen (or_exit V GetConfig) (\<lambda>_.
     or_exit V NewForConfig))))"

definition setup_controller :: "env \<Rightarrow> unit startup" where
  "setup_controller V =
     andthen (fcall (SetupWithManager V)) (\<lambda>err.
     case err of
       Some _ \<Rightarrow> ret 1
     | None \<Rightarrow>
         andthen (note_step InitDefaults) (\<lambda>_.
         update (\<lambda>s. s\<lparr>mDefaults := Some (SetupDefaults (eGetEnvVar V))\<rparr>)))"

definition setup_webhook :: "env \<Rightarrow> checker startup" where
  "setup_webhook V =
     (if eGetenv V ''ENABLE_WEBHOOKS'' \<noteq> ''false''
      then andthen (or_exit V CompleteWebhook) (\<lambda>_. ok WebhookStarted)
      else ok Ping)"

definition add_watcher :: "env \<Rightarrow> CertWatcher option \<Rightarrow> unit startup" where
  "add_watcher V w = (case w of None \<Rightarrow> ok () | Some x \<Rightarrow> or_exit V (AddRunnable x))"

definition run_manager :: "env \<Rightarrow> flags \<Rightarrow> nat startup" where
  "run_manager V f =
     andthen (tls_options V f) (\<lambda>tlsOpts.
     andthen (watch_certificate V (webhookCertPath f) (webhookCertName f) (webhookCertKey f) tlsOpts)
       (\<lambda>(webhookCertWatcher, webhookTLSOpts).
     andthen (note_step (NewWebhookServer (webhookPort f) webhookTLSOpts)) (\<lambda>_.
     andthen (watch_certificate V (metricsCertPath f) (metricsCertName f) (metricsCertKey f) tlsOpts)
       (\<lambda>(metricsCertWatcher, metricsTLSOpts).
     andthen (create_manager V (options_of f metricsTLSOpts)) (\<lambda>_.
     andthen (setup_controller V) (\<lambda>_.
     andthen (setup_webhook V) (\<lambda>checker.
     andthen (add_watcher V metricsCertWatcher) (\<lambda>_.
     andthen (add_watcher V webhookCertWatcher) (\<lambda>_.
     andthen (or_exit V (AddHealthzCheck ''healthz'' checker)) (\<lambda>_.
     andthen (or_exit V (AddReadyzCheck ''readyz'' checker)) (\<lambda>_.
     andthen (or_exit V StartManager) (\<lambda>_.
     ret 0))))))))))))"

definition main :: "env \<Rightarrow> string list \<Rightarrow> nat startup" where
  "main V args =
     andthen (init_scheme V) (\<lambda>_.
     case parse_flags (eFlags V) args of
       Inl e \<Rightarrow> ret (if e = ErrHelp then 0 else 2)
     | Inr f \<Rightarrow> run_manager V f)"

section \<open>The command line read back\<close>

definition args_of :: "flags \<Rightarrow> string list" where
  "args_of f =
     [setting ''metrics-bind-address'' (metricsAddr f),
      setting ''health-probe-bind-address'' (probeAddr f),
      setting ''leader-elect'' (fmt_t (enableLeaderElection f)),
      setting ''metrics-secure'' (fmt_t (secureMetrics f)),
      setting ''webhook-cert-path'' (webhookCertPath f),
      setting ''webhook-cert-name'' (webhookCertName f),
      setting ''webhook-cert-key'' (webhookCertKey f),
      setting ''metrics-cert-path'' (metricsCertPath f),
      setting ''metrics-cert-name'' (metricsCertName f),
      setting ''metrics-cert-key'' (metricsCertKey f),
      setting ''pprof-bind-address'' (pprofBindAddress f),
      setting ''webhook-bind-address'' (fmt_d (webhookPort f)),
      setting ''enable-http2'' (fmt_t (enableHTTP2 f))]"

definition int64 :: "int \<Rightarrow> bool" where
  "int64 i \<longleftrightarrow> - (2 ^ 63) \<le> i \<and> i < 2 ^ 63"

lemma args_of_read: "int64 (webhookPort f) \<Longrightarrow> parse_flags others (args_of f) = Inr f"
  by (simp add: parse_flags_def args_of_def Parse_setting Parse_end manager_flags_def default_flags_def
      ParseBool_fmt_t ParseInt0_fmt_d int64_def)

definition port_kept :: "flags flagdef \<Rightarrow> bool" where
  "port_kept d \<longleftrightarrow> (\<forall>v f g. set_flag d v f = Some g \<longrightarrow> int64 (webhookPort f) \<longrightarrow> int64 (webhookPort g))"

lemma parseOne_port:
  assumes "\<forall>d \<in> snd ` set formal. port_kept d" and "int64 (webhookPort f)"
    and "parseOne formal args f = Seen args' g"
  shows "int64 (webhookPort g)"
proof -
  obtain d v args'' where "d \<in> snd ` set formal" and "assign d v args'' f = Seen args' g"
    by (rule parseOne_assigns [OF assms(3)])
  with assms(1,2) show ?thesis by (auto simp: assign_def port_kept_def split: option.splits)
qed

lemma Parse_port:
  "\<forall>d \<in> snd ` set formal. port_kept d \<Longrightarrow> int64 (webhookPort f) \<Longrightarrow> Parse formal args f = Inr g \<Longrightarrow>
   int64 (webhookPort g)"
proof (induction formal args f rule: Parse.induct)
  case (1 formal args f)
  show ?case
  proof (cases "parseOne formal args f")
    case (Seen args' h)
    then have "int64 (webhookPort h)" by (rule parseOne_port [OF "1.prems"(1,2)])
    with Seen "1.prems" show ?thesis
      by (intro "1.IH" [OF Seen]) (simp_all add: Parse.simps [of formal args])
  qed (use "1.prems" in \<open>simp_all add: Parse.simps [of formal args]\<close>)
qed

lemma flags_keep_port:
  "\<forall>d \<in> snd ` set (manager_flags @ map (\<lambda>(n, b, a). (n, OtherVar b a)) others). port_kept d"
  by (auto simp: manager_flags_def port_kept_def int64_def dest: ParseInt0_range split: if_splits)

lemma parse_flags_port: "parse_flags others args = Inr f \<Longrightarrow> int64 (webhookPort f)"
  unfolding parse_flags_def
  by (rule Parse_port [OF flags_keep_port]) (simp_all add: int64_def default_flags_def)

text \<open>
  C39. The command line: the flags written out as \<^verbatim>\<open>--name=value\<close> are read back as they are, exactly
  when the webhook port is a 64-bit integer; no command line gives a port outside that range, and
  parsing always ends.
\<close>

theorem flags_roundtrip:
  "(parse_flags others (args_of f) = Inr f \<longleftrightarrow> int64 (webhookPort f)) \<and>
   (case parse_flags others args of Inl e \<Rightarrow> True | Inr g \<Rightarrow> int64 (webhookPort g))"
  using args_of_read parse_flags_port by (auto split: sum.split)

section \<open>The order of the start-up\<close>

text \<open>The TLS options of the servers as the program builds them: the store and the slice.\<close>

definition common_opts :: "env \<Rightarrow> flags \<Rightarrow> tlsopt option list list \<times> slice" where
  "common_opts V f =
     (let (store, sl) = append_slice (eGrow V) [] nil_slice require_TLS13
      in if \<not> enableHTTP2 f then append_slice (eGrow V) store sl disableHTTP2 else (store, sl))"

definition webhook_watcher :: "flags \<Rightarrow> CertWatcher" where
  "webhook_watcher f = CertWatcher (filepath_Join (webhookCertPath f) (webhookCertName f))
     (filepath_Join (webhookCertPath f) (webhookCertKey f))"

definition metrics_watcher :: "flags \<Rightarrow> CertWatcher" where
  "metrics_watcher f = CertWatcher (filepath_Join (metricsCertPath f) (metricsCertName f))
     (filepath_Join (metricsCertPath f) (metricsCertKey f))"

definition with_watcher ::
  "env \<Rightarrow> string \<Rightarrow> CertWatcher \<Rightarrow> tlsopt option list list \<Rightarrow> slice \<Rightarrow> tlsopt option list list \<times> slice" where
  "with_watcher V path w store sl =
     (if path \<noteq> [] then append_slice (eGrow V) store sl (use_watcher w) else (store, sl))"

definition webhook_opts :: "env \<Rightarrow> flags \<Rightarrow> tlsopt option list list \<times> slice" where
  "webhook_opts V f = with_watcher V (webhookCertPath f) (webhook_watcher f)
     (fst (common_opts V f)) (snd (common_opts V f))"

definition metrics_opts :: "env \<Rightarrow> flags \<Rightarrow> tlsopt option list list \<times> slice" where
  "metrics_opts V f = with_watcher V (metricsCertPath f) (metrics_watcher f)
     (fst (webhook_opts V f)) (snd (common_opts V f))"

definition given :: "string \<Rightarrow> step list \<Rightarrow> step list" where
  "given path cs = (if path \<noteq> [] then cs else [])"

definition checker_of :: "env \<Rightarrow> checker" where
  "checker_of V = (if eGetenv V ''ENABLE_WEBHOOKS'' \<noteq> ''false'' then WebhookStarted else Ping)"

text \<open>What a start with the flags \<open>f\<close> does if nothing fails.\<close>

definition plan :: "env \<Rightarrow> flags \<Rightarrow> step list" where
  "plan V f =
     given (webhookCertPath f) [NewCertWatcher (webhook_watcher f)] @
     [NewWebhookServer (webhookPort f) (snd (webhook_opts V f))] @
     given (metricsCertPath f) [NewCertWatcher (metrics_watcher f)] @
     (let options = options_of f (snd (metrics_opts V f)) in
      [SetManagerOptions options, GetConfigOrDie, NewManager (eManagerOptions V options), GetConfig,
       NewForConfig]) @
     map IndexField allWatchFields @ [CompleteController neutron_controller] @
     [InitDefaults] @
     (if eGetenv V ''ENABLE_WEBHOOKS'' \<noteq> ''false'' then [CompleteWebhook] else []) @
     given (metricsCertPath f) [AddRunnable (metrics_watcher f)] @
     given (webhookCertPath f) [AddRunnable (webhook_watcher f)] @
     [AddHealthzCheck ''healthz'' (checker_of V)] @
     [AddReadyzCheck ''readyz'' (checker_of V)] @
     [StartManager]"

fun can_fail :: "step \<Rightarrow> bool" where
  "can_fail (NewWebhookServer _ _) = False"
| "can_fail InitDefaults = False"
| "can_fail _ = True"

text \<open>Doing steps in order up to the first that fails: whether one failed, and the steps done.\<close>

fun execute :: "env \<Rightarrow> step list \<Rightarrow> step list \<Rightarrow> bool \<times> step list" where
  "execute V [] done_so_far = (False, done_so_far)"
| "execute V (c # cs) done_so_far =
     (if can_fail c \<and> eErr V (done_so_far @ [c]) \<noteq> None then (True, done_so_far @ [c])
      else execute V cs (done_so_far @ [c]))"

lemma execute_append:
  "execute V (cs @ ds) h =
     (if fst (execute V cs h) then execute V cs h else execute V ds (snd (execute V cs h)))"
  by (induction cs arbitrary: h) auto

lemma execute_does: "\<exists>n. snd (execute V cs h) = h @ take n cs \<and> (fst (execute V cs h) \<or> n = length cs)"
proof (induction cs arbitrary: h)
  case (Cons c cs)
  obtain n where "snd (execute V cs (h @ [c])) = h @ [c] @ take n cs"
    and "fst (execute V cs (h @ [c])) \<or> n = length cs"
    using Cons [of "h @ [c]"] by auto
  then have "snd (execute V (c # cs) h) = h @ take (if can_fail c \<and> eErr V (h @ [c]) \<noteq> None then 1 else Suc n) (c # cs)"
    and "fst (execute V (c # cs) h) \<or>
      (if can_fail c \<and> eErr V (h @ [c]) \<noteq> None then 1 else Suc n) = length (c # cs)"
    by auto
  then show ?case by blast
qed simp

text \<open>
  \<open>performs V I P m cs Q\<close>: from \<open>P\<close>, \<open>m\<close> does the steps \<open>cs\<close>; when one fails the process exits
  with status 1 and \<open>I\<close>, otherwise the program goes on with \<open>Q\<close>. \<open>finishes V I P m cs\<close>: the same of a
  program that then exits with status 0.
\<close>

definition performed :: "(mstate \<Rightarrow> bool) \<Rightarrow> ('a \<Rightarrow> mstate \<Rightarrow> bool) \<Rightarrow> bool \<times> step list
    \<Rightarrow> (nat, 'a) outcome \<times> mstate \<Rightarrow> bool" where
  "performed I Q e r \<longleftrightarrow> mSteps (snd r) = snd e \<and>
     (if fst e then fst r = Return 1 \<and> I (snd r) else \<exists>x. fst r = Next x \<and> Q x (snd r))"

definition performs :: "env \<Rightarrow> (mstate \<Rightarrow> bool) \<Rightarrow> (mstate \<Rightarrow> bool) \<Rightarrow> 'a startup \<Rightarrow> step list
    \<Rightarrow> ('a \<Rightarrow> mstate \<Rightarrow> bool) \<Rightarrow> bool" where
  "performs V I P m cs Q \<longleftrightarrow> (\<forall>s. P s \<longrightarrow> performed I Q (execute V cs (mSteps s)) (m s))"

definition finished :: "(mstate \<Rightarrow> bool) \<Rightarrow> bool \<times> step list \<Rightarrow> (nat, nat) outcome \<times> mstate \<Rightarrow> bool" where
  "finished I e r \<longleftrightarrow> mSteps (snd r) = snd e \<and> fst r = Return (if fst e then 1 else 0) \<and> I (snd r)"

definition finishes :: "env \<Rightarrow> (mstate \<Rightarrow> bool) \<Rightarrow> (mstate \<Rightarrow> bool) \<Rightarrow> nat startup \<Rightarrow> step list \<Rightarrow> bool" where
  "finishes V I P m cs \<longleftrightarrow> (\<forall>s. P s \<longrightarrow> finished I (execute V cs (mSteps s)) (m s))"

lemma performsE:
  assumes "performs V I P m cs Q" and "P s"
  obtains (fails) t where "fst (execute V cs (mSteps s))" and "m s = (Return 1, t)"
      and "mSteps t = snd (execute V cs (mSteps s))" and "I t"
    | (goes_on) x t where "\<not> fst (execute V cs (mSteps s))" and "m s = (Next x, t)"
      and "mSteps t = snd (execute V cs (mSteps s))" and "Q x t"
proof -
  from assms have "performed I Q (execute V cs (mSteps s)) (m s)" by (simp add: performs_def)
  then show ?thesis
    by (cases "m s"; cases "fst (execute V cs (mSteps s))")
       (auto simp: performed_def intro: fails goes_on)
qed

lemma performs_andthen:
  assumes m: "performs V I P m cs Q" and f: "\<And>x. performs V I (Q x) (f x) ds Q'"
  shows "performs V I P (andthen m f) (cs @ ds) Q'"
  unfolding performs_def
proof (intro allI impI)
  fix s assume "P s"
  with m show "performed I Q' (execute V (cs @ ds) (mSteps s)) (andthen m f s)"
  proof (cases rule: performsE)
    case (fails t)
    then show ?thesis by (simp add: execute_append andthen_def performed_def)
  next
    case (goes_on x t)
    with f [of x] show ?thesis by (auto simp: execute_append andthen_def performs_def)
  qed
qed

lemma finishes_andthen:
  assumes m: "performs V I P m cs Q" and f: "\<And>x. finishes V I (Q x) (f x) ds"
  shows "finishes V I P (andthen m f) (cs @ ds)"
  unfolding finishes_def
proof (intro allI impI)
  fix s assume "P s"
  with m show "finished I (execute V (cs @ ds) (mSteps s)) (andthen m f s)"
  proof (cases rule: performsE)
    case (fails t)
    then show ?thesis by (simp add: execute_append andthen_def finished_def)
  next
    case (goes_on x t)
    with f [of x] show ?thesis by (auto simp: execute_append andthen_def finishes_def)
  qed
qed

lemma performs_ok: "(\<And>s. P s \<Longrightarrow> Q x s) \<Longrightarrow> performs V I P (ok x) [] Q"
  by (simp add: performs_def performed_def ok_def)

lemma performs_assume: "(b \<Longrightarrow> performs V I P m cs Q) \<Longrightarrow> performs V I (\<lambda>s. b \<and> P s) m cs Q"
  and finishes_assume: "(b \<Longrightarrow> finishes V I P n cs) \<Longrightarrow> finishes V I (\<lambda>s. b \<and> P s) n cs"
  by (simp_all add: performs_def finishes_def)

lemma finishes_ret: "(\<And>s. P s \<Longrightarrow> I s) \<Longrightarrow> finishes V I P (ret 0) []"
  by (simp add: finishes_def finished_def ret_def)

text \<open>Before and after the defaults are set.\<close>

definition early :: "tlsopt option list list \<Rightarrow> mstate \<Rightarrow> bool" where
  "early store s \<longleftrightarrow> mStore s = store \<and> mDefaults s = None \<and>
     InitDefaults \<notin> set (mSteps s) \<and> StartManager \<notin> set (mSteps s)"

definition equipped :: "env \<Rightarrow> flags \<Rightarrow> mstate \<Rightarrow> bool" where
  "equipped V f s \<longleftrightarrow> mStore s = fst (metrics_opts V f) \<and>
     mDefaults s = Some (SetupDefaults (eGetEnvVar V)) \<and> InitDefaults \<in> set (mSteps s)"

definition exits_well :: "env \<Rightarrow> flags \<Rightarrow> mstate \<Rightarrow> bool" where
  "exits_well V f s \<longleftrightarrow>
     mDefaults s = (if InitDefaults \<in> set (mSteps s) then Some (SetupDefaults (eGetEnvVar V)) else None) \<and>
     (StartManager \<in> set (mSteps s) \<longrightarrow> mStore s = fst (metrics_opts V f))"

lemma or_exit_early:
  assumes "can_fail c" and "c \<noteq> InitDefaults" and "c \<noteq> StartManager"
  shows "performs V (exits_well V f) (early st) (or_exit V c) [c] (\<lambda>_. early st)"
  using assms by (auto simp: performs_def performed_def or_exit_def attempt_def early_def
      exits_well_def prog_defs split: option.split)

lemma or_exit_late:
  "can_fail c \<Longrightarrow> performs V (exits_well V f) (equipped V f) (or_exit V c) [c] (\<lambda>_. equipped V f)"
  by (auto simp: performs_def performed_def or_exit_def attempt_def equipped_def
      exits_well_def prog_defs split: option.split)

lemma append_opt_performs:
  "performs V I (early st) (append_opt V sl g) []
     (\<lambda>x s. x = snd (append_slice (eGrow V) st sl g) \<and> early (fst (append_slice (eGrow V) st sl g)) s)"
  by (auto simp: performs_def performed_def append_opt_def early_def split: prod.split)

lemma tls_options_performs:
  "performs V I (early []) (tls_options V f) []
     (\<lambda>x s. x = snd (common_opts V f) \<and> early (fst (common_opts V f)) s)"
  unfolding tls_options_def
  by (rule performs_andthen [where cs = "[]" and ds = "[]", simplified, OF append_opt_performs])
     (auto intro!: performs_assume performs_ok append_opt_performs
        simp: common_opts_def split: prod.split)

lemma watch_certificate_performs:
  "performs V (exits_well V f) (early st) (watch_certificate V path cert key sl)
     (given path [NewCertWatcher (CertWatcher (filepath_Join path cert) (filepath_Join path key))])
     (\<lambda>x s. x = (if path \<noteq> [] then Some (CertWatcher (filepath_Join path cert) (filepath_Join path key)) else None,
          snd (with_watcher V path (CertWatcher (filepath_Join path cert) (filepath_Join path key)) st sl)) \<and>
        early (fst (with_watcher V path (CertWatcher (filepath_Join path cert) (filepath_Join path key)) st sl)) s)"
proof (cases "path = []")
  case True
  then show ?thesis
    by (simp add: watch_certificate_def given_def with_watcher_def performs_ok)
next
  case False
  let ?w = "CertWatcher (filepath_Join path cert) (filepath_Join path key)"
  have "performs V (exits_well V f) (early st)
      (andthen (or_exit V (NewCertWatcher ?w)) (\<lambda>_. andthen (append_opt V sl (use_watcher ?w)) (\<lambda>y. ok (Some ?w, y))))
      ([NewCertWatcher ?w] @ [] @ [])
      (\<lambda>x s. x = (Some ?w, snd (append_slice (eGrow V) st sl (use_watcher ?w))) \<and>
         early (fst (append_slice (eGrow V) st sl (use_watcher ?w))) s)"
    by (intro performs_andthen [OF or_exit_early] performs_andthen [OF append_opt_performs] performs_ok) simp_all
  with False show ?thesis
    by (simp add: watch_certificate_def given_def with_watcher_def Let_def)
qed

lemma new_server_performs:
  "performs V I (early st) (note_step (NewWebhookServer p sl)) [NewWebhookServer p sl] (\<lambda>_. early st)"
  by (auto simp: performs_def performed_def note_step_def early_def prog_defs)

lemma create_manager_performs:
  "performs V (exits_well V f) (early st) (create_manager V options)
     [SetManagerOptions options, GetConfigOrDie, NewManager (eManagerOptions V options), GetConfig,
      NewForConfig] (\<lambda>_. early st)"
proof -
  have "performs V (exits_well V f) (early st) (create_manager V options)
     ([SetManagerOptions options] @ [GetConfigOrDie] @ [NewManager (eManagerOptions V options)] @
      [GetConfig] @ [NewForConfig]) (\<lambda>_. early st)"
    unfolding create_manager_def
    by (intro performs_andthen [OF or_exit_early] or_exit_early) simp_all
  then show ?thesis by simp
qed

lemma fcall_cong: "m s = n t \<Longrightarrow> fcall m s = fcall n t"
  by (simp add: fcall_def)

lemma index_loop:
  fixes V :: env and s :: mstate
  defines "index \<equiv> \<lambda>(field, extract).
       andthen (attempt V (IndexField field)) (\<lambda>err. case err of None \<Rightarrow> ok () | Some e \<Rightarrow> ret (Some e))"
  shows "\<exists>err. fcall (andthen (foreach index xs) (\<lambda>_. andthen (attempt V (CompleteController c)) ret)) s =
       (Next err, s\<lparr>mSteps := snd (execute V (map (IndexField \<circ> fst) xs @ [CompleteController c]) (mSteps s))\<rparr>) \<and>
     (err \<noteq> None \<longleftrightarrow> fst (execute V (map (IndexField \<circ> fst) xs @ [CompleteController c]) (mSteps s)))"
proof (induction xs arbitrary: s)
  case Nil
  show ?case by (simp add: prog_defs attempt_def)
next
  case (Cons x xs)
  let ?m = "\<lambda>xs. andthen (foreach index xs) (\<lambda>_. andthen (attempt V (CompleteController c)) ret)
    :: (mstate, goerror option, goerror option) prog"
  let ?s = "s\<lparr>mSteps := mSteps s @ [IndexField (fst x)]\<rparr>"
  show ?case
  proof (cases "eErr V (mSteps s @ [IndexField (fst x)])")
    case None
    then have "index x s = (Next (), ?s)"
      by (simp add: index_def case_prod_unfold attempt_def andthen_def ok_def)
    then have step: "?m (x # xs) s = ?m xs ?s"
      by (simp add: andthen_assoc andthen_Next)
    show ?thesis unfolding fcall_cong [of "?m (x # xs)" s "?m xs" ?s, OF step] using Cons [of ?s] None by simp
  next
    case (Some e)
    then have "index x s = (Return (Some e), ?s)"
      by (simp add: index_def case_prod_unfold attempt_def andthen_def ret_def)
    then have "?m (x # xs) s = (Return (Some e), ?s)"
      by (simp add: andthen_def)
    with Some show ?thesis by (simp add: fcall_def)
  qed
qed

lemma SetupWithManager_performs:
  "\<exists>err. fcall (SetupWithManager V) s =
     (Next err, s\<lparr>mSteps := snd (execute V (map IndexField allWatchFields @
        [CompleteController neutron_controller]) (mSteps s))\<rparr>) \<and>
     (err \<noteq> None \<longleftrightarrow> fst (execute V (map IndexField allWatchFields @
        [CompleteController neutron_controller]) (mSteps s)))"
proof -
  have "map (IndexField \<circ> fst) indexers = map IndexField allWatchFields"
    by (simp add: indexers_def allWatchFields_def)
  with index_loop [of V indexers neutron_controller s] show ?thesis
    by (simp add: SetupWithManager_def)
qed

lemma setup_controller_performs:
  "performs V (exits_well V f) (early (fst (metrics_opts V f))) (setup_controller V)
     ((map IndexField allWatchFields @ [CompleteController neutron_controller]) @ [InitDefaults])
     (\<lambda>_. equipped V f)"
  unfolding performs_def
proof (intro allI impI)
  fix s assume s: "early (fst (metrics_opts V f)) s"
  let ?cs = "map IndexField allWatchFields @ [CompleteController neutron_controller]"
  obtain err where err: "fcall (SetupWithManager V) s =
      ((Next err, s\<lparr>mSteps := snd (execute V ?cs (mSteps s))\<rparr>) :: (nat, goerror option) outcome \<times> mstate)"
    "err \<noteq> None \<longleftrightarrow> fst (execute V ?cs (mSteps s))"
    using SetupWithManager_performs [of V s] by blast
  obtain n where "snd (execute V ?cs (mSteps s)) = mSteps s @ take n ?cs"
    using execute_does [of V ?cs "mSteps s"] by blast
  then have "set (snd (execute V ?cs (mSteps s))) \<subseteq> set (mSteps s) \<union> set ?cs"
    by (metis set_append set_take_subset sup.mono order_refl)
  then have "InitDefaults \<notin> set (snd (execute V ?cs (mSteps s)))"
    and "StartManager \<notin> set (snd (execute V ?cs (mSteps s)))"
    using s by (auto simp: early_def)
  with s err show "performed (exits_well V f) (\<lambda>_. equipped V f)
      (execute V (?cs @ [InitDefaults]) (mSteps s)) (setup_controller V s)"
    unfolding setup_controller_def execute_append [of V ?cs]
    by (cases err) (simp_all add: andthen_def performed_def exits_well_def early_def equipped_def
        note_step_def update_def ret_def)
qed

lemma setup_webhook_performs:
  "performs V (exits_well V f) (equipped V f) (setup_webhook V)
     (if eGetenv V ''ENABLE_WEBHOOKS'' \<noteq> ''false'' then [CompleteWebhook] else [])
     (\<lambda>x s. x = checker_of V \<and> equipped V f s)"
proof (cases "eGetenv V ''ENABLE_WEBHOOKS'' = ''false''")
  case False
  have "performs V (exits_well V f) (equipped V f) (andthen (or_exit V CompleteWebhook) (\<lambda>_. ok WebhookStarted))
      ([CompleteWebhook] @ []) (\<lambda>x s. x = WebhookStarted \<and> equipped V f s)"
    by (intro performs_andthen [OF or_exit_late] performs_ok) simp_all
  with False show ?thesis by (simp add: setup_webhook_def checker_of_def)
qed (simp add: setup_webhook_def checker_of_def performs_ok)

lemma add_watcher_performs:
  "performs V (exits_well V f) (equipped V f) (add_watcher V (if path \<noteq> [] then Some w else None))
     (given path [AddRunnable w]) (\<lambda>_. equipped V f)"
  by (simp add: add_watcher_def given_def or_exit_late performs_ok)

lemma webhook_certificate_performs:
  "performs V (exits_well V f) (early (fst (common_opts V f)))
     (watch_certificate V (webhookCertPath f) (webhookCertName f) (webhookCertKey f) (snd (common_opts V f)))
     (given (webhookCertPath f) [NewCertWatcher (webhook_watcher f)])
     (\<lambda>x s. x = (if webhookCertPath f \<noteq> [] then Some (webhook_watcher f) else None, snd (webhook_opts V f)) \<and>
        early (fst (webhook_opts V f)) s)"
  unfolding webhook_opts_def webhook_watcher_def by (rule watch_certificate_performs)

lemma metrics_certificate_performs:
  "performs V (exits_well V f) (early (fst (webhook_opts V f)))
     (watch_certificate V (metricsCertPath f) (metricsCertName f) (metricsCertKey f) (snd (common_opts V f)))
     (given (metricsCertPath f) [NewCertWatcher (metrics_watcher f)])
     (\<lambda>x s. x = (if metricsCertPath f \<noteq> [] then Some (metrics_watcher f) else None, snd (metrics_opts V f)) \<and>
        early (fst (metrics_opts V f)) s)"
  unfolding metrics_opts_def metrics_watcher_def by (rule watch_certificate_performs)

lemma checks_finish:
  "finishes V (exits_well V f) (equipped V f)
     (andthen (or_exit V (AddHealthzCheck a c)) (\<lambda>_. andthen (or_exit V (AddReadyzCheck b c)) (\<lambda>_.
      andthen (or_exit V StartManager) (\<lambda>_. ret 0))))
     ([AddHealthzCheck a c] @ [AddReadyzCheck b c] @ [StartManager] @ [])"
  by (intro finishes_andthen [OF or_exit_late] finishes_ret)
     (auto simp: equipped_def exits_well_def)

lemma run_manager_finishes: "finishes V (exits_well V f) (early []) (run_manager V f) (plan V f)"
proof -
  have "finishes V (exits_well V f) (early []) (run_manager V f)
     ([] @ given (webhookCertPath f) [NewCertWatcher (webhook_watcher f)] @
      [NewWebhookServer (webhookPort f) (snd (webhook_opts V f))] @
      given (metricsCertPath f) [NewCertWatcher (metrics_watcher f)] @
      [SetManagerOptions (options_of f (snd (metrics_opts V f))), GetConfigOrDie,
       NewManager (eManagerOptions V (options_of f (snd (metrics_opts V f)))), GetConfig, NewForConfig] @
      ((map IndexField allWatchFields @ [CompleteController neutron_controller]) @ [InitDefaults]) @
      (if eGetenv V ''ENABLE_WEBHOOKS'' \<noteq> ''false'' then [CompleteWebhook] else []) @
      given (metricsCertPath f) [AddRunnable (metrics_watcher f)] @
      given (webhookCertPath f) [AddRunnable (webhook_watcher f)] @
      [AddHealthzCheck ''healthz'' (checker_of V)] @ [AddReadyzCheck ''readyz'' (checker_of V)] @
      [StartManager] @ [])"
    unfolding run_manager_def
    apply (rule finishes_andthen [OF tls_options_performs], rule finishes_assume, hypsubst)
    apply (rule finishes_andthen [OF webhook_certificate_performs], rule finishes_assume, hypsubst, unfold prod.case)
    apply (rule finishes_andthen [OF new_server_performs])
    apply (rule finishes_andthen [OF metrics_certificate_performs], rule finishes_assume, hypsubst, unfold prod.case)
    apply (rule finishes_andthen [OF create_manager_performs])
    apply (rule finishes_andthen [OF setup_controller_performs])
    apply (rule finishes_andthen [OF setup_webhook_performs], rule finishes_assume, hypsubst)
    apply (rule finishes_andthen [OF add_watcher_performs])+
    apply (rule checks_finish)
    done
  then show ?thesis by (simp add: plan_def Let_def)
qed

lemma scheme_loop:
  fixes V :: env and s :: mstate
  defines "register \<equiv> \<lambda>g. andthen (attempt V (AddToScheme g)) (\<lambda>err.
     case err of None \<Rightarrow> ok () | Some _ \<Rightarrow> panic ''AddToScheme'')"
  shows "foreach register gs s =
     ((if fst (execute V (map AddToScheme gs) (mSteps s)) then Panic ''AddToScheme'' else Next ()),
      s\<lparr>mSteps := snd (execute V (map AddToScheme gs) (mSteps s))\<rparr>)"
  by (induction gs arbitrary: s)
     (auto simp: register_def andthen_def attempt_def ok_def panic_def split: option.split)

lemma init_scheme_run:
  "init_scheme V s =
     ((if fst (execute V (map AddToScheme scheme_groups) (mSteps s)) then Panic ''AddToScheme'' else Next ()),
      s\<lparr>mSteps := snd (execute V (map AddToScheme scheme_groups) (mSteps s))\<rparr>)"
  unfolding init_scheme_def by (rule scheme_loop)

definition registered :: "env \<Rightarrow> bool \<times> step list" where
  "registered V = execute V (map AddToScheme scheme_groups) []"

lemma registered_steps: "set (snd (registered V)) \<subseteq> range AddToScheme"
proof -
  obtain n where "snd (registered V) = take n (map AddToScheme scheme_groups)"
    using execute_does [of V "map AddToScheme scheme_groups" "[]"] by (auto simp: registered_def)
  then have "set (snd (registered V)) \<subseteq> set (map AddToScheme scheme_groups)"
    by (simp only: set_take_subset)
  then show ?thesis by auto
qed

lemma main_run:
  "main V args boot_state =
     (if fst (registered V) then (Panic ''AddToScheme'', boot_state\<lparr>mSteps := snd (registered V)\<rparr>)
      else (case parse_flags (eFlags V) args of
         Inl e \<Rightarrow> (Return (if e = ErrHelp then 0 else 2), boot_state\<lparr>mSteps := snd (registered V)\<rparr>)
       | Inr f \<Rightarrow> run_manager V f (boot_state\<lparr>mSteps := snd (registered V)\<rparr>)))"
  by (simp add: main_def andthen_def init_scheme_run registered_def boot_state_def ret_def split: sum.split)

lemma boot_early: "early [] (boot_state\<lparr>mSteps := snd (registered V)\<rparr>)"
  using registered_steps [of V] by (auto simp: early_def boot_state_def)

lemma run_manager_finished:
  "finished (exits_well V f) (execute V (plan V f) (snd (registered V)))
     (run_manager V f (boot_state\<lparr>mSteps := snd (registered V)\<rparr>))"
  using run_manager_finishes [of V f] boot_early [of V] by (fastforce simp: finishes_def)

text \<open>
  C38. The start-up does the steps of the plan in order and stops at the first that fails. A group
  that cannot be registered is a panic; a help request exits with status 0 and a bad command line
  with status 2, before anything else is done; a failing step of the plan is the last one and gives
  status 1; if none fails the status is 0. The defaults of the webhook are those of the environment
  from the step that sets them on, which comes before the webhook is registered.
\<close>

theorem startup_follows_plan:
  "case main V args boot_state of (result, t) \<Rightarrow>
     if fst (registered V) then result = Panic ''AddToScheme'' \<and> mSteps t = snd (registered V)
     else (case parse_flags (eFlags V) args of
         Inl e \<Rightarrow> result = Return (if e = ErrHelp then 0 else 2) \<and> mSteps t = snd (registered V)
       | Inr f \<Rightarrow>
           (case execute V (plan V f) (snd (registered V)) of (failed, steps) \<Rightarrow>
              result = Return (if failed then 1 else 0) \<and> mSteps t = steps \<and>
              mDefaults t = (if InitDefaults \<in> set steps then Some (SetupDefaults (eGetEnvVar V)) else None)))"
proof (cases "parse_flags (eFlags V) args")
  case (Inl e)
  then show ?thesis by (simp add: main_run)
next
  case (Inr f)
  with run_manager_finished [of V f] show ?thesis
    by (simp add: main_run finished_def exits_well_def case_prod_unfold)
qed

section \<open>What the servers present\<close>

text \<open>A server applies its options in order to its configuration when it starts.\<close>

definition served :: "tlsopt option list list \<Rightarrow> slice \<Rightarrow> tls_config \<Rightarrow> tls_config" where
  "served store sl c = foldl (\<lambda>c f. f c) c (contents store sl)"

text \<open>The slice both servers start from has room for a further element.\<close>

definition spare :: "env \<Rightarrow> flags \<Rightarrow> bool" where
  "spare V f \<longleftrightarrow>
     (if enableHTTP2 f then 1 < eGrow V 0 1
      else if 1 < eGrow V 0 1 then 2 < eGrow V 0 1 else 2 < eGrow V 1 2)"

definition tls_of :: "flags \<Rightarrow> CertWatcher option \<Rightarrow> tls_config \<Rightarrow> tls_config" where
  "tls_of f cert c = c\<lparr>MinVersion := VersionTLS13,
     NextProtos := if enableHTTP2 f then NextProtos c else [''http/1.1''], GetCertificate := cert\<rparr>"

definition slice_ok :: "'a option list list \<Rightarrow> slice \<Rightarrow> bool" where
  "slice_ok store sl \<longleftrightarrow> SLen sl \<le> SCap sl \<and>
     (0 < SCap sl \<longrightarrow> SArray sl < length store \<and> SCap sl \<le> length (store ! SArray sl))"

lemma slice_ok_nil: "slice_ok store nil_slice"
  by (simp add: slice_ok_def nil_slice_def)

lemma append_slice_ok:
  assumes "\<forall>c n. n \<le> grow c n" and "slice_ok store sl"
  shows "slice_ok (fst (append_slice grow store sl x)) (snd (append_slice grow store sl x))"
proof (cases "SLen sl < SCap sl")
  case True
  with assms show ?thesis by (simp add: append_slice_def slice_ok_def)
next
  case False
  from assms(1) have "SLen sl + 1 \<le> grow (SCap sl) (SLen sl + 1)" by blast
  with False assms(2) show ?thesis
    by (cases "SLen sl = 0") (auto simp: append_slice_def slice_ok_def Let_def)
qed

lemma append_slice_contents:
  assumes "slice_ok store sl"
  shows "contents (fst (append_slice grow store sl x)) (snd (append_slice grow store sl x)) =
    contents store sl @ [x]"
proof (cases "SLen sl < SCap sl")
  case True
  with assms show ?thesis
    by (simp add: append_slice_def slice_ok_def contents_def take_Suc_conv_app_nth)
next
  case False
  with assms show ?thesis
    by (cases "SLen sl = 0") (auto simp: append_slice_def slice_ok_def contents_def Let_def)
qed

text \<open>A slice is not changed by an append to one of its prefixes that has no room left.\<close>

lemma append_slice_apart:
  assumes "slice_ok store other" and "SLen sl = SCap sl"
  shows "contents (fst (append_slice grow store sl x)) other = contents store other"
  using assms by (cases "SCap other = 0") (auto simp: append_slice_def slice_ok_def contents_def Let_def nth_append)

text \<open>With room left, a second append replaces the element the first one added.\<close>

lemma append_slice_clobbers:
  assumes "slice_ok store sl" and "SLen sl < SCap sl"
  shows "contents (fst (append_slice grow (fst (append_slice grow store sl x)) sl y))
      (snd (append_slice grow store sl x)) = contents store sl @ [y]"
  using assms by (simp add: append_slice_def slice_ok_def contents_def take_Suc_conv_app_nth)

lemma append_slice_keeps_ok:
  "slice_ok store other \<Longrightarrow> slice_ok (fst (append_slice grow store sl x)) other"
  by (cases "SArray other = SArray sl")
     (auto simp: append_slice_def slice_ok_def Let_def nth_append)

lemma append_slice_same:
  "slice_ok store sl \<Longrightarrow> contents (fst (append_slice grow store sl x)) sl = contents store sl"
  by (cases "SCap sl = 0") (auto simp: append_slice_def slice_ok_def contents_def Let_def nth_append)

lemma common_ok:
  "\<forall>c n. n \<le> eGrow V c n \<Longrightarrow> slice_ok (fst (common_opts V f)) (snd (common_opts V f))"
  by (simp add: common_opts_def case_prod_unfold Let_def append_slice_ok slice_ok_nil)

lemma common_contents:
  assumes "\<forall>c n. n \<le> eGrow V c n"
  shows "contents (fst (common_opts V f)) (snd (common_opts V f)) =
     require_TLS13 # (if enableHTTP2 f then [] else [disableHTTP2])"
proof -
  have "contents ([] :: tlsopt option list list) nil_slice = []"
    by (simp add: contents_def nil_slice_def)
  then show ?thesis
    by (simp add: common_opts_def case_prod_unfold Let_def append_slice_contents
        append_slice_ok [OF assms] slice_ok_nil)
qed

lemma common_spare:
  assumes "\<forall>c n. n \<le> eGrow V c n"
  shows "spare V f \<longleftrightarrow> SLen (snd (common_opts V f)) < SCap (snd (common_opts V f))"
proof -
  from assms have "1 \<le> eGrow V 0 1" by blast
  then show ?thesis
    by (cases "eGrow V 0 1 = 1")
       (auto simp: common_opts_def spare_def append_slice_def nil_slice_def Let_def numeral_2_eq_2)
qed

lemma metrics_served:
  assumes V: "\<forall>c n. n \<le> eGrow V c n"
  shows "served (fst (metrics_opts V f)) (snd (metrics_opts V f)) c =
     tls_of f (if metricsCertPath f \<noteq> [] then Some (metrics_watcher f) else GetCertificate c) c"
proof -
  let ?store = "fst (webhook_opts V f)" and ?sl = "snd (common_opts V f)"
  have "slice_ok ?store ?sl" and "contents ?store ?sl = contents (fst (common_opts V f)) ?sl"
    by (simp_all add: webhook_opts_def with_watcher_def append_slice_keeps_ok append_slice_same common_ok [OF V])
  then show ?thesis
    by (simp add: served_def metrics_opts_def with_watcher_def append_slice_contents common_contents [OF V]
        tls_of_def require_TLS13_def disableHTTP2_def use_watcher_def)
qed

lemma webhook_served:
  assumes V: "\<forall>c n. n \<le> eGrow V c n"
  shows "served (fst (metrics_opts V f)) (snd (webhook_opts V f)) c =
     tls_of f (if webhookCertPath f = [] then GetCertificate c
       else if metricsCertPath f \<noteq> [] \<and> spare V f then Some (metrics_watcher f)
       else Some (webhook_watcher f)) c"
proof -
  let ?store = "fst (common_opts V f)" and ?sl = "snd (common_opts V f)"
  have ok: "slice_ok ?store ?sl" by (rule common_ok [OF V])
  then have len: "\<not> spare V f \<Longrightarrow> SLen ?sl = SCap ?sl" by (simp add: common_spare [OF V] slice_ok_def)
  have "contents (fst (metrics_opts V f)) (snd (webhook_opts V f)) = contents ?store ?sl @
      (if webhookCertPath f = [] then []
       else [use_watcher (if metricsCertPath f \<noteq> [] \<and> spare V f then metrics_watcher f else webhook_watcher f)])"
    by (cases "spare V f")
       (simp_all add: metrics_opts_def webhook_opts_def with_watcher_def ok len append_slice_contents
        append_slice_same append_slice_clobbers append_slice_apart append_slice_ok [OF V] common_spare [OF V])
  then show ?thesis
    by (simp add: served_def common_contents [OF V] tls_of_def require_TLS13_def disableHTTP2_def use_watcher_def)
qed

lemma main_started:
  assumes "StartManager \<in> set (mSteps (snd (main V args boot_state)))"
  obtains f where "parse_flags (eFlags V) args = Inr f"
    and "set (plan V f) \<subseteq> set (mSteps (snd (main V args boot_state)))"
    and "mStore (snd (main V args boot_state)) = fst (metrics_opts V f)"
proof -
  have none: "StartManager \<notin> set (snd (registered V))" using registered_steps [of V] by auto
  with assms obtain f where f: "parse_flags (eFlags V) args = Inr f" and "\<not> fst (registered V)"
    by (cases "fst (registered V)"; cases "parse_flags (eFlags V) args") (simp_all add: main_run)
  then have main: "main V args boot_state = run_manager V f (boot_state\<lparr>mSteps := snd (registered V)\<rparr>)"
    by (simp add: main_run)
  with run_manager_finished [of V f] have fin: "finished (exits_well V f)
      (execute V (plan V f) (snd (registered V))) (main V args boot_state)" by simp
  obtain n where n: "mSteps (snd (main V args boot_state)) = snd (registered V) @ take n (plan V f)"
    using execute_does [of V "plan V f" "snd (registered V)"] fin by (auto simp: finished_def)
  obtain cs where cs: "plan V f = cs @ [StartManager]" and "StartManager \<notin> set cs"
    by (rule that) (auto simp: plan_def given_def Let_def)
  with assms n none have "plan V f = take n (plan V f)"
    by (cases "n \<le> length cs") (auto dest: in_set_takeD)
  with n have "set (plan V f) \<subseteq> set (mSteps (snd (main V args boot_state)))"
    by (metis Un_upper2 set_append)
  moreover have "mStore (snd (main V args boot_state)) = fst (metrics_opts V f)"
    using fin assms by (simp add: finished_def exits_well_def)
  ultimately show thesis using f that by blast
qed

text \<open>
  C37. What the servers of a started manager present. Both require TLS 1.3 and speak only HTTP/1.1
  unless HTTP/2 was enabled; the metrics server is served with authentication exactly when it is
  served securely, and presents its own certificate if one is configured. The webhook server
  presents its own certificate unless the metrics server has one too and the runtime left room in
  the slice that both option lists start from: then the second append replaces the webhook's
  watcher by that of the metrics server. A runtime that allocates one element first and then
  doubles the capacity leaves no room.
\<close>

theorem servers_hardened:
  assumes grow: "\<forall>c n. n \<le> eGrow V c n"
    and options: "\<forall>opts. Metrics (eManagerOptions V opts) = Metrics opts"
    and start: "StartManager \<in> set (mSteps (snd (main V args boot_state)))"
  shows "\<exists>f webhook opts. parse_flags (eFlags V) args = Inr f \<and>
     NewWebhookServer (webhookPort f) webhook \<in> set (mSteps (snd (main V args boot_state))) \<and>
     NewManager opts \<in> set (mSteps (snd (main V args boot_state))) \<and>
     SecureServing (Metrics opts) = secureMetrics f \<and> FilterProvider (Metrics opts) = secureMetrics f \<and>
     served (mStore (snd (main V args boot_state))) (MetricsTLSOpts (Metrics opts)) c =
       tls_of f (if metricsCertPath f \<noteq> [] then Some (metrics_watcher f) else GetCertificate c) c \<and>
     served (mStore (snd (main V args boot_state))) webhook c =
       tls_of f (if webhookCertPath f = [] then GetCertificate c
         else if metricsCertPath f \<noteq> [] \<and> spare V f then Some (metrics_watcher f)
         else Some (webhook_watcher f)) c \<and>
     (spare V f \<longrightarrow> 1 < eGrow V 0 1 \<or> 2 < eGrow V 1 2)"
proof -
  obtain f where f: "parse_flags (eFlags V) args = Inr f"
    and plan: "set (plan V f) \<subseteq> set (mSteps (snd (main V args boot_state)))"
    and store: "mStore (snd (main V args boot_state)) = fst (metrics_opts V f)"
    using main_started [OF start] by blast
  let ?opts = "eManagerOptions V (options_of f (snd (metrics_opts V f)))"
  have "NewWebhookServer (webhookPort f) (snd (webhook_opts V f)) \<in> set (plan V f)"
    and "NewManager ?opts \<in> set (plan V f)"
    by (auto simp: plan_def Let_def)
  moreover have "Metrics ?opts = Metrics (options_of f (snd (metrics_opts V f)))" using options by blast
  moreover have "spare V f \<longrightarrow> 1 < eGrow V 0 1 \<or> 2 < eGrow V 1 2" by (auto simp: spare_def split: if_splits)
  ultimately show ?thesis using f plan store metrics_served [OF grow] webhook_served [OF grow]
    by (intro exI [of _ f] exI [of _ "snd (webhook_opts V f)"] exI [of _ ?opts])
       (auto simp: options_of_def)
qed

text \<open>A start where nothing fails, with a certificate for each server.\<close>

definition quiet_env :: env where
  "quiet_env = \<lparr>eErr = \<lambda>_. None, eManagerOptions = \<lambda>opts. opts, eGetenv = \<lambda>_. [],
     eGetEnvVar = \<lambda>_ v. v, eFlags = [], eGrow = \<lambda>cap n. max n (2 * cap)\<rparr>"

definition certified :: flags where
  "certified = default_flags\<lparr>webhookCertPath := ''/webhook'', metricsCertPath := ''/metrics''\<rparr>"

lemma execute_quiet: "execute quiet_env cs h = (False, h @ cs)"
  by (induction cs arbitrary: h) (simp_all add: quiet_env_def)

lemma quiet_flags: "parse_flags (eFlags quiet_env) (args_of certified) = Inr certified"
  by (simp add: args_of_read certified_def default_flags_def int64_def)

lemma quiet_start: "StartManager \<in> set (mSteps (snd (main quiet_env (args_of certified) boot_state)))"
  using run_manager_finished [of quiet_env certified]
  by (simp add: main_run quiet_flags registered_def execute_quiet finished_def plan_def Let_def)

theorem servers_hardened_witness:
  "\<exists>webhook. NewWebhookServer 9443 webhook \<in> set (mSteps (snd (main quiet_env (args_of certified) boot_state))) \<and>
     served (mStore (snd (main quiet_env (args_of certified) boot_state))) webhook
         \<lparr>MinVersion = 0, NextProtos = [''h2''], GetCertificate = None\<rparr> =
       \<lparr>MinVersion = 0x0304, NextProtos = [''http/1.1''],
        GetCertificate = Some (CertWatcher ''/webhook/tls.crt'' ''/webhook/tls.key'')\<rparr>"
proof -
  have "\<not> spare quiet_env certified" "webhookCertPath certified \<noteq> []" "webhookPort certified = 9443"
    "enableHTTP2 certified = False"
    by (simp_all add: spare_def quiet_env_def certified_def default_flags_def)
  moreover have "webhook_watcher certified = CertWatcher ''/webhook/tls.crt'' ''/webhook/tls.key''"
    by (simp add: webhook_watcher_def certified_def default_flags_def filepath_Join_def
        filepath_Clean_def clean_step_def)
  ultimately show ?thesis
    using servers_hardened [OF _ _ quiet_start,
        of "\<lparr>MinVersion = 0, NextProtos = [''h2''], GetCertificate = None\<rparr>"] quiet_flags
    by (auto simp: quiet_env_def tls_of_def VersionTLS13_def)
qed

end
