(* ===== verification/GoHeap.thy ===== *)
theory GoHeap
  imports Prelude "HOL-Library.AList"
begin

text \<open>
  Memory as Go code sees it, for the functions whose correctness is a matter of aliasing: a heap of
  cells, references to them, and what a deep copy of a value in memory has to do. The theory is
  generic in the cells; the patterns of the generated copy functions (a new variable behind a
  pointer, a new slice or map filled in a loop, the fields of a struct in turn) are proved correct
  once here.
\<close>

section \<open>The heap\<close>

type_synonym addr = nat

type_synonym 'c heap = "'c list"

definition alloc :: "'c \<Rightarrow> 'c heap \<Rightarrow> addr \<times> 'c heap" where
  "alloc c h = (length h, h @ [c])"

text \<open>The second heap has the same contents as the first at the given addresses.\<close>

definition unchanged :: "addr set \<Rightarrow> 'c heap \<Rightarrow> 'c heap \<Rightarrow> bool" where
  "unchanged A h h' \<longleftrightarrow> (\<forall>a \<in> A. a < length h' \<and> h' ! a = h ! a)"

definition extends :: "'c heap \<Rightarrow> 'c heap \<Rightarrow> bool" where
  "extends h h' \<longleftrightarrow> unchanged {..<length h} h h'"

lemma unchanged_mono: "unchanged A h h' \<Longrightarrow> B \<subseteq> A \<Longrightarrow> unchanged B h h'"
  by (auto simp: unchanged_def)

lemma unchanged_trans: "unchanged A h h' \<Longrightarrow> unchanged A h' h'' \<Longrightarrow> unchanged A h h''"
  by (simp add: unchanged_def)

lemma extends_refl [simp]: "extends h h"
  by (simp add: extends_def unchanged_def)

lemma extends_length: "extends h h' \<Longrightarrow> length h \<le> length h'"
  unfolding extends_def unchanged_def by (meson lessThan_iff not_le order_refl)

lemma extends_trans: "extends h h' \<Longrightarrow> extends h' h'' \<Longrightarrow> extends h h''"
  using extends_length unfolding extends_def
  by (metis lessThan_subset_iff unchanged_mono unchanged_trans)

lemma extends_alloc: "alloc c h = (b, h') \<Longrightarrow> extends h h'"
  by (auto simp: alloc_def extends_def unchanged_def nth_append)

section \<open>Values in memory\<close>

text \<open>
  The value of a piece of memory: \<open>view\<close> reads it (\<open>None\<close> if a reference dangles or the cell is of
  another type), \<open>foot\<close> is the set of cells it reaches, and nothing else matters to it.
\<close>

locale memory_view =
  fixes view :: "'c heap \<Rightarrow> 'm \<Rightarrow> 'v option"
    and foot :: "'c heap \<Rightarrow> 'm \<Rightarrow> addr set"
  assumes bounded: "view h x = Some v \<Longrightarrow> foot h x \<subseteq> {..<length h}"
    and local: "view h x = Some v \<Longrightarrow> unchanged (foot h x) h h' \<Longrightarrow>
      view h' x = Some v \<and> foot h' x = foot h x"
begin

lemma stays:
  assumes "view h x = Some v" and "extends h h'"
  shows "view h' x = Some v \<and> foot h' x = foot h x"
  using assms bounded [OF assms(1)] by (intro local) (auto simp: extends_def intro: unchanged_mono)

end

text \<open>
  A deep copy allocates but changes nothing that was there; the copy has the value of the original
  and reaches only cells that were not there before.
\<close>

locale deep_copier = memory_view view foot
  for view :: "'c heap \<Rightarrow> 'm \<Rightarrow> 'v option" and foot :: "'c heap \<Rightarrow> 'm \<Rightarrow> addr set" +
  fixes copy :: "'m \<Rightarrow> 'c heap \<Rightarrow> 'm \<times> 'c heap"
  assumes copies: "view h x = Some v \<Longrightarrow> copy x h = (y, h') \<Longrightarrow>
    extends h h' \<and> view h' y = Some v \<and> foot h' y \<inter> {..<length h} = {}"
begin

text \<open>Writing to the copy does not show in the original, nor the other way round.\<close>

lemma isolated:
  assumes v: "view h x = Some v" and run: "copy x h = (y, h')"
  shows "unchanged (- foot h' y \<inter> {..<length h'}) h' h'' \<Longrightarrow> view h'' x = Some v"
    and "unchanged (foot h' y) h' h'' \<Longrightarrow> view h'' y = Some v"
proof -
  note c = copies [OF v run]
  show "view h'' y = Some v" if "unchanged (foot h' y) h' h''"
    using local [OF _ that, of v] c by simp
  assume "unchanged (- foot h' y \<inter> {..<length h'}) h' h''"
  moreover have x: "view h' x = Some v" "foot h' x = foot h x"
    using stays [OF v conjunct1 [OF c]] by (rule conjunct1, rule conjunct2)
  then have "foot h' x \<subseteq> - foot h' y \<inter> {..<length h'}"
    using bounded [OF v] bounded [OF x(1)] c by auto
  ultimately show "view h'' x = Some v"
    using local [OF x(1)] unchanged_mono by blast
qed

end

section \<open>Values without references, structs\<close>

definition flat_view :: "'c heap \<Rightarrow> 'm \<Rightarrow> 'm option" where
  "flat_view h x = Some x"

definition flat_foot :: "'c heap \<Rightarrow> 'm \<Rightarrow> addr set" where
  "flat_foot h x = {}"

definition flat_copy :: "'m \<Rightarrow> 'c heap \<Rightarrow> 'm \<times> 'c heap" where
  "flat_copy x h = (x, h)"

interpretation flat: deep_copier flat_view flat_foot flat_copy
  by unfold_locales (auto simp: flat_view_def flat_foot_def flat_copy_def)

text \<open>Two parts, copied in turn.\<close>

definition both_view :: "('c heap \<Rightarrow> 'm \<Rightarrow> 'v option) \<Rightarrow> ('c heap \<Rightarrow> 'n \<Rightarrow> 'w option) \<Rightarrow> 'c heap \<Rightarrow> 'm \<times> 'n \<Rightarrow> ('v \<times> 'w) option" where
  "both_view V W h p = (case (V h (fst p), W h (snd p)) of (Some v, Some w) \<Rightarrow> Some (v, w) | _ \<Rightarrow> None)"

definition both_foot :: "('c heap \<Rightarrow> 'm \<Rightarrow> addr set) \<Rightarrow> ('c heap \<Rightarrow> 'n \<Rightarrow> addr set) \<Rightarrow> 'c heap \<Rightarrow> 'm \<times> 'n \<Rightarrow> addr set" where
  "both_foot F G h p = F h (fst p) \<union> G h (snd p)"

definition both_copy :: "('m \<Rightarrow> 'c heap \<Rightarrow> 'm \<times> 'c heap) \<Rightarrow> ('n \<Rightarrow> 'c heap \<Rightarrow> 'n \<times> 'c heap)
    \<Rightarrow> 'm \<times> 'n \<Rightarrow> 'c heap \<Rightarrow> ('m \<times> 'n) \<times> 'c heap" where
  "both_copy C D p h = (let (x, h1) = C (fst p) h; (y, h2) = D (snd p) h1 in ((x, y), h2))"

lemma both_view_Some:
  "both_view V W h p = Some u \<longleftrightarrow> V h (fst p) = Some (fst u) \<and> W h (snd p) = Some (snd u)"
  by (auto simp: both_view_def split: option.splits)

lemma deep_copier_both:
  assumes V: "deep_copier V F C" and W: "deep_copier W G D"
  shows "deep_copier (both_view V W) (both_foot F G) (both_copy C D)"
proof -
  note mV = deep_copier.axioms(1) [OF V] and mW = deep_copier.axioms(1) [OF W]
  show ?thesis
  proof
    fix h p u assume "both_view V W h p = Some u"
    then have v: "V h (fst p) = Some (fst u)" and w: "W h (snd p) = Some (snd u)" by (simp_all add: both_view_Some)
    show "both_foot F G h p \<subseteq> {..<length h}"
      using memory_view.bounded [OF mV v] memory_view.bounded [OF mW w] by (simp add: both_foot_def)
    show "both_view V W h' p = Some u \<and> both_foot F G h' p = both_foot F G h p"
      if "unchanged (both_foot F G h p) h h'" for h'
    proof -
      from that have "unchanged (F h (fst p)) h h'" "unchanged (G h (snd p)) h h'"
        by (auto simp: both_foot_def intro: unchanged_mono)
      then show ?thesis
        using memory_view.local [OF mV v] memory_view.local [OF mW w] by (simp add: both_view_Some both_foot_def)
    qed
    show "extends h h2 \<and> both_view V W h2 q = Some u \<and> both_foot F G h2 q \<inter> {..<length h} = {}"
      if run: "both_copy C D p h = (q, h2)" for q h2
    proof -
      obtain x h1 y where x: "C (fst p) h = (x, h1)" and y: "D (snd p) h1 = (y, h2)" and q: "q = (x, y)"
        using run by (auto simp: both_copy_def split: prod.splits)
      note c = deep_copier.copies [OF V v x]
      then have w1: "W h1 (snd p) = Some (snd u)" using memory_view.stays [OF mW w] by blast
      note d = deep_copier.copies [OF W w1 y]
      have "V h2 x = Some (fst u) \<and> F h2 x = F h1 x"
        using memory_view.stays [OF mV, of h1 x] c d by blast
      moreover have "{..<length h} \<subseteq> {..<length h1}" using extends_length c by auto
      moreover have "extends h h2" using extends_trans c d by blast
      ultimately show ?thesis
        using c d by (auto simp: q both_view_Some both_foot_def)
    qed
  qed
qed

text \<open>
  A struct whose reference fields are \<open>get s\<close>: it is copied as a whole and then the fields are
  replaced by their copies. Its value is the struct without these fields together with theirs.
\<close>

definition struct_view :: "('s \<Rightarrow> 'm) \<Rightarrow> ('m \<Rightarrow> 's \<Rightarrow> 's) \<Rightarrow> 'm \<Rightarrow> ('c heap \<Rightarrow> 'm \<Rightarrow> 'v option) \<Rightarrow> 'c heap \<Rightarrow> 's \<Rightarrow> ('s \<times> 'v) option" where
  "struct_view get put nil V h s = map_option (Pair (put nil s)) (V h (get s))"

definition struct_foot :: "('s \<Rightarrow> 'm) \<Rightarrow> ('c heap \<Rightarrow> 'm \<Rightarrow> addr set) \<Rightarrow> 'c heap \<Rightarrow> 's \<Rightarrow> addr set" where
  "struct_foot get F h s = F h (get s)"

definition struct_copy :: "('s \<Rightarrow> 'm) \<Rightarrow> ('m \<Rightarrow> 's \<Rightarrow> 's) \<Rightarrow> ('m \<Rightarrow> 'c heap \<Rightarrow> 'm \<times> 'c heap) \<Rightarrow> 's \<Rightarrow> 'c heap \<Rightarrow> 's \<times> 'c heap" where
  "struct_copy get put C s h = (let (m, h') = C (get s) h in (put m s, h'))"

lemma deep_copier_struct:
  assumes "deep_copier V F C" and get: "\<And>m s. get (put m s) = m" and put: "\<And>m m' s. put m' (put m s) = put m' s"
  shows "deep_copier (struct_view get put nil V) (struct_foot get F) (struct_copy get put C)"
proof -
  from assms(1) have view: "memory_view V F" by (rule deep_copier.axioms(1))
  show ?thesis
  proof
    fix h s u assume s: "struct_view get put nil V h s = Some u"
    then obtain v where v: "V h (get s) = Some v" and u: "u = (put nil s, v)" by (auto simp: struct_view_def)
    show "struct_foot get F h s \<subseteq> {..<length h}"
      unfolding struct_foot_def by (rule memory_view.bounded [OF view v])
    show "struct_view get put nil V h' s = Some u \<and> struct_foot get F h' s = struct_foot get F h s"
      if "unchanged (struct_foot get F h s) h h'" for h'
      using memory_view.local [OF view v that [unfolded struct_foot_def]]
      by (simp add: struct_view_def struct_foot_def u)
    fix t h' assume run: "struct_copy get put C s h = (t, h')"
    obtain m where m: "C (get s) h = (m, h')" and t: "t = put m s"
      using run by (auto simp: struct_copy_def split: prod.splits)
    from deep_copier.copies [OF assms(1) v m]
    show "extends h h' \<and> struct_view get put nil V h' t = Some u \<and> struct_foot get F h' t \<inter> {..<length h} = {}"
      by (simp add: struct_view_def struct_foot_def t u get put)
  qed
qed

section \<open>Containers\<close>

text \<open>
  A new container at address \<open>b\<close> filled in a loop: each element is copied and stored, so that after
  the elements \<open>ys\<close> the cell holds \<open>part ys\<close>.
\<close>

fun fill :: "('e \<Rightarrow> 'c heap \<Rightarrow> 'e \<times> 'c heap) \<Rightarrow> ('e list \<Rightarrow> 'c) \<Rightarrow> addr \<Rightarrow> 'e list \<Rightarrow> 'e list \<Rightarrow> 'c heap \<Rightarrow> 'c heap" where
  "fill C part b ys [] h = h"
| "fill C part b ys (x # xs) h = (let (y, h1) = C x h in fill C part b (ys @ [y]) xs (h1[b := part (ys @ [y])]))"

text \<open>
  A reference \<open>r\<close> that may be nil: \<open>addr_of r\<close> is the cell, \<open>un r\<close> the elements it refers to there
  (a slice refers to a window of its array), and \<open>ref b xs\<close> the reference to a new cell for \<open>xs\<close>.
\<close>

definition container_copy ::
  "('r \<Rightarrow> addr) \<Rightarrow> ('r \<Rightarrow> 'c \<Rightarrow> 'e list option) \<Rightarrow> ('e list \<Rightarrow> 'e list \<Rightarrow> 'c) \<Rightarrow> (addr \<Rightarrow> 'e list \<Rightarrow> 'r)
     \<Rightarrow> ('e \<Rightarrow> 'c heap \<Rightarrow> 'e \<times> 'c heap) \<Rightarrow> 'r option \<Rightarrow> 'c heap \<Rightarrow> 'r option \<times> 'c heap" where
  "container_copy addr_of un part ref C p h =
     (case p of
        None \<Rightarrow> (None, h)
      | Some r \<Rightarrow>
          let xs = the (un r (h ! addr_of r)); (b, h1) = alloc (part xs []) h
          in (Some (ref b xs), fill C (part xs) b [] xs h1))"

definition container_view ::
  "('r \<Rightarrow> addr) \<Rightarrow> ('r \<Rightarrow> 'c \<Rightarrow> 'e list option) \<Rightarrow> ('v list \<Rightarrow> 'w)
     \<Rightarrow> ('c heap \<Rightarrow> 'e \<Rightarrow> 'v option) \<Rightarrow> 'c heap \<Rightarrow> 'r option \<Rightarrow> 'w option option" where
  "container_view addr_of un wrap V h p =
     (case p of
        None \<Rightarrow> Some None
      | Some r \<Rightarrow>
          if addr_of r < length h
          then (case un r (h ! addr_of r) of
                  None \<Rightarrow> None
                | Some xs \<Rightarrow> map_option (\<lambda>vs. Some (wrap vs)) (those (map (V h) xs)))
          else None)"

definition container_foot ::
  "('r \<Rightarrow> addr) \<Rightarrow> ('r \<Rightarrow> 'c \<Rightarrow> 'e list option) \<Rightarrow> ('c heap \<Rightarrow> 'e \<Rightarrow> addr set) \<Rightarrow> 'c heap \<Rightarrow> 'r option \<Rightarrow> addr set" where
  "container_foot addr_of un F h p =
     (case p of
        None \<Rightarrow> {}
      | Some r \<Rightarrow> insert (addr_of r) (\<Union> (F h ` set (the (un r (h ! addr_of r))))))"

lemma those_Some: "those xs = Some ys \<longleftrightarrow> xs = map Some ys"
  by (induction xs arbitrary: ys) (auto simp: Cons_eq_map_conv split: option.splits)

lemma map_Some_each: "map f xs = map Some vs \<Longrightarrow> x \<in> set xs \<Longrightarrow> \<exists>v. f x = Some v"
  by (induction xs arbitrary: vs) (auto simp: Cons_eq_map_conv)

lemma map_related: "list_all2 (\<lambda>x z. g z = f x) xs zs \<Longrightarrow> map g zs = map f xs"
  by (induction rule: list_all2_induct) simp_all

context deep_copier
begin

lemma fill_copies:
  assumes "b < length h" and "\<forall>x \<in> set xs. \<exists>v. view h x = Some v \<and> b \<notin> foot h x"
    and "fill copy part b ys xs h = h'"
  shows "unchanged ({..<length h} - {b}) h h' \<and> length h \<le> length h' \<and>
    (\<exists>zs. list_all2 (\<lambda>x z. view h' z = view h x \<and> foot h' z \<inter> {..<length h} = {}) xs zs \<and>
       h' ! b = (if xs = [] then h ! b else part (ys @ zs)))"
  using assms
proof (induction xs arbitrary: ys h)
  case Nil
  then show ?case by (auto simp: unchanged_def)
next
  case (Cons x xs)
  obtain v where v: "view h x = Some v" using Cons.prems(2) by auto
  obtain y h1 where y: "copy x h = (y, h1)" by fastforce
  let ?h2 = "h1[b := part (ys @ [y])]"
  note c = copies [OF v y]
  have len: "length h \<le> length h1" using extends_length c by blast
  have h2: "unchanged ({..<length h} - {b}) h ?h2"
    using c by (auto simp: extends_def unchanged_def)
  have old: "view ?h2 z = view h z" "foot ?h2 z = foot h z" "\<exists>w. view ?h2 z = Some w \<and> b \<notin> foot ?h2 z"
    if "z \<in> set xs" for z
  proof -
    obtain w where w: "view h z = Some w" "b \<notin> foot h z" using Cons.prems(2) \<open>z \<in> set xs\<close> by force
    then have "unchanged (foot h z) h ?h2"
      using bounded [OF w(1)] by (intro unchanged_mono [OF h2]) auto
    from local [OF w(1) this] w show "view ?h2 z = view h z" "foot ?h2 z = foot h z"
      "\<exists>w. view ?h2 z = Some w \<and> b \<notin> foot ?h2 z" by simp_all
  qed
  have "fill copy part b (ys @ [y]) xs ?h2 = h'" using Cons.prems(3) y by simp
  from Cons.IH [OF _ _ this] old(3) Cons.prems(1) len obtain zs
    where u: "unchanged ({..<length ?h2} - {b}) ?h2 h'" "length ?h2 \<le> length h'"
      and zs: "list_all2 (\<lambda>x z. view h' z = view ?h2 x \<and> foot h' z \<inter> {..<length ?h2} = {}) xs zs"
      and b: "h' ! b = (if xs = [] then ?h2 ! b else part (ys @ [y] @ zs))"
    by auto
  have "unchanged (foot h1 y) h1 h'"
    using bounded [of h1 y v] c u Cons.prems(1) by (fastforce simp: unchanged_def)
  then have "view h' y = Some v \<and> foot h' y = foot h1 y" using local c by blast
  moreover have "list_all2 (\<lambda>x z. view h' z = view h x \<and> foot h' z \<inter> {..<length h} = {}) xs zs"
    using zs
  proof (rule list.rel_mono_strong)
    fix x z assume x: "x \<in> set xs" and z: "view h' z = view ?h2 x \<and> foot h' z \<inter> {..<length ?h2} = {}"
    from z len have "foot h' z \<inter> {..<length h} = {}" by fastforce
    with z show "view h' z = view h x \<and> foot h' z \<inter> {..<length h} = {}" by (simp add: old(1) [OF x])
  qed
  moreover have "unchanged ({..<length h} - {b}) h h'"
    using h2 u len by (auto simp: unchanged_def)
  moreover have "h' ! b = part (ys @ (y # zs))"
    using b zs Cons.prems(1) len by (auto split: if_splits)
  ultimately show ?case
    using v c u len by (intro conjI exI [of _ "y # zs"]) auto
qed

lemma container_bounded:
  assumes "container_view addr_of un wrap view h p = Some u"
  shows "container_foot addr_of un foot h p \<subseteq> {..<length h}"
proof (cases p)
  case (Some r)
  with assms obtain xs vs where "addr_of r < length h" "un r (h ! addr_of r) = Some xs" "map (view h) xs = map Some vs"
    by (auto simp: container_view_def those_Some split: if_splits option.splits)
  moreover have "foot h x \<subseteq> {..<length h}" if x: "x \<in> set xs" for x
  proof -
    obtain v where "view h x = Some v" using map_Some_each [OF calculation(3) x] by blast
    then show ?thesis by (rule bounded)
  qed
  ultimately show ?thesis by (auto simp: container_foot_def Some)
qed (simp add: container_foot_def)

lemma container_local:
  assumes p: "container_view addr_of un wrap view h p = Some u"
    and same: "unchanged (container_foot addr_of un foot h p) h h'"
  shows "container_view addr_of un wrap view h' p = Some u \<and>
    container_foot addr_of un foot h' p = container_foot addr_of un foot h p"
proof (cases p)
  case (Some r)
  with p obtain xs vs where xs: "addr_of r < length h" "un r (h ! addr_of r) = Some xs" "map (view h) xs = map Some vs"
    by (auto simp: container_view_def those_Some split: if_splits option.splits)
  have r: "addr_of r < length h' \<and> h' ! addr_of r = h ! addr_of r"
    using same by (simp add: container_foot_def Some unchanged_def)
  have each: "view h' x = view h x \<and> foot h' x = foot h x" if x: "x \<in> set xs" for x
  proof -
    obtain v where v: "view h x = Some v" using map_Some_each [OF xs(3) x] by blast
    have "unchanged (foot h x) h h'"
      using same x by (rule_tac unchanged_mono) (auto simp: container_foot_def Some xs(2))
    from local [OF v this] v show ?thesis by simp
  qed
  then have "map (view h') xs = map (view h) xs" by simp
  moreover have "(\<Union>x \<in> set xs. foot h' x) = (\<Union>x \<in> set xs. foot h x)" using each by simp
  ultimately show ?thesis using r xs p by (simp add: container_view_def container_foot_def Some)
qed (use p in \<open>simp add: container_view_def container_foot_def\<close>)

lemma deep_copier_container:
  assumes ref: "\<And>b xs. addr_of (ref b xs) = b"
    and part: "\<And>r c xs ys b h h'. un r c = Some xs \<Longrightarrow>
      list_all2 (\<lambda>x y. view h x \<noteq> None \<and> view h' y = view h x) xs ys \<Longrightarrow> un (ref b xs) (part xs ys) = Some ys"
  shows "deep_copier (container_view addr_of un wrap view) (container_foot addr_of un foot)
    (container_copy addr_of un part ref copy)"
proof
  fix h p u assume p: "container_view addr_of un wrap view h p = Some u"
  show "container_foot addr_of un foot h p \<subseteq> {..<length h}" by (rule container_bounded [OF p])
  show "container_view addr_of un wrap view h' p = Some u \<and>
      container_foot addr_of un foot h' p = container_foot addr_of un foot h p"
    if "unchanged (container_foot addr_of un foot h p) h h'" for h'
    by (rule container_local [OF p that])
  fix q h' assume run: "container_copy addr_of un part ref copy p h = (q, h')"
  show "extends h h' \<and> container_view addr_of un wrap view h' q = Some u \<and>
      container_foot addr_of un foot h' q \<inter> {..<length h} = {}"
  proof (cases p)
    case None
    with p run show ?thesis by (auto simp: container_view_def container_foot_def container_copy_def)
  next
    case (Some r)
    with p obtain xs vs where xs: "un r (h ! addr_of r) = Some xs" "map (view h) xs = map Some vs"
      and u: "u = Some (wrap vs)"
      by (auto simp: container_view_def those_Some split: if_splits option.splits)
    let ?b = "length h" and ?h1 = "h @ [part xs []]"
    have q: "q = Some (ref ?b xs)" and run: "fill copy (part xs) ?b [] xs ?h1 = h'"
      using run by (simp_all add: container_copy_def Some xs alloc_def)
    have ext: "extends h ?h1" by (rule extends_alloc [of "part xs []"]) (simp add: alloc_def)
    have each: "\<exists>v. view h x = Some v \<and> view ?h1 x = Some v \<and> ?b \<notin> foot ?h1 x" if x: "x \<in> set xs" for x
    proof -
      obtain v where v: "view h x = Some v" using map_Some_each [OF xs(2) x] by blast
      with stays [OF v ext] bounded [OF v] show ?thesis by auto
    qed
    then have pre: "\<forall>x \<in> set xs. \<exists>v. view ?h1 x = Some v \<and> ?b \<notin> foot ?h1 x" by blast
    obtain zs where u': "unchanged ({..<length ?h1} - {?b}) ?h1 h'" "length ?h1 \<le> length h'"
      and zs: "list_all2 (\<lambda>x z. view h' z = view ?h1 x \<and> foot h' z \<inter> {..<length ?h1} = {}) xs zs"
      and b: "h' ! ?b = (if xs = [] then ?h1 ! ?b else part xs ([] @ zs))"
      using fill_copies [OF _ pre run] by auto
    have b: "h' ! ?b = part xs zs" using b zs by (auto split: if_splits)
    have zs': "list_all2 (\<lambda>x z. view h x \<noteq> None \<and> view h' z = view h x) xs zs"
      using zs by (rule list.rel_mono_strong) (use each in force)
    have "map (view h') zs = map Some vs"
      using map_related [of "view h'" "view h" xs zs] list.rel_mono_strong [OF zs'] xs(2) by auto
    moreover have "extends h h'"
      using u' by (auto simp: extends_def unchanged_def nth_append)
    moreover have "foot h' z \<inter> {..<length h} = {}" if "z \<in> set zs" for z
      using that zs by (fastforce simp: list_all2_conv_all_nth in_set_conv_nth)
    ultimately show ?thesis
      using part [OF xs(1) zs'] u' b by (auto simp: container_view_def container_foot_def q ref u those_Some)
  qed
qed

end

section \<open>Pointers\<close>

text \<open>
  A pointer to a variable: a container of one element. The generated code makes the new variable
  first (\<open>init\<close> is what it holds until the copy is stored).
\<close>

definition pointee :: "('c \<Rightarrow> 'm option) \<Rightarrow> addr \<Rightarrow> 'c \<Rightarrow> 'm list option" where
  "pointee un a c = map_option (\<lambda>x. [x]) (un c)"

abbreviation ptr_view :: "('c \<Rightarrow> 'm option) \<Rightarrow> ('c heap \<Rightarrow> 'm \<Rightarrow> 'v option) \<Rightarrow> 'c heap \<Rightarrow> addr option \<Rightarrow> 'v option option" where
  "ptr_view un \<equiv> container_view (\<lambda>a. a) (pointee un) hd"

abbreviation ptr_foot :: "('c \<Rightarrow> 'm option) \<Rightarrow> ('c heap \<Rightarrow> 'm \<Rightarrow> addr set) \<Rightarrow> 'c heap \<Rightarrow> addr option \<Rightarrow> addr set" where
  "ptr_foot un \<equiv> container_foot (\<lambda>a. a) (pointee un)"

definition ptr_copy ::
  "('m \<Rightarrow> 'c) \<Rightarrow> ('c \<Rightarrow> 'm option) \<Rightarrow> ('m \<Rightarrow> 'm) \<Rightarrow> ('m \<Rightarrow> 'c heap \<Rightarrow> 'm \<times> 'c heap)
     \<Rightarrow> addr option \<Rightarrow> 'c heap \<Rightarrow> addr option \<times> 'c heap" where
  "ptr_copy mk un init C p h =
     (case p of
        None \<Rightarrow> (None, h)
      | Some a \<Rightarrow>
          let x = the (un (h ! a)); (b, h1) = alloc (mk (init x)) h; (y, h2) = C x h1
          in (Some b, h2[b := mk y]))"

definition variable :: "('m \<Rightarrow> 'c) \<Rightarrow> ('m \<Rightarrow> 'm) \<Rightarrow> 'm list \<Rightarrow> 'm list \<Rightarrow> 'c" where
  "variable mk init xs ys = (case ys of [] \<Rightarrow> mk (init (hd xs)) | y # _ \<Rightarrow> mk y)"

lemma ptr_copy_container:
  assumes "ptr_view un V h p = Some u"
  shows "ptr_copy mk un init C p h =
    container_copy (\<lambda>a. a) (pointee un) (variable mk init) (\<lambda>b _. b) C p h"
  using assms
  by (auto simp: ptr_copy_def container_copy_def container_view_def pointee_def variable_def alloc_def
      split: option.splits if_splits prod.splits)

lemma deep_copier_cong:
  assumes "deep_copier V F C" and "\<And>h x v. V h x = Some v \<Longrightarrow> D x h = C x h"
  shows "deep_copier V F D"
  using assms unfolding deep_copier_def deep_copier_axioms_def by metis

lemma deep_copier_ptr:
  assumes "deep_copier V F C" and un: "\<And>x. un (mk x) = Some x"
  shows "deep_copier (ptr_view un V) (ptr_foot un F) (ptr_copy mk un init C)"
proof (rule deep_copier_cong [OF _ ptr_copy_container])
  show "deep_copier (ptr_view un V) (ptr_foot un F)
      (container_copy (\<lambda>a. a) (pointee un) (variable mk init) (\<lambda>b _. b) C)"
  proof (rule deep_copier.deep_copier_container [OF assms(1)])
    fix r c xs ys b h h'
    assume "pointee un r c = Some xs" and "list_all2 (\<lambda>x y. V h x \<noteq> None \<and> V h' y = V h x) xs ys"
    then obtain y where "ys = [y]" by (auto simp: pointee_def list_all2_Cons1)
    then show "pointee un b (variable mk init xs ys) = Some ys"
      by (simp add: pointee_def variable_def un)
  qed simp
qed

section \<open>Slices and maps\<close>

text \<open>
  A slice is a window of an array; the copy gets an array of its own, of the length of the window.
  \<open>arr\<close> makes the cell of an array and \<open>un\<close> reads it back; \<open>z\<close> is the zero value \<^verbatim>\<open>make\<close> fills it with.
\<close>

record GoSlice =
  SliceArray :: addr
  SliceOffset :: nat
  SliceLen :: nat

definition window :: "('c \<Rightarrow> 'e list option) \<Rightarrow> GoSlice \<Rightarrow> 'c \<Rightarrow> 'e list option" where
  "window un s c = (case un c of
      None \<Rightarrow> None
    | Some xs \<Rightarrow> if SliceOffset s + SliceLen s \<le> length xs
                then Some (take (SliceLen s) (drop (SliceOffset s) xs)) else None)"

definition whole :: "addr \<Rightarrow> 'e list \<Rightarrow> GoSlice" where
  "whole b xs = \<lparr>SliceArray = b, SliceOffset = 0, SliceLen = length xs\<rparr>"

definition zeroed :: "('e list \<Rightarrow> 'c) \<Rightarrow> 'e \<Rightarrow> 'e list \<Rightarrow> 'e list \<Rightarrow> 'c" where
  "zeroed arr z xs ys = arr (ys @ replicate (length xs - length ys) z)"

abbreviation slice_view :: "('c \<Rightarrow> 'e list option) \<Rightarrow> ('c heap \<Rightarrow> 'e \<Rightarrow> 'v option) \<Rightarrow> 'c heap \<Rightarrow> GoSlice option \<Rightarrow> 'v list option option" where
  "slice_view un \<equiv> container_view SliceArray (window un) (\<lambda>vs. vs)"

abbreviation slice_foot :: "('c \<Rightarrow> 'e list option) \<Rightarrow> ('c heap \<Rightarrow> 'e \<Rightarrow> addr set) \<Rightarrow> 'c heap \<Rightarrow> GoSlice option \<Rightarrow> addr set" where
  "slice_foot un \<equiv> container_foot SliceArray (window un)"

definition slice_copy :: "('e list \<Rightarrow> 'c) \<Rightarrow> ('c \<Rightarrow> 'e list option) \<Rightarrow> 'e \<Rightarrow> ('e \<Rightarrow> 'c heap \<Rightarrow> 'e \<times> 'c heap)
    \<Rightarrow> GoSlice option \<Rightarrow> 'c heap \<Rightarrow> GoSlice option \<times> 'c heap" where
  "slice_copy arr un z = container_copy SliceArray (window un) (zeroed arr z) whole"

lemma deep_copier_slice:
  assumes "deep_copier V F C" and un: "\<And>xs. un (arr xs) = Some xs"
  shows "deep_copier (slice_view un V) (slice_foot un F) (slice_copy arr un z C)"
  unfolding slice_copy_def
proof (rule deep_copier.deep_copier_container [OF assms(1)])
  fix r c xs ys b h h'
  assume "list_all2 (\<lambda>x y. V h x \<noteq> None \<and> V h' y = V h x) xs ys"
  then have "length ys = length xs" by (simp add: list_all2_lengthD)
  then show "window un (whole b xs) (zeroed arr z xs ys) = Some ys"
    by (simp add: window_def whole_def zeroed_def un)
qed (simp add: whole_def)

text \<open>
  A map is a list of entries with distinct keys, in the order in which \<^verbatim>\<open>range\<close> happens to deliver
  them; its value is the function. The loop stores each entry under its key.
\<close>

definition entries :: "('c \<Rightarrow> ('k \<times> 'e) list option) \<Rightarrow> addr \<Rightarrow> 'c \<Rightarrow> ('k \<times> 'e) list option" where
  "entries un a c = (case un c of None \<Rightarrow> None | Some kvs \<Rightarrow> if distinct (map fst kvs) then Some kvs else None)"

definition stored :: "(('k \<times> 'e) list \<Rightarrow> 'c) \<Rightarrow> ('k \<times> 'e) list \<Rightarrow> ('k \<times> 'e) list \<Rightarrow> 'c" where
  "stored mk xs ys = mk (fold (\<lambda>(k, v). AList.update k v) ys [])"

abbreviation map_view :: "('c \<Rightarrow> ('k \<times> 'e) list option) \<Rightarrow> ('c heap \<Rightarrow> 'e \<Rightarrow> 'v option) \<Rightarrow> 'c heap \<Rightarrow> addr option \<Rightarrow> ('k \<rightharpoonup> 'v) option option" where
  "map_view un V \<equiv> container_view (\<lambda>a. a) (entries un) map_of (both_view flat_view V)"

abbreviation map_foot :: "('c \<Rightarrow> ('k \<times> 'e) list option) \<Rightarrow> ('c heap \<Rightarrow> 'e \<Rightarrow> addr set) \<Rightarrow> 'c heap \<Rightarrow> addr option \<Rightarrow> addr set" where
  "map_foot un F \<equiv> container_foot (\<lambda>a. a) (entries un) (both_foot flat_foot F)"

definition map_copy :: "(('k \<times> 'e) list \<Rightarrow> 'c) \<Rightarrow> ('c \<Rightarrow> ('k \<times> 'e) list option) \<Rightarrow> ('e \<Rightarrow> 'c heap \<Rightarrow> 'e \<times> 'c heap)
    \<Rightarrow> addr option \<Rightarrow> 'c heap \<Rightarrow> addr option \<times> 'c heap" where
  "map_copy mk un C = container_copy (\<lambda>a. a) (entries un) (stored mk) (\<lambda>b _. b) (both_copy flat_copy C)"

lemma update_appends: "k \<notin> fst ` set kvs \<Longrightarrow> AList.update k v kvs = kvs @ [(k, v)]"
  by (induction kvs) auto

lemma fold_update_distinct:
  "distinct (map fst (acc @ kvs)) \<Longrightarrow> fold (\<lambda>(k, v). AList.update k v) kvs acc = acc @ kvs"
  by (induction kvs arbitrary: acc) (auto simp: update_appends)

lemma deep_copier_map:
  assumes "deep_copier V F C" and un: "\<And>kvs. un (mk kvs) = Some kvs"
  shows "deep_copier (map_view un V) (map_foot un F) (map_copy mk un C)"
  unfolding map_copy_def
proof (rule deep_copier.deep_copier_container [OF deep_copier_both [OF flat.deep_copier_axioms assms(1)]])
  fix r c xs ys b h h'
  assume "entries un r c = Some xs"
  then have "distinct (map fst xs)" by (auto simp: entries_def split: option.splits if_splits)
  moreover assume "list_all2 (\<lambda>x y. both_view flat_view V h x \<noteq> None \<and>
    both_view flat_view V h' y = both_view flat_view V h x) xs ys"
  then have "map fst ys = map fst xs"
    by (intro map_related, elim list.rel_mono_strong) (auto simp: both_view_def flat_view_def split: option.splits)
  ultimately show "entries un b (stored mk xs ys) = Some ys"
    using fold_update_distinct [of "[]" ys] by (simp add: entries_def stored_def un)
qed simp

end
