(* ===== verification/DeepCopy.thy ===== *)
theory DeepCopy
  imports GoHeap ApiWebhook
begin

text \<open>
  \<^verbatim>\<open>api/v1beta1/zz_generated.deepcopy.go\<close>: the deep copies of the API types, on the structs as they
  lie in memory (pointers, slices and maps are references into the heap of the theory \<open>GoHeap\<close>). The
  caches of the API machinery hand out shared objects; the copies are what keeps a reconcile from
  writing into them.
\<close>

section \<open>The structs in memory\<close>

text \<open>A struct of another package: its fields without references, and the references it holds.\<close>

record libmem =
  LibFlat :: opaque
  LibRefs :: "addr list"

datatype libkind =
    ObjectMeta | ListMeta | ResourceRequirements | RoutedOverride | TLSAPIService | TLSGenericService
  | ConditionStruct | StorageVolMounts

record APIOverrideSpecMem =
  oService :: "addr option"

record AuthSpecMem =
  uApplicationCredentialSecret :: string

record PasswordSelectorMem =
  pService :: string

record NeutronExtraVolMountsMem =
  xName :: string
  xRegion :: string
  xVolMounts :: "GoSlice option"

record NeutronApiTLSMem =
  tAPI :: libmem
  tCaBundleSecretName :: string
  tOvn :: libmem

record NeutronAPISpecCoreMem =
  cAPITimeout :: int
  cServiceUser :: string
  cDatabaseInstance :: string
  cDatabaseAccount :: string
  cRabbitMqClusterName :: string
  cMessagingBus :: RabbitMqConfig
  cNotificationsBus :: "addr option"
  cMemcachedInstance :: string
  cReplicas :: "addr option"
  cSecret :: string
  cPasswordSelectors :: PasswordSelectorMem
  cNodeSelector :: "addr option"
  cPreserveJobs :: bool
  cCorePlugin :: string
  cMl2MechanismDrivers :: "GoSlice option"
  cCustomServiceConfig :: string
  cDefaultConfigOverwrite :: "addr option"
  cResources :: libmem
  cNetworkAttachments :: "GoSlice option"
  cExtraMounts :: "GoSlice option"
  cOverride :: APIOverrideSpecMem
  cTLS :: NeutronApiTLSMem
  cAuth :: AuthSpecMem
  cTopologyRef :: "addr option"
  cNotificationsBusInstance :: "addr option"

record NeutronAPISpecMem =
  sCore :: NeutronAPISpecCoreMem
  sContainerImage :: string

record NeutronAPIStatusMem =
  zReadyCount :: int
  zHash :: "addr option"
  zConditions :: "GoSlice option"
  zDatabaseHostname :: string
  zTransportURLSecret :: string
  zNetworkAttachments :: "addr option"
  zApplicationCredentialSecret :: string
  zObservedGeneration :: int
  zLastAppliedTopology :: "addr option"
  zNotificationsTransportURLSecret :: "addr option"
  zRPCReadyCount :: int
  zWorkerReadyCount :: int

record NeutronAPIMem =
  iTypeMeta :: "string \<times> string"
  iObjectMeta :: libmem
  iSpec :: NeutronAPISpecMem
  iStatus :: NeutronAPIStatusMem

record NeutronAPIListMem =
  lTypeMeta :: "string \<times> string"
  lListMeta :: libmem
  lItems :: "GoSlice option"

text \<open>What a cell can hold: a variable, a map, or the array behind a slice.\<close>

datatype cell =
    StrVar string
  | IntVar int
  | BusVar RabbitMqConfig
  | TopoVar TopoRef
  | MapVar "addr option"
  | StrMap "(string \<times> string) list"
  | SlicesMap "(string \<times> GoSlice option) list"
  | OverrideMap "(endpoint \<times> libmem) list"
  | StrArray "string list"
  | LibArray "libmem list"
  | ExtraArray "NeutronExtraVolMountsMem list"
  | ItemArray "NeutronAPIMem list"
  | LibVar opaque
  | OverrideVar APIOverrideSpecMem
  | AuthVar AuthSpecMem
  | PasswordVar PasswordSelectorMem
  | ExtraVar NeutronExtraVolMountsMem
  | TLSVar NeutronApiTLSMem
  | CoreVar NeutronAPISpecCoreMem
  | SpecVar NeutronAPISpecMem
  | StatusVar NeutronAPIStatusMem
  | APIVar NeutronAPIMem
  | ListVar NeutronAPIListMem
  | DefaultsVar NeutronAPIDefaults

text \<open>Reading a cell as one of these; \<open>None\<close> if it is another.\<close>

definition un_StrVar :: "cell \<Rightarrow> (string) option" where
  "un_StrVar c = (case c of StrVar x \<Rightarrow> Some x | _ \<Rightarrow> None)"

definition un_IntVar :: "cell \<Rightarrow> (int) option" where
  "un_IntVar c = (case c of IntVar x \<Rightarrow> Some x | _ \<Rightarrow> None)"

definition un_BusVar :: "cell \<Rightarrow> (RabbitMqConfig) option" where
  "un_BusVar c = (case c of BusVar x \<Rightarrow> Some x | _ \<Rightarrow> None)"

definition un_TopoVar :: "cell \<Rightarrow> (TopoRef) option" where
  "un_TopoVar c = (case c of TopoVar x \<Rightarrow> Some x | _ \<Rightarrow> None)"

definition un_MapVar :: "cell \<Rightarrow> (addr option) option" where
  "un_MapVar c = (case c of MapVar x \<Rightarrow> Some x | _ \<Rightarrow> None)"

definition un_StrMap :: "cell \<Rightarrow> ((string \<times> string) list) option" where
  "un_StrMap c = (case c of StrMap x \<Rightarrow> Some x | _ \<Rightarrow> None)"

definition un_SlicesMap :: "cell \<Rightarrow> ((string \<times> GoSlice option) list) option" where
  "un_SlicesMap c = (case c of SlicesMap x \<Rightarrow> Some x | _ \<Rightarrow> None)"

definition un_OverrideMap :: "cell \<Rightarrow> ((endpoint \<times> libmem) list) option" where
  "un_OverrideMap c = (case c of OverrideMap x \<Rightarrow> Some x | _ \<Rightarrow> None)"

definition un_StrArray :: "cell \<Rightarrow> (string list) option" where
  "un_StrArray c = (case c of StrArray x \<Rightarrow> Some x | _ \<Rightarrow> None)"

definition un_LibArray :: "cell \<Rightarrow> (libmem list) option" where
  "un_LibArray c = (case c of LibArray x \<Rightarrow> Some x | _ \<Rightarrow> None)"

definition un_ExtraArray :: "cell \<Rightarrow> (NeutronExtraVolMountsMem list) option" where
  "un_ExtraArray c = (case c of ExtraArray x \<Rightarrow> Some x | _ \<Rightarrow> None)"

definition un_ItemArray :: "cell \<Rightarrow> (NeutronAPIMem list) option" where
  "un_ItemArray c = (case c of ItemArray x \<Rightarrow> Some x | _ \<Rightarrow> None)"

definition un_LibVar :: "cell \<Rightarrow> (opaque) option" where
  "un_LibVar c = (case c of LibVar x \<Rightarrow> Some x | _ \<Rightarrow> None)"

definition un_OverrideVar :: "cell \<Rightarrow> (APIOverrideSpecMem) option" where
  "un_OverrideVar c = (case c of OverrideVar x \<Rightarrow> Some x | _ \<Rightarrow> None)"

definition un_AuthVar :: "cell \<Rightarrow> (AuthSpecMem) option" where
  "un_AuthVar c = (case c of AuthVar x \<Rightarrow> Some x | _ \<Rightarrow> None)"

definition un_PasswordVar :: "cell \<Rightarrow> (PasswordSelectorMem) option" where
  "un_PasswordVar c = (case c of PasswordVar x \<Rightarrow> Some x | _ \<Rightarrow> None)"

definition un_ExtraVar :: "cell \<Rightarrow> (NeutronExtraVolMountsMem) option" where
  "un_ExtraVar c = (case c of ExtraVar x \<Rightarrow> Some x | _ \<Rightarrow> None)"

definition un_TLSVar :: "cell \<Rightarrow> (NeutronApiTLSMem) option" where
  "un_TLSVar c = (case c of TLSVar x \<Rightarrow> Some x | _ \<Rightarrow> None)"

definition un_CoreVar :: "cell \<Rightarrow> (NeutronAPISpecCoreMem) option" where
  "un_CoreVar c = (case c of CoreVar x \<Rightarrow> Some x | _ \<Rightarrow> None)"

definition un_SpecVar :: "cell \<Rightarrow> (NeutronAPISpecMem) option" where
  "un_SpecVar c = (case c of SpecVar x \<Rightarrow> Some x | _ \<Rightarrow> None)"

definition un_StatusVar :: "cell \<Rightarrow> (NeutronAPIStatusMem) option" where
  "un_StatusVar c = (case c of StatusVar x \<Rightarrow> Some x | _ \<Rightarrow> None)"

definition un_APIVar :: "cell \<Rightarrow> (NeutronAPIMem) option" where
  "un_APIVar c = (case c of APIVar x \<Rightarrow> Some x | _ \<Rightarrow> None)"

definition un_ListVar :: "cell \<Rightarrow> (NeutronAPIListMem) option" where
  "un_ListVar c = (case c of ListVar x \<Rightarrow> Some x | _ \<Rightarrow> None)"

definition un_DefaultsVar :: "cell \<Rightarrow> (NeutronAPIDefaults) option" where
  "un_DefaultsVar c = (case c of DefaultsVar x \<Rightarrow> Some x | _ \<Rightarrow> None)"

lemma un_cells [simp]:
  "un_StrVar (StrVar v0) = Some v0"
  "un_IntVar (IntVar v1) = Some v1"
  "un_BusVar (BusVar v2) = Some v2"
  "un_TopoVar (TopoVar v3) = Some v3"
  "un_MapVar (MapVar v4) = Some v4"
  "un_StrMap (StrMap v5) = Some v5"
  "un_SlicesMap (SlicesMap v6) = Some v6"
  "un_OverrideMap (OverrideMap v7) = Some v7"
  "un_StrArray (StrArray v8) = Some v8"
  "un_LibArray (LibArray v9) = Some v9"
  "un_ExtraArray (ExtraArray v10) = Some v10"
  "un_ItemArray (ItemArray v11) = Some v11"
  "un_LibVar (LibVar v12) = Some v12"
  "un_OverrideVar (OverrideVar v13) = Some v13"
  "un_AuthVar (AuthVar v14) = Some v14"
  "un_PasswordVar (PasswordVar v15) = Some v15"
  "un_ExtraVar (ExtraVar v16) = Some v16"
  "un_TLSVar (TLSVar v17) = Some v17"
  "un_CoreVar (CoreVar v18) = Some v18"
  "un_SpecVar (SpecVar v19) = Some v19"
  "un_StatusVar (StatusVar v20) = Some v20"
  "un_APIVar (APIVar v21) = Some v21"
  "un_ListVar (ListVar v22) = Some v22"
  "un_DefaultsVar (DefaultsVar v23) = Some v23"
  by (simp_all add: un_StrVar_def un_IntVar_def un_BusVar_def un_TopoVar_def un_MapVar_def un_StrMap_def
      un_SlicesMap_def un_OverrideMap_def un_StrArray_def un_LibArray_def un_ExtraArray_def
      un_ItemArray_def un_LibVar_def un_OverrideVar_def un_AuthVar_def un_PasswordVar_def
      un_ExtraVar_def un_TLSVar_def un_CoreVar_def un_SpecVar_def un_StatusVar_def un_APIVar_def
      un_ListVar_def un_DefaultsVar_def)

section \<open>Deep copies of other packages\<close>

text \<open>
  The copy functions of the structs of other packages are a parameter, with what they promise: they
  are deep copies themselves. \<open>LView\<close> and \<open>LFoot\<close> are the value of such a struct and its cells.
\<close>

record 'v copylib =
  LCopy :: "libkind \<Rightarrow> libmem \<Rightarrow> cell heap \<Rightarrow> libmem \<times> cell heap"
  LView :: "libkind \<Rightarrow> cell heap \<Rightarrow> libmem \<Rightarrow> 'v option"
  LFoot :: "libkind \<Rightarrow> cell heap \<Rightarrow> libmem \<Rightarrow> addr set"

definition copylib_laws :: "'v copylib \<Rightarrow> bool" where
  "copylib_laws L \<longleftrightarrow> (\<forall>k. deep_copier (LView L k) (LFoot L k) (LCopy L k))"

section \<open>The generated functions\<close>

text \<open>
  \<^verbatim>\<open>DeepCopyInto\<close> gives what it writes to \<^verbatim>\<open>*out\<close>; it starts from \<^verbatim>\<open>*out = *in\<close> and replaces the
  fields that hold references, in the order of the source.
\<close>

abbreviation copy_strings :: "GoSlice option \<Rightarrow> cell heap \<Rightarrow> GoSlice option \<times> cell heap" where
  "copy_strings \<equiv> slice_copy StrArray un_StrArray [] flat_copy"

abbreviation copy_string_map :: "addr option \<Rightarrow> cell heap \<Rightarrow> addr option \<times> cell heap" where
  "copy_string_map \<equiv> map_copy StrMap un_StrMap flat_copy"

abbreviation copy_string_ptr :: "addr option \<Rightarrow> cell heap \<Rightarrow> addr option \<times> cell heap" where
  "copy_string_ptr \<equiv> ptr_copy StrVar un_StrVar (\<lambda>_. []) flat_copy"

abbreviation copy_topo_ptr :: "addr option \<Rightarrow> cell heap \<Rightarrow> addr option \<times> cell heap" where
  "copy_topo_ptr \<equiv> ptr_copy TopoVar un_TopoVar (\<lambda>_. \<lparr>TopoName = [], TopoNamespace = []\<rparr>) flat_copy"

definition zero_lib :: libmem where
  "zero_lib = \<lparr>LibFlat = 0, LibRefs = []\<rparr>"

definition APIOverrideSpec_DeepCopyInto ::
  "'v copylib \<Rightarrow> APIOverrideSpecMem \<Rightarrow> cell heap \<Rightarrow> APIOverrideSpecMem \<times> cell heap" where
  "APIOverrideSpec_DeepCopyInto L s h =
     (let (svc, h) = map_copy OverrideMap un_OverrideMap (LCopy L RoutedOverride) (oService s) h
      in (s\<lparr>oService := svc\<rparr>, h))"

definition AuthSpec_DeepCopyInto :: "AuthSpecMem \<Rightarrow> cell heap \<Rightarrow> AuthSpecMem \<times> cell heap" where
  "AuthSpec_DeepCopyInto s h = (s, h)"

definition NeutronAPIDefaults_DeepCopyInto ::
  "NeutronAPIDefaults \<Rightarrow> cell heap \<Rightarrow> NeutronAPIDefaults \<times> cell heap" where
  "NeutronAPIDefaults_DeepCopyInto s h = (s, h)"

definition PasswordSelector_DeepCopyInto ::
  "PasswordSelectorMem \<Rightarrow> cell heap \<Rightarrow> PasswordSelectorMem \<times> cell heap" where
  "PasswordSelector_DeepCopyInto s h = (s, h)"

definition NeutronExtraVolMounts_DeepCopyInto ::
  "'v copylib \<Rightarrow> NeutronExtraVolMountsMem \<Rightarrow> cell heap \<Rightarrow> NeutronExtraVolMountsMem \<times> cell heap" where
  "NeutronExtraVolMounts_DeepCopyInto L s h =
     (let (vm, h) = slice_copy LibArray un_LibArray zero_lib (LCopy L StorageVolMounts) (xVolMounts s) h
      in (s\<lparr>xVolMounts := vm\<rparr>, h))"

definition NeutronApiTLS_DeepCopyInto ::
  "'v copylib \<Rightarrow> NeutronApiTLSMem \<Rightarrow> cell heap \<Rightarrow> NeutronApiTLSMem \<times> cell heap" where
  "NeutronApiTLS_DeepCopyInto L s h =
     (let (api, h) = LCopy L TLSAPIService (tAPI s) h;
          (ovn, h) = LCopy L TLSGenericService (tOvn s) h
      in (s\<lparr>tAPI := api, tOvn := ovn\<rparr>, h))"

definition zero_extra :: NeutronExtraVolMountsMem where
  "zero_extra = \<lparr>xName = [], xRegion = [], xVolMounts = None\<rparr>"

definition NeutronAPISpecCore_DeepCopyInto ::
  "'v copylib \<Rightarrow> NeutronAPISpecCoreMem \<Rightarrow> cell heap \<Rightarrow> NeutronAPISpecCoreMem \<times> cell heap" where
  "NeutronAPISpecCore_DeepCopyInto L s h =
     (let (bus, h) = ptr_copy BusVar un_BusVar (\<lambda>_. \<lparr>Cluster = [], User = [], Vhost = []\<rparr>) flat_copy
            (cNotificationsBus s) h;
          (replicas, h) = ptr_copy IntVar un_IntVar (\<lambda>_. 0) flat_copy (cReplicas s) h;
          (selector, h) = ptr_copy MapVar un_MapVar (\<lambda>_. None) copy_string_map (cNodeSelector s) h;
          (drivers, h) = copy_strings (cMl2MechanismDrivers s) h;
          (overwrite, h) = copy_string_map (cDefaultConfigOverwrite s) h;
          (resources, h) = LCopy L ResourceRequirements (cResources s) h;
          (attachments, h) = copy_strings (cNetworkAttachments s) h;
          (mounts, h) = slice_copy ExtraArray un_ExtraArray zero_extra (NeutronExtraVolMounts_DeepCopyInto L)
            (cExtraMounts s) h;
          (override, h) = APIOverrideSpec_DeepCopyInto L (cOverride s) h;
          (tls, h) = NeutronApiTLS_DeepCopyInto L (cTLS s) h;
          (topo, h) = copy_topo_ptr (cTopologyRef s) h;
          (busInstance, h) = copy_string_ptr (cNotificationsBusInstance s) h
      in (s\<lparr>cNotificationsBus := bus, cReplicas := replicas, cNodeSelector := selector,
            cMl2MechanismDrivers := drivers, cDefaultConfigOverwrite := overwrite, cResources := resources,
            cNetworkAttachments := attachments, cExtraMounts := mounts, cOverride := override, cTLS := tls,
            cTopologyRef := topo, cNotificationsBusInstance := busInstance\<rparr>, h))"

definition NeutronAPISpec_DeepCopyInto ::
  "'v copylib \<Rightarrow> NeutronAPISpecMem \<Rightarrow> cell heap \<Rightarrow> NeutronAPISpecMem \<times> cell heap" where
  "NeutronAPISpec_DeepCopyInto L s h =
     (let (core, h) = NeutronAPISpecCore_DeepCopyInto L (sCore s) h in (s\<lparr>sCore := core\<rparr>, h))"

definition NeutronAPIStatus_DeepCopyInto ::
  "'v copylib \<Rightarrow> NeutronAPIStatusMem \<Rightarrow> cell heap \<Rightarrow> NeutronAPIStatusMem \<times> cell heap" where
  "NeutronAPIStatus_DeepCopyInto L s h =
     (let (hash, h) = copy_string_map (zHash s) h;
          (conditions, h) = slice_copy LibArray un_LibArray zero_lib (LCopy L ConditionStruct) (zConditions s) h;
          (attachments, h) = map_copy SlicesMap un_SlicesMap copy_strings (zNetworkAttachments s) h;
          (topo, h) = copy_topo_ptr (zLastAppliedTopology s) h;
          (secret, h) = copy_string_ptr (zNotificationsTransportURLSecret s) h
      in (s\<lparr>zHash := hash, zConditions := conditions, zNetworkAttachments := attachments,
            zLastAppliedTopology := topo, zNotificationsTransportURLSecret := secret\<rparr>, h))"

definition NeutronAPI_DeepCopyInto ::
  "'v copylib \<Rightarrow> NeutronAPIMem \<Rightarrow> cell heap \<Rightarrow> NeutronAPIMem \<times> cell heap" where
  "NeutronAPI_DeepCopyInto L s h =
     (let (meta, h) = LCopy L ObjectMeta (iObjectMeta s) h;
          (spec, h) = NeutronAPISpec_DeepCopyInto L (iSpec s) h;
          (status, h) = NeutronAPIStatus_DeepCopyInto L (iStatus s) h
      in (s\<lparr>iObjectMeta := meta, iSpec := spec, iStatus := status\<rparr>, h))"

text \<open>The zero value of \<^verbatim>\<open>NeutronAPI\<close>, which \<^verbatim>\<open>make\<close> fills the new list with.\<close>

definition zero_core :: NeutronAPISpecCoreMem where
  "zero_core = \<lparr>cAPITimeout = 0, cServiceUser = [], cDatabaseInstance = [], cDatabaseAccount = [],
     cRabbitMqClusterName = [], cMessagingBus = \<lparr>Cluster = [], User = [], Vhost = []\<rparr>, cNotificationsBus = None,
     cMemcachedInstance = [], cReplicas = None, cSecret = [], cPasswordSelectors = \<lparr>pService = []\<rparr>,
     cNodeSelector = None, cPreserveJobs = False, cCorePlugin = [], cMl2MechanismDrivers = None,
     cCustomServiceConfig = [], cDefaultConfigOverwrite = None, cResources = zero_lib, cNetworkAttachments = None,
     cExtraMounts = None, cOverride = \<lparr>oService = None\<rparr>,
     cTLS = \<lparr>tAPI = zero_lib, tCaBundleSecretName = [], tOvn = zero_lib\<rparr>,
     cAuth = \<lparr>uApplicationCredentialSecret = []\<rparr>, cTopologyRef = None, cNotificationsBusInstance = None\<rparr>"

definition zero_status :: NeutronAPIStatusMem where
  "zero_status = \<lparr>zReadyCount = 0, zHash = None, zConditions = None, zDatabaseHostname = [],
     zTransportURLSecret = [], zNetworkAttachments = None, zApplicationCredentialSecret = [],
     zObservedGeneration = 0, zLastAppliedTopology = None, zNotificationsTransportURLSecret = None,
     zRPCReadyCount = 0, zWorkerReadyCount = 0\<rparr>"

definition zero_api :: NeutronAPIMem where
  "zero_api = \<lparr>iTypeMeta = ([], []), iObjectMeta = zero_lib, iSpec = \<lparr>sCore = zero_core, sContainerImage = []\<rparr>,
     iStatus = zero_status\<rparr>"

definition NeutronAPIList_DeepCopyInto ::
  "'v copylib \<Rightarrow> NeutronAPIListMem \<Rightarrow> cell heap \<Rightarrow> NeutronAPIListMem \<times> cell heap" where
  "NeutronAPIList_DeepCopyInto L s h =
     (let (meta, h) = LCopy L ListMeta (lListMeta s) h;
          (items, h) = slice_copy ItemArray un_ItemArray zero_api (NeutronAPI_DeepCopyInto L) (lItems s) h
      in (s\<lparr>lListMeta := meta, lItems := items\<rparr>, h))"

text \<open>
  \<^verbatim>\<open>DeepCopy\<close>: nil for nil; otherwise a new variable, which \<^verbatim>\<open>DeepCopyInto\<close> first makes a shallow copy
  (\<^verbatim>\<open>*out = *in\<close>) and then completes.
\<close>

definition APIOverrideSpec_DeepCopy :: "'v copylib \<Rightarrow> addr option \<Rightarrow> cell heap \<Rightarrow> addr option \<times> cell heap" where
  "APIOverrideSpec_DeepCopy L = ptr_copy OverrideVar un_OverrideVar (\<lambda>s. s) (APIOverrideSpec_DeepCopyInto L)"

definition AuthSpec_DeepCopy :: "addr option \<Rightarrow> cell heap \<Rightarrow> addr option \<times> cell heap" where
  "AuthSpec_DeepCopy = ptr_copy AuthVar un_AuthVar (\<lambda>s. s) AuthSpec_DeepCopyInto"

definition NeutronAPI_DeepCopy :: "'v copylib \<Rightarrow> addr option \<Rightarrow> cell heap \<Rightarrow> addr option \<times> cell heap" where
  "NeutronAPI_DeepCopy L = ptr_copy APIVar un_APIVar (\<lambda>s. s) (NeutronAPI_DeepCopyInto L)"

definition NeutronAPIDefaults_DeepCopy :: "addr option \<Rightarrow> cell heap \<Rightarrow> addr option \<times> cell heap" where
  "NeutronAPIDefaults_DeepCopy = ptr_copy DefaultsVar un_DefaultsVar (\<lambda>s. s) NeutronAPIDefaults_DeepCopyInto"

definition NeutronAPIList_DeepCopy :: "'v copylib \<Rightarrow> addr option \<Rightarrow> cell heap \<Rightarrow> addr option \<times> cell heap" where
  "NeutronAPIList_DeepCopy L = ptr_copy ListVar un_ListVar (\<lambda>s. s) (NeutronAPIList_DeepCopyInto L)"

definition NeutronAPISpec_DeepCopy :: "'v copylib \<Rightarrow> addr option \<Rightarrow> cell heap \<Rightarrow> addr option \<times> cell heap" where
  "NeutronAPISpec_DeepCopy L = ptr_copy SpecVar un_SpecVar (\<lambda>s. s) (NeutronAPISpec_DeepCopyInto L)"

definition NeutronAPISpecCore_DeepCopy :: "'v copylib \<Rightarrow> addr option \<Rightarrow> cell heap \<Rightarrow> addr option \<times> cell heap" where
  "NeutronAPISpecCore_DeepCopy L = ptr_copy CoreVar un_CoreVar (\<lambda>s. s) (NeutronAPISpecCore_DeepCopyInto L)"

definition NeutronAPIStatus_DeepCopy :: "'v copylib \<Rightarrow> addr option \<Rightarrow> cell heap \<Rightarrow> addr option \<times> cell heap" where
  "NeutronAPIStatus_DeepCopy L = ptr_copy StatusVar un_StatusVar (\<lambda>s. s) (NeutronAPIStatus_DeepCopyInto L)"

definition NeutronApiTLS_DeepCopy :: "'v copylib \<Rightarrow> addr option \<Rightarrow> cell heap \<Rightarrow> addr option \<times> cell heap" where
  "NeutronApiTLS_DeepCopy L = ptr_copy TLSVar un_TLSVar (\<lambda>s. s) (NeutronApiTLS_DeepCopyInto L)"

definition NeutronExtraVolMounts_DeepCopy :: "'v copylib \<Rightarrow> addr option \<Rightarrow> cell heap \<Rightarrow> addr option \<times> cell heap" where
  "NeutronExtraVolMounts_DeepCopy L = ptr_copy ExtraVar un_ExtraVar (\<lambda>s. s) (NeutronExtraVolMounts_DeepCopyInto L)"

definition PasswordSelector_DeepCopy :: "addr option \<Rightarrow> cell heap \<Rightarrow> addr option \<times> cell heap" where
  "PasswordSelector_DeepCopy = ptr_copy PasswordVar un_PasswordVar (\<lambda>s. s) PasswordSelector_DeepCopyInto"

text \<open>\<^verbatim>\<open>runtime.Object\<close>, an interface: nil, or a pointer with its type.\<close>

datatype runtime_Object = NeutronAPIObject addr | NeutronAPIListObject addr

definition NeutronAPI_DeepCopyObject ::
  "'v copylib \<Rightarrow> addr option \<Rightarrow> cell heap \<Rightarrow> runtime_Object option \<times> cell heap" where
  "NeutronAPI_DeepCopyObject L p h =
     (case NeutronAPI_DeepCopy L p h of
        (Some c, h') \<Rightarrow> (Some (NeutronAPIObject c), h')
      | (None, h') \<Rightarrow> (None, h'))"

definition NeutronAPIList_DeepCopyObject ::
  "'v copylib \<Rightarrow> addr option \<Rightarrow> cell heap \<Rightarrow> runtime_Object option \<times> cell heap" where
  "NeutronAPIList_DeepCopyObject L p h =
     (case NeutronAPIList_DeepCopy L p h of
        (Some c, h') \<Rightarrow> (Some (NeutronAPIListObject c), h')
      | (None, h') \<Rightarrow> (None, h'))"

end
