(* ===== verification/CopyIsolation.thy ===== *)
theory CopyIsolation
  imports DeepCopy
begin

text \<open>
  The generated copies are deep copies: each function satisfies the contract \<open>deep_copier\<close> of the
  theory \<open>GoHeap\<close>, from the rules proved there for pointers, slices, maps and structs. What follows
  for the objects of the API.
\<close>

section \<open>The values of the structs\<close>

text \<open>
  The value of a struct is the struct without its references (the fields set to zero) together with
  what the references lead to; two structs have the same value exactly if \<^verbatim>\<open>reflect.DeepEqual\<close> would
  tell so, nil and empty kept apart.
\<close>

definition override_refs :: "APIOverrideSpecMem \<Rightarrow> _" where
  "override_refs s = oService s"

definition override_with :: "_ \<Rightarrow> APIOverrideSpecMem \<Rightarrow> APIOverrideSpecMem" where
  "override_with r s = (case r of v0 \<Rightarrow> s\<lparr>oService := v0\<rparr>)"

definition override_nil where
  "override_nil = None"

definition override_view :: "'v copylib \<Rightarrow> cell heap \<Rightarrow> APIOverrideSpecMem \<Rightarrow> _" where
  "override_view L = struct_view override_refs override_with override_nil
       (map_view un_OverrideMap (LView L RoutedOverride))"

definition override_foot :: "'v copylib \<Rightarrow> cell heap \<Rightarrow> APIOverrideSpecMem \<Rightarrow> addr set" where
  "override_foot L = struct_foot override_refs
       (map_foot un_OverrideMap (LFoot L RoutedOverride))"

definition extra_refs :: "NeutronExtraVolMountsMem \<Rightarrow> _" where
  "extra_refs s = xVolMounts s"

definition extra_with :: "_ \<Rightarrow> NeutronExtraVolMountsMem \<Rightarrow> NeutronExtraVolMountsMem" where
  "extra_with r s = (case r of v0 \<Rightarrow> s\<lparr>xVolMounts := v0\<rparr>)"

definition extra_nil where
  "extra_nil = None"

definition extra_view :: "'v copylib \<Rightarrow> cell heap \<Rightarrow> NeutronExtraVolMountsMem \<Rightarrow> _" where
  "extra_view L = struct_view extra_refs extra_with extra_nil
       (slice_view un_LibArray (LView L StorageVolMounts))"

definition extra_foot :: "'v copylib \<Rightarrow> cell heap \<Rightarrow> NeutronExtraVolMountsMem \<Rightarrow> addr set" where
  "extra_foot L = struct_foot extra_refs
       (slice_foot un_LibArray (LFoot L StorageVolMounts))"

definition tls_refs :: "NeutronApiTLSMem \<Rightarrow> _" where
  "tls_refs s = (tAPI s, tOvn s)"

definition tls_with :: "_ \<Rightarrow> NeutronApiTLSMem \<Rightarrow> NeutronApiTLSMem" where
  "tls_with r s = (case r of (v0, v1) \<Rightarrow> s\<lparr>tAPI := v0, tOvn := v1\<rparr>)"

definition tls_nil where
  "tls_nil = (zero_lib, zero_lib)"

definition tls_view :: "'v copylib \<Rightarrow> cell heap \<Rightarrow> NeutronApiTLSMem \<Rightarrow> _" where
  "tls_view L = struct_view tls_refs tls_with tls_nil
       (both_view (LView L TLSAPIService)
       (LView L TLSGenericService))"

definition tls_foot :: "'v copylib \<Rightarrow> cell heap \<Rightarrow> NeutronApiTLSMem \<Rightarrow> addr set" where
  "tls_foot L = struct_foot tls_refs
       (both_foot (LFoot L TLSAPIService)
       (LFoot L TLSGenericService))"

definition core_refs :: "NeutronAPISpecCoreMem \<Rightarrow> _" where
  "core_refs s = (cNotificationsBus s, cReplicas s, cNodeSelector s, cMl2MechanismDrivers s, cDefaultConfigOverwrite s, cResources s, cNetworkAttachments s, cExtraMounts s, cOverride s, cTLS s, cTopologyRef s, cNotificationsBusInstance s)"

definition core_with :: "_ \<Rightarrow> NeutronAPISpecCoreMem \<Rightarrow> NeutronAPISpecCoreMem" where
  "core_with r s = (case r of (v0, v1, v2, v3, v4, v5, v6, v7, v8, v9, v10, v11) \<Rightarrow> s\<lparr>cNotificationsBus := v0, cReplicas := v1, cNodeSelector := v2, cMl2MechanismDrivers := v3, cDefaultConfigOverwrite := v4, cResources := v5, cNetworkAttachments := v6, cExtraMounts := v7, cOverride := v8, cTLS := v9, cTopologyRef := v10, cNotificationsBusInstance := v11\<rparr>)"

definition core_nil where
  "core_nil = (None, None, None, None, None, zero_lib, None, None, (cOverride zero_core), (cTLS zero_core), None, None)"

definition core_view :: "'v copylib \<Rightarrow> cell heap \<Rightarrow> NeutronAPISpecCoreMem \<Rightarrow> _" where
  "core_view L = struct_view core_refs core_with core_nil
       (both_view (ptr_view un_BusVar flat_view)
       (both_view (ptr_view un_IntVar flat_view)
       (both_view (ptr_view un_MapVar (map_view un_StrMap flat_view))
       (both_view (slice_view un_StrArray flat_view)
       (both_view (map_view un_StrMap flat_view)
       (both_view (LView L ResourceRequirements)
       (both_view (slice_view un_StrArray flat_view)
       (both_view (slice_view un_ExtraArray (extra_view L))
       (both_view (override_view L)
       (both_view (tls_view L)
       (both_view (ptr_view un_TopoVar flat_view)
       (ptr_view un_StrVar flat_view))))))))))))"

definition core_foot :: "'v copylib \<Rightarrow> cell heap \<Rightarrow> NeutronAPISpecCoreMem \<Rightarrow> addr set" where
  "core_foot L = struct_foot core_refs
       (both_foot (ptr_foot un_BusVar flat_foot)
       (both_foot (ptr_foot un_IntVar flat_foot)
       (both_foot (ptr_foot un_MapVar (map_foot un_StrMap flat_foot))
       (both_foot (slice_foot un_StrArray flat_foot)
       (both_foot (map_foot un_StrMap flat_foot)
       (both_foot (LFoot L ResourceRequirements)
       (both_foot (slice_foot un_StrArray flat_foot)
       (both_foot (slice_foot un_ExtraArray (extra_foot L))
       (both_foot (override_foot L)
       (both_foot (tls_foot L)
       (both_foot (ptr_foot un_TopoVar flat_foot)
       (ptr_foot un_StrVar flat_foot))))))))))))"

definition spec_refs :: "NeutronAPISpecMem \<Rightarrow> _" where
  "spec_refs s = sCore s"

definition spec_with :: "_ \<Rightarrow> NeutronAPISpecMem \<Rightarrow> NeutronAPISpecMem" where
  "spec_with r s = (case r of v0 \<Rightarrow> s\<lparr>sCore := v0\<rparr>)"

definition spec_nil where
  "spec_nil = zero_core"

definition spec_view :: "'v copylib \<Rightarrow> cell heap \<Rightarrow> NeutronAPISpecMem \<Rightarrow> _" where
  "spec_view L = struct_view spec_refs spec_with spec_nil
       (core_view L)"

definition spec_foot :: "'v copylib \<Rightarrow> cell heap \<Rightarrow> NeutronAPISpecMem \<Rightarrow> addr set" where
  "spec_foot L = struct_foot spec_refs
       (core_foot L)"

definition status_refs :: "NeutronAPIStatusMem \<Rightarrow> _" where
  "status_refs s = (zHash s, zConditions s, zNetworkAttachments s, zLastAppliedTopology s, zNotificationsTransportURLSecret s)"

definition status_with :: "_ \<Rightarrow> NeutronAPIStatusMem \<Rightarrow> NeutronAPIStatusMem" where
  "status_with r s = (case r of (v0, v1, v2, v3, v4) \<Rightarrow> s\<lparr>zHash := v0, zConditions := v1, zNetworkAttachments := v2, zLastAppliedTopology := v3, zNotificationsTransportURLSecret := v4\<rparr>)"

definition status_nil where
  "status_nil = (None, None, None, None, None)"

definition status_view :: "'v copylib \<Rightarrow> cell heap \<Rightarrow> NeutronAPIStatusMem \<Rightarrow> _" where
  "status_view L = struct_view status_refs status_with status_nil
       (both_view (map_view un_StrMap flat_view)
       (both_view (slice_view un_LibArray (LView L ConditionStruct))
       (both_view (map_view un_SlicesMap (slice_view un_StrArray flat_view))
       (both_view (ptr_view un_TopoVar flat_view)
       (ptr_view un_StrVar flat_view)))))"

definition status_foot :: "'v copylib \<Rightarrow> cell heap \<Rightarrow> NeutronAPIStatusMem \<Rightarrow> addr set" where
  "status_foot L = struct_foot status_refs
       (both_foot (map_foot un_StrMap flat_foot)
       (both_foot (slice_foot un_LibArray (LFoot L ConditionStruct))
       (both_foot (map_foot un_SlicesMap (slice_foot un_StrArray flat_foot))
       (both_foot (ptr_foot un_TopoVar flat_foot)
       (ptr_foot un_StrVar flat_foot)))))"

definition api_refs :: "NeutronAPIMem \<Rightarrow> _" where
  "api_refs s = (iObjectMeta s, iSpec s, iStatus s)"

definition api_with :: "_ \<Rightarrow> NeutronAPIMem \<Rightarrow> NeutronAPIMem" where
  "api_with r s = (case r of (v0, v1, v2) \<Rightarrow> s\<lparr>iObjectMeta := v0, iSpec := v1, iStatus := v2\<rparr>)"

definition api_nil where
  "api_nil = (zero_lib, (iSpec zero_api), zero_status)"

definition api_view :: "'v copylib \<Rightarrow> cell heap \<Rightarrow> NeutronAPIMem \<Rightarrow> _" where
  "api_view L = struct_view api_refs api_with api_nil
       (both_view (LView L ObjectMeta)
       (both_view (spec_view L)
       (status_view L)))"

definition api_foot :: "'v copylib \<Rightarrow> cell heap \<Rightarrow> NeutronAPIMem \<Rightarrow> addr set" where
  "api_foot L = struct_foot api_refs
       (both_foot (LFoot L ObjectMeta)
       (both_foot (spec_foot L)
       (status_foot L)))"

definition list_refs :: "NeutronAPIListMem \<Rightarrow> _" where
  "list_refs s = (lListMeta s, lItems s)"

definition list_with :: "_ \<Rightarrow> NeutronAPIListMem \<Rightarrow> NeutronAPIListMem" where
  "list_with r s = (case r of (v0, v1) \<Rightarrow> s\<lparr>lListMeta := v0, lItems := v1\<rparr>)"

definition list_nil where
  "list_nil = (zero_lib, None)"

definition list_view :: "'v copylib \<Rightarrow> cell heap \<Rightarrow> NeutronAPIListMem \<Rightarrow> _" where
  "list_view L = struct_view list_refs list_with list_nil
       (both_view (LView L ListMeta)
       (slice_view un_ItemArray (api_view L)))"

definition list_foot :: "'v copylib \<Rightarrow> cell heap \<Rightarrow> NeutronAPIListMem \<Rightarrow> addr set" where
  "list_foot L = struct_foot list_refs
       (both_foot (LFoot L ListMeta)
       (slice_foot un_ItemArray (api_foot L)))"

section \<open>The contract of each function\<close>

lemma lib_deep: "copylib_laws L \<Longrightarrow> deep_copier (LView L k) (LFoot L k) (LCopy L k)"
  by (simp add: copylib_laws_def)

lemmas copier_rules = deep_copier_both deep_copier_ptr deep_copier_slice deep_copier_map flat.deep_copier_axioms lib_deep

lemma flat_deep:
  "deep_copier flat_view flat_foot AuthSpec_DeepCopyInto"
  "deep_copier flat_view flat_foot NeutronAPIDefaults_DeepCopyInto"
  "deep_copier flat_view flat_foot PasswordSelector_DeepCopyInto"
  by (auto intro: deep_copier_cong [OF flat.deep_copier_axioms]
      simp: AuthSpec_DeepCopyInto_def NeutronAPIDefaults_DeepCopyInto_def PasswordSelector_DeepCopyInto_def flat_copy_def)

lemma override_deep:
  assumes "copylib_laws L"
  shows "deep_copier (override_view L) (override_foot L) (APIOverrideSpec_DeepCopyInto L)"
proof -
  have "APIOverrideSpec_DeepCopyInto L = struct_copy override_refs override_with
       (map_copy OverrideMap un_OverrideMap (LCopy L RoutedOverride))"
    by (intro ext) (simp add: APIOverrideSpec_DeepCopyInto_def struct_copy_def both_copy_def override_refs_def override_with_def
        case_prod_unfold Let_def)
  then show ?thesis
    unfolding override_view_def override_foot_def
    by (simp only:) (intro deep_copier_struct copier_rules  assms,
      simp_all add: override_refs_def override_with_def split: prod.split)
qed

lemma extra_deep:
  assumes "copylib_laws L"
  shows "deep_copier (extra_view L) (extra_foot L) (NeutronExtraVolMounts_DeepCopyInto L)"
proof -
  have "NeutronExtraVolMounts_DeepCopyInto L = struct_copy extra_refs extra_with
       (slice_copy LibArray un_LibArray zero_lib (LCopy L StorageVolMounts))"
    by (intro ext) (simp add: NeutronExtraVolMounts_DeepCopyInto_def struct_copy_def both_copy_def extra_refs_def extra_with_def
        case_prod_unfold Let_def)
  then show ?thesis
    unfolding extra_view_def extra_foot_def
    by (simp only:) (intro deep_copier_struct copier_rules  assms,
      simp_all add: extra_refs_def extra_with_def split: prod.split)
qed

lemma tls_deep:
  assumes "copylib_laws L"
  shows "deep_copier (tls_view L) (tls_foot L) (NeutronApiTLS_DeepCopyInto L)"
proof -
  have "NeutronApiTLS_DeepCopyInto L = struct_copy tls_refs tls_with
       (both_copy (LCopy L TLSAPIService)
       (LCopy L TLSGenericService))"
    by (intro ext) (simp add: NeutronApiTLS_DeepCopyInto_def struct_copy_def both_copy_def tls_refs_def tls_with_def
        case_prod_unfold Let_def)
  then show ?thesis
    unfolding tls_view_def tls_foot_def
    by (simp only:) (intro deep_copier_struct copier_rules  assms,
      simp_all add: tls_refs_def tls_with_def split: prod.split)
qed

lemma core_deep:
  assumes "copylib_laws L"
  shows "deep_copier (core_view L) (core_foot L) (NeutronAPISpecCore_DeepCopyInto L)"
proof -
  have "NeutronAPISpecCore_DeepCopyInto L = struct_copy core_refs core_with
       (both_copy (ptr_copy BusVar un_BusVar (\<lambda>_. \<lparr>Cluster = [], User = [], Vhost = []\<rparr>) flat_copy)
       (both_copy (ptr_copy IntVar un_IntVar (\<lambda>_. 0) flat_copy)
       (both_copy (ptr_copy MapVar un_MapVar (\<lambda>_. None) copy_string_map)
       (both_copy copy_strings
       (both_copy copy_string_map
       (both_copy (LCopy L ResourceRequirements)
       (both_copy copy_strings
       (both_copy (slice_copy ExtraArray un_ExtraArray zero_extra (NeutronExtraVolMounts_DeepCopyInto L))
       (both_copy (APIOverrideSpec_DeepCopyInto L)
       (both_copy (NeutronApiTLS_DeepCopyInto L)
       (both_copy copy_topo_ptr
       copy_string_ptr)))))))))))"
    by (intro ext) (simp add: NeutronAPISpecCore_DeepCopyInto_def struct_copy_def both_copy_def core_refs_def core_with_def
        case_prod_unfold Let_def)
  then show ?thesis
    unfolding core_view_def core_foot_def
    by (simp only:) (intro deep_copier_struct copier_rules override_deep extra_deep tls_deep assms,
      simp_all add: core_refs_def core_with_def split: prod.split)
qed

lemma spec_deep:
  assumes "copylib_laws L"
  shows "deep_copier (spec_view L) (spec_foot L) (NeutronAPISpec_DeepCopyInto L)"
proof -
  have "NeutronAPISpec_DeepCopyInto L = struct_copy spec_refs spec_with
       (NeutronAPISpecCore_DeepCopyInto L)"
    by (intro ext) (simp add: NeutronAPISpec_DeepCopyInto_def struct_copy_def both_copy_def spec_refs_def spec_with_def
        case_prod_unfold Let_def)
  then show ?thesis
    unfolding spec_view_def spec_foot_def
    by (simp only:) (intro deep_copier_struct copier_rules core_deep assms,
      simp_all add: spec_refs_def spec_with_def split: prod.split)
qed

lemma status_deep:
  assumes "copylib_laws L"
  shows "deep_copier (status_view L) (status_foot L) (NeutronAPIStatus_DeepCopyInto L)"
proof -
  have "NeutronAPIStatus_DeepCopyInto L = struct_copy status_refs status_with
       (both_copy copy_string_map
       (both_copy (slice_copy LibArray un_LibArray zero_lib (LCopy L ConditionStruct))
       (both_copy (map_copy SlicesMap un_SlicesMap copy_strings)
       (both_copy copy_topo_ptr
       copy_string_ptr))))"
    by (intro ext) (simp add: NeutronAPIStatus_DeepCopyInto_def struct_copy_def both_copy_def status_refs_def status_with_def
        case_prod_unfold Let_def)
  then show ?thesis
    unfolding status_view_def status_foot_def
    by (simp only:) (intro deep_copier_struct copier_rules  assms,
      simp_all add: status_refs_def status_with_def split: prod.split)
qed

lemma api_deep:
  assumes "copylib_laws L"
  shows "deep_copier (api_view L) (api_foot L) (NeutronAPI_DeepCopyInto L)"
proof -
  have "NeutronAPI_DeepCopyInto L = struct_copy api_refs api_with
       (both_copy (LCopy L ObjectMeta)
       (both_copy (NeutronAPISpec_DeepCopyInto L)
       (NeutronAPIStatus_DeepCopyInto L)))"
    by (intro ext) (simp add: NeutronAPI_DeepCopyInto_def struct_copy_def both_copy_def api_refs_def api_with_def
        case_prod_unfold Let_def)
  then show ?thesis
    unfolding api_view_def api_foot_def
    by (simp only:) (intro deep_copier_struct copier_rules spec_deep status_deep assms,
      simp_all add: api_refs_def api_with_def split: prod.split)
qed

lemma list_deep:
  assumes "copylib_laws L"
  shows "deep_copier (list_view L) (list_foot L) (NeutronAPIList_DeepCopyInto L)"
proof -
  have "NeutronAPIList_DeepCopyInto L = struct_copy list_refs list_with
       (both_copy (LCopy L ListMeta)
       (slice_copy ItemArray un_ItemArray zero_api (NeutronAPI_DeepCopyInto L)))"
    by (intro ext) (simp add: NeutronAPIList_DeepCopyInto_def struct_copy_def both_copy_def list_refs_def list_with_def
        case_prod_unfold Let_def)
  then show ?thesis
    unfolding list_view_def list_foot_def
    by (simp only:) (intro deep_copier_struct copier_rules api_deep assms,
      simp_all add: list_refs_def list_with_def split: prod.split)
qed

section \<open>Objects of the API\<close>

definition object_view :: "'v copylib \<Rightarrow> cell heap \<Rightarrow> addr option \<Rightarrow> _" where
  "object_view L = ptr_view un_APIVar (api_view L)"

definition object_foot :: "'v copylib \<Rightarrow> cell heap \<Rightarrow> addr option \<Rightarrow> addr set" where
  "object_foot L = ptr_foot un_APIVar (api_foot L)"

definition object_list_view :: "'v copylib \<Rightarrow> cell heap \<Rightarrow> addr option \<Rightarrow> _" where
  "object_list_view L = ptr_view un_ListVar (list_view L)"

definition object_list_foot :: "'v copylib \<Rightarrow> cell heap \<Rightarrow> addr option \<Rightarrow> addr set" where
  "object_list_foot L = ptr_foot un_ListVar (list_foot L)"

lemma object_deep:
  assumes "copylib_laws L"
  shows "deep_copier (object_view L) (object_foot L) (NeutronAPI_DeepCopy L)"
    and "deep_copier (object_list_view L) (object_list_foot L) (NeutronAPIList_DeepCopy L)"
  unfolding object_view_def object_foot_def object_list_view_def object_list_foot_def
    NeutronAPI_DeepCopy_def NeutronAPIList_DeepCopy_def
  by (intro deep_copier_ptr api_deep list_deep assms; simp)+

text \<open>
  Two parts of the operator that hold the original and the copy: what the holder of the one may
  write (any cell the other does not reach), and what the other then reads.
\<close>

interpretation strings: deep_copier "slice_view un_StrArray flat_view" "slice_foot un_StrArray flat_foot" copy_strings
  by (intro copier_rules) simp

interpretation string_map: deep_copier "map_view un_StrMap flat_view" "map_foot un_StrMap flat_foot" copy_string_map
  by (intro copier_rules) simp

text \<open>
  A library whose structs hold at most one reference, to a cell of their own: the parameter
  instantiated.
\<close>

definition lib_ref :: "libmem \<Rightarrow> addr option" where
  "lib_ref m = (case LibRefs m of [] \<Rightarrow> None | a # _ \<Rightarrow> Some a)"

definition lib_with :: "addr option \<Rightarrow> libmem \<Rightarrow> libmem" where
  "lib_with r m = m\<lparr>LibRefs := (case r of None \<Rightarrow> [] | Some a \<Rightarrow> [a])\<rparr>"

definition plain_copylib :: "(libmem \<times> opaque option) copylib" where
  "plain_copylib = \<lparr>LCopy = \<lambda>_. struct_copy lib_ref lib_with (ptr_copy LibVar un_LibVar (\<lambda>_. 0) flat_copy),
     LView = \<lambda>_. struct_view lib_ref lib_with None (ptr_view un_LibVar flat_view),
     LFoot = \<lambda>_. struct_foot lib_ref (ptr_foot un_LibVar flat_foot)\<rparr>"

lemma plain_copylib_laws: "copylib_laws plain_copylib"
proof -
  have "deep_copier (struct_view lib_ref lib_with None (ptr_view un_LibVar flat_view))
     (struct_foot lib_ref (ptr_foot un_LibVar flat_foot))
     (struct_copy lib_ref lib_with (ptr_copy LibVar un_LibVar (\<lambda>_. 0) flat_copy))"
    by (intro deep_copier_struct deep_copier_ptr flat.deep_copier_axioms)
       (auto simp: lib_ref_def lib_with_def split: option.split)
  then show ?thesis by (simp add: copylib_laws_def plain_copylib_def)
qed

text \<open>An object with a node selector, a list of drivers and network attachments in its status.\<close>

definition sample_heap :: "cell heap" where
  "sample_heap = [StrMap [(''zone'', ''a'')], MapVar (Some 0), StrArray [''ovn'', ''sriov''],
     SlicesMap [(''net'', Some \<lparr>SliceArray = 2, SliceOffset = 1, SliceLen = 1\<rparr>)], LibVar 7,
     APIVar (zero_api\<lparr>iObjectMeta := \<lparr>LibFlat = 1, LibRefs = [4]\<rparr>,
       iSpec := \<lparr>sCore = zero_core\<lparr>cNodeSelector := Some 1,
         cMl2MechanismDrivers := Some \<lparr>SliceArray = 2, SliceOffset = 0, SliceLen = 2\<rparr>\<rparr>, sContainerImage = []\<rparr>,
       iStatus := zero_status\<lparr>zNetworkAttachments := Some 3\<rparr>\<rparr>)]"

lemma sample_view: "\<exists>v. object_view plain_copylib sample_heap (Some 5) = Some v"
  by (simp add: object_view_def container_view_def pointee_def sample_heap_def api_view_def struct_view_def
      both_view_def api_refs_def spec_view_def spec_refs_def core_view_def core_refs_def status_view_def
      status_refs_def override_view_def override_refs_def tls_view_def tls_refs_def flat_view_def plain_copylib_def
      zero_api_def zero_core_def zero_status_def zero_lib_def window_def entries_def lib_ref_def)

section \<open>Properties\<close>

text \<open>
  C18. Every generated \<^verbatim>\<open>DeepCopy\<close> is a deep copy, provided those of the other packages are: it changes
  no cell that existed, the copy has the value of the original (nil and empty kept apart), and it
  reaches only cells that the copy made.
\<close>

theorem generated_copies_are_deep:
  assumes "copylib_laws L"
  shows "deep_copier (object_view L) (object_foot L) (NeutronAPI_DeepCopy L) \<and>
    deep_copier (object_list_view L) (object_list_foot L) (NeutronAPIList_DeepCopy L) \<and>
    deep_copier (ptr_view un_SpecVar (spec_view L)) (ptr_foot un_SpecVar (spec_foot L)) (NeutronAPISpec_DeepCopy L) \<and>
    deep_copier (ptr_view un_CoreVar (core_view L)) (ptr_foot un_CoreVar (core_foot L)) (NeutronAPISpecCore_DeepCopy L) \<and>
    deep_copier (ptr_view un_StatusVar (status_view L)) (ptr_foot un_StatusVar (status_foot L)) (NeutronAPIStatus_DeepCopy L) \<and>
    deep_copier (ptr_view un_TLSVar (tls_view L)) (ptr_foot un_TLSVar (tls_foot L)) (NeutronApiTLS_DeepCopy L) \<and>
    deep_copier (ptr_view un_ExtraVar (extra_view L)) (ptr_foot un_ExtraVar (extra_foot L)) (NeutronExtraVolMounts_DeepCopy L) \<and>
    deep_copier (ptr_view un_OverrideVar (override_view L)) (ptr_foot un_OverrideVar (override_foot L)) (APIOverrideSpec_DeepCopy L) \<and>
    deep_copier (ptr_view un_AuthVar flat_view) (ptr_foot un_AuthVar flat_foot) AuthSpec_DeepCopy \<and>
    deep_copier (ptr_view un_PasswordVar flat_view) (ptr_foot un_PasswordVar flat_foot) PasswordSelector_DeepCopy \<and>
    deep_copier (ptr_view un_DefaultsVar flat_view) (ptr_foot un_DefaultsVar flat_foot) NeutronAPIDefaults_DeepCopy"
  unfolding NeutronAPISpec_DeepCopy_def NeutronAPISpecCore_DeepCopy_def NeutronAPIStatus_DeepCopy_def
    NeutronApiTLS_DeepCopy_def NeutronExtraVolMounts_DeepCopy_def APIOverrideSpec_DeepCopy_def AuthSpec_DeepCopy_def
    PasswordSelector_DeepCopy_def NeutronAPIDefaults_DeepCopy_def
  by (intro conjI object_deep assms deep_copier_ptr spec_deep core_deep status_deep tls_deep extra_deep override_deep
      flat_deep) simp_all

theorem generated_copies_are_deep_witness:
  "deep_copier (object_view plain_copylib) (object_foot plain_copylib) (NeutronAPI_DeepCopy plain_copylib)"
  using generated_copies_are_deep [OF plain_copylib_laws] by blast

text \<open>
  C19. \<^verbatim>\<open>DeepCopyObject\<close> gives the nil interface for a nil pointer (not an interface that holds a nil
  pointer), and otherwise a new object of the same type with the same value.
\<close>

theorem DeepCopyObject_copies:
  assumes L: "copylib_laws L"
  shows "NeutronAPI_DeepCopyObject L None h = (None, h) \<and> NeutronAPIList_DeepCopyObject L None h = (None, h) \<and>
    (\<forall>a v. object_view L h (Some a) = Some v \<longrightarrow>
       (\<exists>b h'. NeutronAPI_DeepCopyObject L (Some a) h = (Some (NeutronAPIObject b), h') \<and>
          length h \<le> b \<and> extends h h' \<and> object_view L h' (Some b) = Some v)) \<and>
    (\<forall>a v. object_list_view L h (Some a) = Some v \<longrightarrow>
       (\<exists>b h'. NeutronAPIList_DeepCopyObject L (Some a) h = (Some (NeutronAPIListObject b), h') \<and>
          length h \<le> b \<and> extends h h' \<and> object_list_view L h' (Some b) = Some v))"
proof -
  have nil: "NeutronAPI_DeepCopy L None h = (None, h)" "NeutronAPIList_DeepCopy L None h = (None, h)"
    by (simp_all add: NeutronAPI_DeepCopy_def NeutronAPIList_DeepCopy_def ptr_copy_def)
  have "\<exists>h'. NeutronAPI_DeepCopy L (Some a) h = (Some (length h), h')"
    and "\<exists>h'. NeutronAPIList_DeepCopy L (Some a) h = (Some (length h), h')" for a
    by (auto simp: NeutronAPI_DeepCopy_def NeutronAPIList_DeepCopy_def ptr_copy_def alloc_def Let_def split: prod.split)
  then obtain h1 h2 where h1: "NeutronAPI_DeepCopy L (Some a) h = (Some (length h), h1 a)"
    and h2: "NeutronAPIList_DeepCopy L (Some a) h = (Some (length h), h2 a)" for a by metis
  have "extends h (h1 a) \<and> object_view L (h1 a) (Some (length h)) = Some v" if "object_view L h (Some a) = Some v" for a v
    using deep_copier.copies [OF object_deep(1) [OF L] that h1] by simp
  moreover have "extends h (h2 a) \<and> object_list_view L (h2 a) (Some (length h)) = Some v"
    if "object_list_view L h (Some a) = Some v" for a v
    using deep_copier.copies [OF object_deep(2) [OF L] that h2] by simp
  ultimately show ?thesis
    by (simp add: NeutronAPI_DeepCopyObject_def NeutronAPIList_DeepCopyObject_def nil h1 h2)
qed

theorem DeepCopyObject_copies_witness:
  "\<exists>b h' v. NeutronAPI_DeepCopyObject plain_copylib (Some 5) sample_heap = (Some (NeutronAPIObject b), h') \<and>
     6 \<le> b \<and> object_view plain_copylib h' (Some b) = Some v \<and> object_view plain_copylib sample_heap (Some 5) = Some v"
proof -
  obtain v where v: "object_view plain_copylib sample_heap (Some 5) = Some v" using sample_view by blast
  then show ?thesis
    using DeepCopyObject_copies [OF plain_copylib_laws, of sample_heap]
    by (fastforce simp: sample_heap_def)
qed

text \<open>
  C17. The holder of a copy cannot disturb the holder of the original: after a deep copy of an object
  or of a list of objects, whatever is written to cells the copy reaches (and to new ones), the
  original keeps its value; and whatever is written elsewhere, the copy keeps its own.
\<close>

theorem copies_are_isolated:
  assumes L: "copylib_laws L"
  shows "(\<forall>p v q h'. object_view L h p = Some v \<longrightarrow> NeutronAPI_DeepCopy L p h = (q, h') \<longrightarrow>
      (\<forall>h''. unchanged (- object_foot L h' q \<inter> {..<length h'}) h' h'' \<longrightarrow> object_view L h'' p = Some v) \<and>
      (\<forall>h''. unchanged (object_foot L h' q) h' h'' \<longrightarrow> object_view L h'' q = Some v)) \<and>
    (\<forall>p v q h'. object_list_view L h p = Some v \<longrightarrow> NeutronAPIList_DeepCopy L p h = (q, h') \<longrightarrow>
      (\<forall>h''. unchanged (- object_list_foot L h' q \<inter> {..<length h'}) h' h'' \<longrightarrow> object_list_view L h'' p = Some v) \<and>
      (\<forall>h''. unchanged (object_list_foot L h' q) h' h'' \<longrightarrow> object_list_view L h'' q = Some v))"
  using deep_copier.isolated [OF object_deep(1) [OF L]] deep_copier.isolated [OF object_deep(2) [OF L]]
  by (intro conjI allI impI) blast+

theorem copies_are_isolated_witness:
  "\<exists>v q h'. NeutronAPI_DeepCopy plain_copylib (Some 5) sample_heap = (q, h') \<and>
     object_view plain_copylib sample_heap (Some 5) = Some v \<and>
     (\<forall>h''. unchanged (- object_foot plain_copylib h' q \<inter> {..<length h'}) h' h'' \<longrightarrow>
        object_view plain_copylib h'' (Some 5) = Some v)"
proof -
  obtain v where v: "object_view plain_copylib sample_heap (Some 5) = Some v" using sample_view by blast
  obtain q h' where run: "NeutronAPI_DeepCopy plain_copylib (Some 5) sample_heap = (q, h')" by fastforce
  from copies_are_isolated [OF plain_copylib_laws, of sample_heap] v run show ?thesis by blast
qed

end
