(* ===== verification/Spec2Isabelle.thy ===== *)
theory Spec2Isabelle
  imports Written RbacOutcome Strategy Completion Startup CopyIsolation
begin

text \<open>
  Verification of neutron-operator, the Kubernetes operator that deploys OpenStack Neutron.

  \<^bold>\<open>The program.\<close> The user creates a \<^verbatim>\<open>NeutronAPI\<close> resource. The admission webhook
  (\<^verbatim>\<open>api/v1beta1/neutronapi_webhook.go\<close>, \<^verbatim>\<open>internal/webhook/v1beta1\<close>) fills in defaults and validates
  it. The controller (\<^verbatim>\<open>internal/controller/neutronapi_controller.go\<close>) is called whenever the resource
  or an object it uses changes; it brings the cluster to the state the resource describes (message
  bus, database, configuration Secrets, agents' Secrets, services, Keystone registration,
  Deployments), rotates credentials, and writes the outcome to the status conditions of the
  resource. The pods and Jobs it asks for are built by \<^verbatim>\<open>internal/neutronapi\<close>.

  \<^bold>\<open>The model.\<close> A Go function is a state-passing computation with early return and panic
  (theory \<open>Prelude\<close>); the reconciler state is the resource it works on, the collected input hashes
  and the calls made so far (theory \<open>Cluster\<close>). Calls to the API server and to the libraries that
  are not part of this repository are answered by the parameter \<open>ext\<close>: the record \<open>cluster\<close>
  answers with functions of the whole call history, so it may change its mind between any two
  calls; \<open>condlib\<close>, \<open>podlib\<close> and \<open>utillib\<close> are the pure library functions. What the code relies on is
  stated as named laws (\<open>condition_laws\<close>, \<open>condition_completeness\<close>, \<open>pod_laws\<close>, \<open>util_laws\<close>,
  \<open>deploy_laws\<close>, \<open>rbac_laws\<close>, \<open>rotation_laws\<close>, \<open>ensure_laws\<close>, \<open>copylib_laws\<close> and, for
  the shell of the probed images, \<open>shell_laws\<close>), each shown to hold of a concrete instance.

  \<^bold>\<open>Theories.\<close>
  \<^item> \<open>GoRuntime\<close>: the parts of the Go library the code uses (strings, integers, errors).
  \<^item> \<open>Conditions\<close>: \<^verbatim>\<open>conditions.go\<close> and the interface of the condition package.
  \<^item> \<open>ApiTypes\<close>: \<^verbatim>\<open>neutronapi_types.go\<close>; the scan for \<^verbatim>\<open>rpc_workers\<close> against a reference reading.
  \<^item> \<open>ApiWebhook\<close>: the webhook methods and the admission handlers; decisions of the
    validators, idempotence of defaulting, route annotations.
  \<^item> \<open>Volumes\<close>, \<open>Workloads\<close>, \<open>WorkloadContract\<close>: \<^verbatim>\<open>const.go\<close>, \<^verbatim>\<open>volumes.go\<close>, \<^verbatim>\<open>deployment.go\<close>,
    \<^verbatim>\<open>workers.go\<close>, \<^verbatim>\<open>dbsync.go\<close>; the contract all three Deployments satisfy is the locale
    \<open>neutron_workload\<close>, interpreted on each builder.
  \<^item> \<open>Frames\<close>: what the building blocks of the reconciler leave alone, as instances of the
    locale \<open>step_frame\<close>.
  \<^item> \<open>ImageProbe\<close>: \<^verbatim>\<open>imageprobe.go\<close>, with the life of the probe Jobs as a step relation on a store of
    Jobs by namespace and name: evaluations whose calls may fail, Jobs that run the command of
    their container to its end or break down, and removals.
  \<^item> \<open>ExternalSecrets\<close>: the Secrets of the agents outside the cluster; the locales
    \<open>external_agent\<close> and \<open>agent_pair\<close> are interpreted on the four agents.
  \<^item> \<open>ServiceConfig\<close>, \<open>ReconcileInit\<close>, \<open>ReconcileNormal\<close>, \<open>Reconcile\<close>: the controller, one definition
    per block of its functions, in their order.
  \<^item> \<open>PhaseFrames\<close>, \<open>Rotation\<close>, \<open>RotationSafety\<close>, \<open>Readiness\<close>: no credential is released before
    all three Deployments have been dealt with and the rollout that replaces it is confirmed, and
    none is pruned before the former; the status never claims more than was confirmed.
  \<^item> \<open>Patching\<close>: a reconcile writes the resource once, at its end, and changes only the fields the
    operator owns.
  \<^item> \<open>RotationRefinement\<close>: the three rotations refine an abstract machine that exchanges a tracked
    credential only behind a confirmed rollout; what follows over many reconciles.
  \<^item> \<open>Healthy\<close>, \<open>Liveness\<close>: on a cluster where every call succeeds and every object is ready, every
    phase runs to its end and one reconcile gets the resource to Ready, tracking the credentials
    the cluster answered with in this reconcile.
  \<^item> \<open>RbacOutcome\<close>: the status shows what the step for the service account, role and role binding
    reported, although its conditions are set through a method with a value receiver.
  \<^item> \<open>InputHash\<close>: the hash the Deployments carry covers the inputs of the same reconcile, and what
    happens instead when a CA bundle is missing.
  \<^item> \<open>Pruning\<close>: pruning of consumer finalizers keeps every Secret in use.
  \<^item> \<open>Written\<close>: from admission to the cluster: each Deployment a reconcile writes is built by one of
    the three builders for the resource it fetched, so the contract of the builders holds of it.
  \<^item> \<open>Strategy\<close>: the worker Deployments, conditions and counts each serving strategy leaves.
  \<^item> \<open>Deletion\<close>: \<^verbatim>\<open>reconcileDelete\<close> gives back the database, the Keystone objects, the topology and
    the Secrets before it removes the finalizer of the resource.
  \<^item> \<open>Completion\<close>: an unobstructed deletion is over after at most two reconciles.
  \<^item> \<open>GoHeap\<close>, \<open>DeepCopy\<close>, \<open>CopyIsolation\<close>: \<^verbatim>\<open>zz_generated.deepcopy.go\<close> on structs in a heap of cells.
    What a deep copy promises is the locale \<open>deep_copier\<close>; it is proved once for pointers, slices,
    maps and structs and from there for every generated function.
  \<^item> \<open>Watches\<close>: the field indexes and map functions of the watches.
  \<^item> \<open>Flags\<close>, \<open>Startup\<close>: \<^verbatim>\<open>cmd/main.go\<close> and \<^verbatim>\<open>SetupWithManager\<close>: the command line, the order and
    exits of the start-up against a reference plan, and what the two servers present, with the
    TLS option lists as slices over shared arrays.

  \<^bold>\<open>Loops.\<close> Every loop of the program ranges over a list and is structural recursion or
  \<open>foreach\<close>; trimming of strings and flag parsing end by a measure. No fuel is needed.

  \<^bold>\<open>Not modelled.\<close> Logging and time stamps of conditions; the group registration; the
  templates rendered by the library; the bundle and manifests.
\<close>

end
